(* ===== verification/Imlp_Prelude.thy ===== *)
theory Imlp_Prelude
  imports Main "HOL-Library.Word" "HOL-Library.Monad_Syntax"
begin

text \<open>
  Shared vocabulary of the development: the fixed-width C++ integer types, the accesses of the
  C++ library whose misuse is undefined behaviour, and the generic facts on lists, options and
  words that the component theories use.

  A C++ expression that may have undefined behaviour (indexing a span, forming an iterator range,
  copying through an iterator) is modelled in the \<^typ>\<open>'a option\<close> monad: \<^term>\<open>None\<close> is undefined
  behaviour, \<^term>\<open>Some x\<close> is an execution that yields \<open>x\<close>. An operation that contains such an
  expression has an option result, and that it never is \<^term>\<open>None\<close> is proved, not assumed.
  Errors the program reports (status codes, error enumerators) are ordinary values instead.

  Sizes of containers are natural numbers. A scalar of type \<open>std::size_t\<close> on which the program
  computes is a 64-bit word; a container size enters such a computation through \<open>size_of\<close>.
\<close>

unbundle bit_operations_syntax

section \<open>Integer types\<close>

type_synonym byte = "8 word"
type_synonym u8 = "8 word"
type_synonym u16 = "16 word"
type_synonym u32 = "32 word"
type_synonym u64 = "64 word"
type_synonym size_t = "64 word"
type_synonym milliseconds = int

named_theorems cpp_access "unfolding of the checked C++ accesses when they are in bounds"
named_theorems wire_simps "big-endian fields: writing, reading and their lengths"
named_theorems enum_defs "the enumerators of the C++ enumerations as values of the underlying type"
named_theorems crc_eval "evaluation of the checksum loop on numerals"
named_theorems defined_intros "rules that show a computation to be free of undefined behaviour"

definition size_of :: "'a list \<Rightarrow> size_t" where
  "size_of xs = word_of_nat (length xs)"

section \<open>Accesses that can be undefined\<close>

text \<open>\<open>xs[i]\<close> on a span, vector, string view or array.\<close>

definition at :: "'a list \<Rightarrow> nat \<Rightarrow> 'a option" where
  "at xs i = (if i < length xs then Some (xs ! i) else None)"

text \<open>\<open>xs[i] = v\<close>.\<close>

definition store :: "'a list \<Rightarrow> nat \<Rightarrow> 'a \<Rightarrow> 'a list option" where
  "store xs i v = (if i < length xs then Some (xs[i := v]) else None)"

text \<open>A container built from the iterator range \<open>begin() + i, begin() + j\<close>.\<close>

definition iter_range :: "'a list \<Rightarrow> nat \<Rightarrow> nat \<Rightarrow> 'a list option" where
  "iter_range xs i j = (if i \<le> j \<and> j \<le> length xs then Some (take (j - i) (drop i xs)) else None)"

text \<open>\<open>std::copy (src.begin (), src.end (), dst.begin () + i)\<close>, element by element.\<close>

fun std_copy :: "'a list \<Rightarrow> 'a list \<Rightarrow> nat \<Rightarrow> 'a list option" where
  "std_copy [] dst i = Some dst"
| "std_copy (x # src) dst i = do { dst' \<leftarrow> store dst i x; std_copy src dst' (Suc i) }"

text \<open>\<open>std::equal (xs.begin (), xs.end (), ys.begin () + i)\<close>: stops at the first difference.\<close>

fun std_equal :: "'a list \<Rightarrow> 'a list \<Rightarrow> nat \<Rightarrow> bool option" where
  "std_equal [] ys i = Some True"
| "std_equal (x # xs) ys i =
     do { y \<leftarrow> at ys i; if x = y then std_equal xs ys (Suc i) else Some False }"

lemma at_in [cpp_access]: "i < length xs \<Longrightarrow> at xs i = Some (xs ! i)"
  by (simp add: at_def)

lemma at_eq_Some_iff: "at xs i = Some x \<longleftrightarrow> i < length xs \<and> xs ! i = x"
  by (auto simp: at_def)

lemma store_in [cpp_access]: "i < length xs \<Longrightarrow> store xs i v = Some (xs[i := v])"
  by (simp add: store_def)

lemma iter_range_in [cpp_access]:
  "i \<le> j \<Longrightarrow> j \<le> length xs \<Longrightarrow> iter_range xs i j = Some (take (j - i) (drop i xs))"
  by (simp add: iter_range_def)

lemma std_copy_in:
  "i + length src \<le> length dst \<Longrightarrow>
   std_copy src dst i = Some (take i dst @ src @ drop (i + length src) dst)"
proof (induction src arbitrary: dst i)
  case Nil
  then show ?case by simp
next
  case (Cons x src)
  then have "std_copy (x # src) dst i =
      Some (take (Suc i) (dst[i := x]) @ src @ drop (Suc i + length src) (dst[i := x]))"
    by (simp add: store_in)
  moreover have "take (Suc i) (dst[i := x]) = take i dst @ [x]"
    using Cons.prems by (simp add: take_Suc_conv_app_nth)
  ultimately show ?case by simp
qed

lemma std_equal_in [cpp_access]:
  "i + length xs \<le> length ys \<Longrightarrow> std_equal xs ys i = Some (take (length xs) (drop i ys) = xs)"
proof (induction xs arbitrary: i)
  case Nil
  then show ?case by simp
next
  case (Cons x xs)
  then have "drop i ys = ys ! i # drop (Suc i) ys"
    by (simp add: Cons_nth_drop_Suc)
  with Cons show ?case by (auto simp: at_in)
qed

text \<open>
  \<open>yields m P\<close>: the computation \<open>m\<close> has no undefined behaviour and its value satisfies \<open>P\<close>. The
  rules follow the structure of a program.
\<close>

definition yields :: "'a option \<Rightarrow> ('a \<Rightarrow> bool) \<Rightarrow> bool" where
  "yields m P \<longleftrightarrow> (\<exists>x. m = Some x \<and> P x)"

lemma yields_Some [defined_intros]: "P x \<Longrightarrow> yields (Some x) P"
  by (simp add: yields_def)

lemma yields_bind [defined_intros]: "yields m (\<lambda>x. yields (f x) P) \<Longrightarrow> yields (m \<bind> f) P"
  by (auto simp: yields_def)

lemma yields_if [defined_intros]:
  "(b \<Longrightarrow> yields m P) \<Longrightarrow> (\<not> b \<Longrightarrow> yields n P) \<Longrightarrow> yields (if b then m else n) P"
  by simp

lemma yields_Let [defined_intros]: "yields (f x) P \<Longrightarrow> yields (Let x f) P"
  by simp

lemma yields_pair [defined_intros]: "yields (f (fst x) (snd x)) P \<Longrightarrow> yields (case x of (a, b) \<Rightarrow> f a b) P"
  by (simp add: split_beta)

lemma yields_option [defined_intros]:
  "(x = None \<Longrightarrow> yields m P) \<Longrightarrow> (\<And>y. x = Some y \<Longrightarrow> yields (f y) P) \<Longrightarrow>
   yields (case x of None \<Rightarrow> m | Some y \<Rightarrow> f y) P"
  by (cases x) simp_all

lemma yields_Some_iff [simp]: "yields (Some x) P \<longleftrightarrow> P x"
  by (simp add: yields_def)

lemma yields_known: "m = Some x \<Longrightarrow> P x \<Longrightarrow> yields m P"
  by (simp add: yields_def)

lemma yields_at [defined_intros]: "i < length xs \<Longrightarrow> P (xs ! i) \<Longrightarrow> yields (at xs i) P"
  by (simp add: yields_def at_def)

declare std_equal.simps [simp del] std_copy.simps [simp del]

lemma length_iter_range: "iter_range xs i j = Some ys \<Longrightarrow> length ys = j - i"
  by (auto simp: iter_range_def split: if_splits)

section \<open>Lists\<close>

lemma nth_patch:
  assumes "start + length d \<le> length m" and "k < length m"
  shows "(take start m @ d @ drop (start + length d) m) ! k =
    (if start \<le> k \<and> k < start + length d then d ! (k - start) else m ! k)"
  using assms by (auto simp: nth_append min_def)

lemma length_patch:
  "start + length d \<le> length m \<Longrightarrow> length (take start m @ d @ drop (start + length d) m) = length m"
  by simp

lemma take_drop_patch:
  "start + length d \<le> length m \<Longrightarrow>
   take (length d) (drop start (take start m @ d @ drop (start + length d) m)) = d"
  by simp

lemma list_eq_take_nth_drop: "i < length xs \<Longrightarrow> xs = take i xs @ xs ! i # drop (Suc i) xs"
  by (rule id_take_nth_drop)

section \<open>Words\<close>

text \<open>
  The two and four bytes of a big-endian field and the word put together again from them, in
  the shift-and-mask form of the source.
\<close>

lemma and_0xFF: "v AND 0xFF = take_bit 8 (v :: 'a::len word)"
  by (simp add: take_bit_eq_mask mask_eq_exp_minus_1)

lemma bit_byte_ge: "8 \<le> n \<Longrightarrow> \<not> bit (b :: byte) n"
  using bit_imp_le_length [of b n] by auto

lemma u16_of_bytes:
  "(push_bit 8 (ucast (ucast (drop_bit 8 v AND 0xFF) :: byte)) :: u16)
     OR ucast (ucast (v AND 0xFF) :: byte) = v"
  unfolding and_0xFF by (rule bit_word_eqI) (auto simp: bit_simps)

lemma bytes_of_u16:
  fixes h l :: "byte"
  defines "v \<equiv> push_bit 8 (ucast h) OR ucast l :: u16"
  shows "ucast (drop_bit 8 v AND 0xFF) = h" and "ucast (v AND 0xFF) = l"
  unfolding v_def and_0xFF by (rule bit_word_eqI; auto simp: bit_simps bit_byte_ge)+

lemma u32_of_bytes:
  "(push_bit 24 (ucast (ucast (drop_bit 24 v AND 0xFF) :: byte)) :: u32)
     OR push_bit 16 (ucast (ucast (drop_bit 16 v AND 0xFF) :: byte))
     OR push_bit 8 (ucast (ucast (drop_bit 8 v AND 0xFF) :: byte))
     OR ucast (ucast (v AND 0xFF) :: byte) = v"
  unfolding and_0xFF
proof (rule bit_word_eqI, goal_cases)
  case (1 n)
  then consider "n < 8" | "8 \<le> n" "n < 16" | "16 \<le> n" "n < 24" | "24 \<le> n" "n < 32"
    by fastforce
  then show ?case by cases (auto simp: bit_simps)
qed

lemma bytes_of_u32:
  fixes a b c d :: "byte"
  defines "v \<equiv> push_bit 24 (ucast a) OR push_bit 16 (ucast b) OR push_bit 8 (ucast c) OR ucast d :: u32"
  shows "ucast (drop_bit 24 v AND 0xFF) = a" and "ucast (drop_bit 16 v AND 0xFF) = b"
    and "ucast (drop_bit 8 v AND 0xFF) = c" and "ucast (v AND 0xFF) = d"
  unfolding v_def and_0xFF by (rule bit_word_eqI; auto simp: bit_simps bit_byte_ge)+

lemma unat_ucast_byte [simp]:
  "unat (ucast (b :: byte) :: u16) = unat b" "unat (ucast (b :: byte) :: u32) = unat b"
  "unat (ucast (b :: byte) :: size_t) = unat b"
  using unsigned_less [of b, where ?'a = nat] by (simp_all add: unsigned_ucast_eq take_bit_nat_eq_self)

lemma unat_ucast_u32 [simp]: "unat (ucast (a :: u32) :: size_t) = unat a"
  using unsigned_less [of a, where ?'a = nat] by (simp add: unsigned_ucast_eq take_bit_nat_eq_self)

lemma unat_two_bytes:
  fixes h l :: byte
  shows "unat (push_bit 8 (ucast h) OR ucast l :: u16) = 256 * unat h + unat l"
    and "unat (push_bit 8 (ucast h) OR ucast l :: size_t) = 256 * unat h + unat l"
proof -
  have b: "unat h < 256" "unat l < 256"
    using unsigned_less [of h, where ?'a = nat] unsigned_less [of l, where ?'a = nat] by simp_all
  have "push_bit 8 (ucast h) OR ucast l = (push_bit 8 (ucast h) + ucast l :: u16)"
    and "push_bit 8 (ucast h) OR ucast l = (push_bit 8 (ucast h) + ucast l :: size_t)"
    by (rule disjunctive_add [symmetric]; auto simp: bit_simps bit_byte_ge)+
  then show "unat (push_bit 8 (ucast h) OR ucast l :: u16) = 256 * unat h + unat l"
    and "unat (push_bit 8 (ucast h) OR ucast l :: size_t) = 256 * unat h + unat l"
    using b by (simp_all add: push_bit_eq_mult unat_word_ariths)
qed

lemma xor_left_cancel [simp]: "c XOR x = c XOR y \<longleftrightarrow> x = (y :: 'a::len word)"
  by (auto simp: bit_eq_iff bit_xor_iff)

lemma xor_right_cancel [simp]: "x XOR c = y XOR c \<longleftrightarrow> x = (y :: 'a::len word)"
  by (auto simp: bit_eq_iff bit_xor_iff)

lemma xor_eq_zero_iff: "x XOR y = 0 \<longleftrightarrow> x = (y :: 'a::len word)"
  using xor_left_cancel [of x y x] by auto

lemma unat_of_nat_u32: "m < 2 ^ 32 \<Longrightarrow> unat (word_of_nat m :: u32) = m"
  by (simp add: unsigned_of_nat take_bit_nat_eq_self)

lemma unat_plus_one: "k < n \<Longrightarrow> unat (k + 1) = unat k + 1" for k n :: "'a::len word"
proof -
  assume "k < n"
  then have "unat k + 1 < 2 ^ LENGTH('a)"
    using unsigned_less [of n, where ?'a = nat]
    by (metis Suc_eq_plus1 Suc_leI le_less_trans word_less_nat_alt)
  then show ?thesis by (simp add: unat_word_ariths)
qed

text \<open>A counter that stays below its limit: the measure of a \<open>for\<close> loop over words.\<close>

lemma loop_measure: "k < n \<Longrightarrow> unat n - unat (k + 1) < unat n - unat k" for k n :: "'a::len word"
  using unat_plus_one [of k n] by (simp add: word_less_nat_alt)

lemma unat_size_of: "length xs < 2 ^ 64 \<Longrightarrow> unat (size_of xs) = length xs"
  by (simp add: size_of_def unsigned_of_nat take_bit_nat_eq_self)

section \<open>Sequences of operations\<close>

text \<open>
  A component is driven by a sequence of inputs: each step returns an output and the next state, or
  is undefined. The two locales carry what holds of one step over to every sequence: \<open>machine\<close> for
  the absence of undefined behaviour and an invariant, \<open>framed_machine\<close> for a part of the state that
  no step changes.
\<close>

fun run :: "('s \<Rightarrow> 'i \<Rightarrow> ('o \<times> 's) option) \<Rightarrow> 's \<Rightarrow> 'i list \<Rightarrow> ('o list \<times> 's) option" where
  "run step s [] = Some ([], s)"
| "run step s (i # is) = do {
     (x, s') \<leftarrow> step s i; (xs, s'') \<leftarrow> run step s' is; Some (x # xs, s'')
   }"

locale machine =
  fixes step :: "'s \<Rightarrow> 'i \<Rightarrow> ('o \<times> 's) option" and invar :: "'s \<Rightarrow> bool" and input :: "'i \<Rightarrow> bool"
  assumes step_total: "invar s \<Longrightarrow> input i \<Longrightarrow> \<exists>x s'. step s i = Some (x, s') \<and> invar s'"
begin

lemma run_total:
  "invar s \<Longrightarrow> list_all input is \<Longrightarrow>
   \<exists>xs s'. run step s is = Some (xs, s') \<and> invar s' \<and> length xs = length is"
proof (induction "is" arbitrary: s)
  case Nil
  then show ?case by simp
next
  case (Cons i "is")
  then obtain x s' where "step s i = Some (x, s')" "invar s'"
    using step_total [of s i] by auto
  with Cons show ?case by fastforce
qed

lemma run_invar: "invar s \<Longrightarrow> list_all input is \<Longrightarrow> run step s is = Some (xs, s') \<Longrightarrow> invar s'"
  using run_total by fastforce

end

locale framed_machine = machine step invar input
  for step :: "'s \<Rightarrow> 'i \<Rightarrow> ('o \<times> 's) option" and invar :: "'s \<Rightarrow> bool" and input :: "'i \<Rightarrow> bool" +
  fixes view :: "'s \<Rightarrow> 'v"
  assumes step_view: "invar s \<Longrightarrow> input i \<Longrightarrow> step s i = Some (x, s') \<Longrightarrow> view s' = view s"
begin

lemma run_view:
  "invar s \<Longrightarrow> list_all input is \<Longrightarrow> run step s is = Some (xs, s') \<Longrightarrow> view s' = view s"
proof (induction "is" arbitrary: s xs)
  case Nil
  then show ?case by simp
next
  case (Cons i "is")
  then obtain x t ys where "step s i = Some (x, t)" "run step t is = Some (ys, s')"
    by (auto simp: bind_eq_Some_conv)
  moreover have "invar t"
    using Cons.prems step_total [of s i] \<open>step s i = _\<close> by auto
  ultimately show ?case
    using Cons step_view [of s i x t] by auto
qed

end

text \<open>
  A step function against a specification that relates abstract states by labelled steps:
  \<open>simulation\<close> carries a simulation of single steps over to whole runs.
\<close>

inductive spec_run :: "('a \<Rightarrow> 'l \<Rightarrow> 'a \<Rightarrow> bool) \<Rightarrow> 'a \<Rightarrow> 'l list \<Rightarrow> 'a \<Rightarrow> bool" for spec where
  spec_Nil: "spec_run spec m [] m"
| spec_Cons: "spec m l m1 \<Longrightarrow> spec_run spec m1 ls m' \<Longrightarrow> spec_run spec m (l # ls) m'"

inductive_simps spec_run_Nil [simp]: "spec_run spec m [] m'"
inductive_simps spec_run_Cons: "spec_run spec m (l # ls) m'"

lemma spec_run_append:
  "spec_run spec m (ls @ ks) m' \<longleftrightarrow> (\<exists>m1. spec_run spec m ls m1 \<and> spec_run spec m1 ks m')"
  by (induction ls arbitrary: m) (auto simp: spec_run_Cons)

lemma spec_run_invariant:
  assumes "spec_run spec m ls m'" and "P m" and "\<And>m l m1. l \<in> set ls \<Longrightarrow> spec m l m1 \<Longrightarrow> P m \<Longrightarrow> P m1"
  shows "P m'"
  using assms by (induction rule: spec_run.induct) auto

locale simulation = machine step invar input
  for step :: "'s \<Rightarrow> 'i \<Rightarrow> ('o \<times> 's) option" and invar :: "'s \<Rightarrow> bool" and input :: "'i \<Rightarrow> bool" +
  fixes abs :: "'s \<Rightarrow> 'a" and label :: "'i \<Rightarrow> 'o \<Rightarrow> 'l" and spec :: "'a \<Rightarrow> 'l \<Rightarrow> 'a \<Rightarrow> bool"
  assumes step_simulates:
    "invar s \<Longrightarrow> input i \<Longrightarrow> step s i = Some (x, s') \<Longrightarrow> spec (abs s) (label i x) (abs s')"
begin

lemma run_simulates:
  assumes "invar s" and "list_all input is" and "run step s is = Some (xs, s')"
  shows "spec_run spec (abs s) (map2 label is xs) (abs s')"
  using assms
proof (induction "is" arbitrary: s xs)
  case Nil
  then show ?case by simp
next
  case (Cons i "is")
  then obtain x t ys where step: "step s i = Some (x, t)" and rest: "run step t is = Some (ys, s')" and "xs = x # ys"
    by (auto simp: bind_eq_Some_conv)
  moreover have "invar t"
    using Cons.prems step_total [of s i] step by auto
  ultimately show ?case
    using Cons.IH [OF \<open>invar t\<close> _ rest] Cons.prems step_simulates [of s i x t] by (auto intro: spec_Cons)
qed

end

end
