(* ===== verification/Types.thy ===== *)
theory Types
  imports Imlp_Prelude
begin

text \<open>
  The types of \<open>include/imlp/types.hpp\<close>: protocol constants, the wire enumerations, the frame and
  the results of the codec.

  A C++ \<open>enum class\<close> with a fixed underlying type has every value of that type, not only the
  enumerators: \<open>static_cast<Opcode> (0x33)\<close> and \<open>static_cast<Status> (77)\<close> are values. \<open>Opcode\<close>
  and \<open>Status\<close> are therefore the underlying integer behind a constructor, and their enumerators are
  constants. The enumerations that are never cast from an integer are datatypes.
\<close>

section \<open>Constants\<close>

definition magic :: "byte list" where
  "magic = [0x49, 0x4D]"

definition protocol_version :: u8 where
  "protocol_version = 1"

definition response_flag :: u8 where
  "response_flag = 0x01"

definition header_size :: nat where
  "header_size = 18"

definition checksum_size :: nat where
  "checksum_size = 4"

definition maximum_payload_size :: nat where
  "maximum_payload_size = 256"

definition maximum_frame_size :: nat where
  "maximum_frame_size = header_size + maximum_payload_size + checksum_size"

lemmas protocol_consts =
  magic_def protocol_version_def response_flag_def header_size_def checksum_size_def
  maximum_payload_size_def maximum_frame_size_def

section \<open>Enumerations\<close>

datatype Opcode = Opcode (opcode_value: u8)

definition Opcode_read_request :: Opcode where
  "Opcode_read_request = Opcode 0x01"

definition Opcode_write_request :: Opcode where
  "Opcode_write_request = Opcode 0x02"

definition Opcode_data_response :: Opcode where
  "Opcode_data_response = Opcode 0x81"

definition Opcode_write_acknowledgement :: Opcode where
  "Opcode_write_acknowledgement = Opcode 0x82"

definition Opcode_error_response :: Opcode where
  "Opcode_error_response = Opcode 0xFF"

datatype Status = Status (status_value: u16)

definition Status_ok :: Status where
  "Status_ok = Status 0"

definition Status_bad_request :: Status where
  "Status_bad_request = Status 1"

definition Status_out_of_range :: Status where
  "Status_out_of_range = Status 2"

definition Status_write_disabled :: Status where
  "Status_write_disabled = Status 3"

definition Status_access_denied :: Status where
  "Status_access_denied = Status 4"

definition Status_internal_error :: Status where
  "Status_internal_error = Status 5"

lemmas opcode_defs [enum_defs] =
  Opcode_read_request_def Opcode_write_request_def Opcode_data_response_def
  Opcode_write_acknowledgement_def Opcode_error_response_def

lemmas status_defs [enum_defs] =
  Status_ok_def Status_bad_request_def Status_out_of_range_def Status_write_disabled_def
  Status_access_denied_def Status_internal_error_def

text \<open>Scoped enumerations compare by their underlying values.\<close>

instantiation Status :: linorder
begin

definition less_eq_Status :: "Status \<Rightarrow> Status \<Rightarrow> bool" where
  "less_eq_Status s t \<longleftrightarrow> status_value s \<le> status_value t"

definition less_Status :: "Status \<Rightarrow> Status \<Rightarrow> bool" where
  "less_Status s t \<longleftrightarrow> status_value s < status_value t"

instance
  by standard (auto simp: less_eq_Status_def less_Status_def Status.expand)

end

instantiation Opcode :: linorder
begin

definition less_eq_Opcode :: "Opcode \<Rightarrow> Opcode \<Rightarrow> bool" where
  "less_eq_Opcode s t \<longleftrightarrow> opcode_value s \<le> opcode_value t"

definition less_Opcode :: "Opcode \<Rightarrow> Opcode \<Rightarrow> bool" where
  "less_Opcode s t \<longleftrightarrow> opcode_value s < opcode_value t"

instance
  by standard (auto simp: less_eq_Opcode_def less_Opcode_def Opcode.expand)

end

datatype CodecError =
    CodecError_none
  | CodecError_truncated
  | CodecError_bad_magic
  | CodecError_unsupported_version
  | CodecError_unsupported_opcode
  | CodecError_unsupported_flags
  | CodecError_nonzero_reserved
  | CodecError_payload_too_large
  | CodecError_length_mismatch
  | CodecError_checksum_mismatch
  | CodecError_invalid_semantics

section \<open>Frames and codec results\<close>

record Frame =
  frame_version :: u8
  frame_opcode :: Opcode
  frame_flags :: u8
  frame_request_id :: u32
  frame_address :: u32
  frame_status :: Status
  frame_payload :: "byte list"

text \<open>The default member initialisers, which designated initialisers leave in place.\<close>

definition Frame_default :: Frame where
  "Frame_default = \<lparr>frame_version = protocol_version, frame_opcode = Opcode_read_request,
     frame_flags = 0, frame_request_id = 0, frame_address = 0, frame_status = Status_ok,
     frame_payload = []\<rparr>"

record EncodeResult =
  enc_bytes :: "byte list"
  enc_error :: CodecError

text \<open>\<open>explicit operator bool\<close> of the two results.\<close>

definition enc_ok :: "EncodeResult \<Rightarrow> bool" where
  "enc_ok r \<longleftrightarrow> enc_error r = CodecError_none"

record DecodeResult =
  dec_frame :: "Frame option"
  dec_error :: CodecError
  dec_consumed :: nat

definition dec_ok :: "DecodeResult \<Rightarrow> bool" where
  "dec_ok r \<longleftrightarrow> dec_error r = CodecError_none \<and> dec_frame r \<noteq> None"

lemma enum_distinct [simp]:
  "Opcode_read_request \<noteq> Opcode_write_request" "Opcode_write_request \<noteq> Opcode_read_request"
  "Opcode_read_request \<noteq> Opcode_data_response" "Opcode_data_response \<noteq> Opcode_read_request"
  "Opcode_read_request \<noteq> Opcode_write_acknowledgement"
  "Opcode_write_acknowledgement \<noteq> Opcode_read_request"
  "Opcode_read_request \<noteq> Opcode_error_response" "Opcode_error_response \<noteq> Opcode_read_request"
  "Opcode_write_request \<noteq> Opcode_data_response" "Opcode_data_response \<noteq> Opcode_write_request"
  "Opcode_write_request \<noteq> Opcode_write_acknowledgement"
  "Opcode_write_acknowledgement \<noteq> Opcode_write_request"
  "Opcode_write_request \<noteq> Opcode_error_response" "Opcode_error_response \<noteq> Opcode_write_request"
  "Opcode_data_response \<noteq> Opcode_write_acknowledgement"
  "Opcode_write_acknowledgement \<noteq> Opcode_data_response"
  "Opcode_data_response \<noteq> Opcode_error_response" "Opcode_error_response \<noteq> Opcode_data_response"
  "Opcode_write_acknowledgement \<noteq> Opcode_error_response"
  "Opcode_error_response \<noteq> Opcode_write_acknowledgement"
  by (simp_all add: opcode_defs)

lemma status_not_ok [simp]:
  "Status_bad_request \<noteq> Status_ok" "Status_out_of_range \<noteq> Status_ok"
  "Status_write_disabled \<noteq> Status_ok" "Status_access_denied \<noteq> Status_ok"
  "Status_internal_error \<noteq> Status_ok" "Status_ok \<noteq> Status_bad_request"
  "Status_ok \<noteq> Status_out_of_range" "Status_ok \<noteq> Status_write_disabled"
  "Status_ok \<noteq> Status_access_denied" "Status_ok \<noteq> Status_internal_error"
  by (simp_all add: status_defs)

lemma size_consts [simp]:
  "header_size = 18" "checksum_size = 4" "maximum_payload_size = 256" "maximum_frame_size = 278"
  by (simp_all add: protocol_consts)

end
