(* ===== verification/Crc32.thy ===== *)
theory Crc32
  imports Types
begin

text \<open>
  The checksum of \<open>src/codec.cpp\<close> (\<open>crc32\<close>): the two nested loops, their algebra (the update is
  linear over exclusive or and injective), a bit-serial shift register as the reference the
  byte-wise loop is equal to, and the error-detection facts the frame codec relies on.
\<close>

section \<open>The loops\<close>

definition crc32_step :: "u32 \<Rightarrow> u32" where
  "crc32_step crc = (let mask = 0 - (crc AND 1) in drop_bit 1 crc XOR (0xEDB88320 AND mask))"

text \<open>The inner loop with \<open>n\<close> iterations left, and the outer loop over the remaining bytes.\<close>

fun crc32_bits :: "nat \<Rightarrow> u32 \<Rightarrow> u32" where
  "crc32_bits 0 crc = crc"
| "crc32_bits (Suc n) crc = crc32_bits n (crc32_step crc)"

fun crc32_loop :: "u32 \<Rightarrow> byte list \<Rightarrow> u32" where
  "crc32_loop crc [] = crc"
| "crc32_loop crc (b # bs) = crc32_loop (crc32_bits 8 (crc XOR ucast b)) bs"

definition crc32 :: "byte list \<Rightarrow> u32" where
  "crc32 bs = NOT (crc32_loop 0xFFFFFFFF bs)"

section \<open>Evaluation\<close>

lemma crc32_step_if: "crc32_step c = (if bit c 0 then drop_bit 1 c XOR 0xEDB88320 else drop_bit 1 c)"
  by (auto simp: crc32_step_def Let_def bit_0 and_one_eq odd_iff_mod_2_eq_one even_iff_mod_2_eq_zero)

lemma crc32_step_numeral [crc_eval]:
  "crc32_step (numeral w) = (if odd (numeral w :: u32) then drop_bit 1 (numeral w) XOR 0xEDB88320
     else drop_bit 1 (numeral w))"
  "crc32_step 0 = 0" "crc32_step 1 = 0xEDB88320"
  by (simp_all add: crc32_step_if bit_0)

lemma crc32_bits_8 [crc_eval]:
  "crc32_bits 8 c = crc32_step (crc32_step (crc32_step (crc32_step (crc32_step (crc32_step
     (crc32_step (crc32_step c)))))))"
  by (simp add: eval_nat_numeral)

section \<open>Algebra of the update\<close>

lemma crc32_step_xor: "crc32_step (x XOR y) = crc32_step x XOR crc32_step y"
  by (auto simp: crc32_step_if drop_bit_xor bit_xor_iff xor.assoc xor.left_commute xor.commute)

lemma crc32_step_zero [simp]: "crc32_step 0 = 0"
  by (simp add: crc32_step_if)

lemma bit_drop_one: "bit (drop_bit 1 (x :: u32)) n = bit x (Suc n)"
  by (simp only: bit_drop_bit_eq o_apply plus_1_eq_Suc)

lemmas bit_drop_Suc_0 = bit_drop_one [unfolded One_nat_def]

lemma bit_push_one: "bit (push_bit 1 (x :: u32)) n \<longleftrightarrow> 0 < n \<and> n < 32 \<and> bit x (n - 1)"
  using bit_imp_le_length [of x "n - 1"]
  by (auto simp only: bit_push_bit_iff possible_bit_word len_num0 len_bit0 len_num1)

lemma crc32_step_eq_zero: "crc32_step x = 0 \<Longrightarrow> x = 0"
proof -
  assume eq: "crc32_step x = 0"
  have "\<not> bit (drop_bit 1 x) 31"
    using bit_imp_le_length [of x 32] by (auto simp: bit_drop_bit_eq)
  then have even: "\<not> bit x 0"
    using eq unfolding crc32_step_if
    by (auto dest!: arg_cong [where f = "\<lambda>w. bit w 31"] simp: bit_xor_iff)
  with eq have "drop_bit 1 x = 0"
    by (simp add: crc32_step_if)
  then have "\<not> bit x (Suc n)" for n
    by (metis bit_0_eq bot_apply bot_bool_def bit_drop_one)
  with even show "x = 0"
    by (intro bit_word_eqI) (metis bit_0_eq bot_apply bot_bool_def not0_implies_Suc)
qed

lemma crc32_bits_zero [simp]: "crc32_bits n 0 = 0"
  by (induction n) simp_all

lemma crc32_bits_xor: "crc32_bits n (x XOR y) = crc32_bits n x XOR crc32_bits n y"
  by (induction n arbitrary: x y) (simp_all add: crc32_step_xor)

lemma crc32_bits_eq_zero: "crc32_bits n x = 0 \<Longrightarrow> x = 0"
  by (induction n arbitrary: x) (auto dest: crc32_step_eq_zero)

lemma crc32_bits_inj: "crc32_bits n x = crc32_bits n y \<longleftrightarrow> x = y"
  using crc32_bits_eq_zero [of n "x XOR y"] by (auto simp: crc32_bits_xor xor_eq_zero_iff)

section \<open>The bit-serial reference\<close>

text \<open>
  A CRC is specified as a shift register that consumes the message one bit at a time: the bit is
  added to the register's low end, the register moves one place, and the polynomial is subtracted
  when a one falls out. The reflected CRC-32 takes the bits of each byte from the least significant
  one on.
\<close>

fun crc_serial :: "u32 \<Rightarrow> bool list \<Rightarrow> u32" where
  "crc_serial reg [] = reg"
| "crc_serial reg (m # ms) =
     (let feedback = (bit reg 0 \<noteq> m); shifted = drop_bit 1 reg
      in crc_serial (if feedback then shifted XOR 0xEDB88320 else shifted) ms)"

definition byte_bits :: "byte \<Rightarrow> bool list" where
  "byte_bits b = map (bit b) [0..<8]"

definition message_bits :: "byte list \<Rightarrow> bool list" where
  "message_bits bs = concat (map byte_bits bs)"

lemma crc_serial_append: "crc_serial c (xs @ ys) = crc_serial (crc_serial c xs) ys"
  by (induction xs arbitrary: c) (simp_all add: Let_def)

lemma crc_serial_Cons: "crc_serial c (m # ms) = crc_serial (crc32_step (c XOR of_bool m)) ms"
proof -
  have "drop_bit 1 (of_bool m :: u32) = 0" by (cases m) simp_all
  then show ?thesis by (cases m) (auto simp: crc32_step_if Let_def drop_bit_xor bit_xor_iff bit_1_iff)
qed

text \<open>The loop over the bits of a word is the serial register fed with those bits.\<close>

lemma crc32_bits_serial:
  "n \<le> 32 \<Longrightarrow> take_bit n w = w \<Longrightarrow> crc32_bits n (c XOR w) = crc_serial c (map (bit w) [0..<n])"
proof (induction n arbitrary: c w)
  case 0
  then show ?case by simp
next
  case (Suc n)
  define low :: u32 where "low = of_bool (bit w 0)"
  define rest where "rest = drop_bit 1 w"
  define up where "up = push_bit 1 rest"
  have bits: "bit rest k = bit w (Suc k)" "bit up k \<longleftrightarrow> 0 < k \<and> k < 32 \<and> bit w k" for k
    by (auto simp only: rest_def up_def bit_drop_one bit_push_one Suc_diff_1)
  have w: "w = low XOR up"
    by (rule bit_word_eqI) (auto simp: low_def bits bit_xor_iff bit_1_iff intro: gr0I)
  have "take_bit n rest = rest"
    using Suc.prems(2) by (metis rest_def One_nat_def drop_bit_take_bit diff_Suc_1)
  moreover have "crc32_step up = rest"
    using bit_imp_le_length [of w]
    by (intro bit_word_eqI) (force simp: crc32_step_if bits bit_drop_Suc_0)
  then have "crc32_step (c XOR w) = crc32_step (c XOR low) XOR rest"
    by (subst w) (simp add: crc32_step_xor xor.assoc)
  moreover have "map (bit w) [0..<Suc n] = bit w 0 # map (bit rest) [0..<n]"
    by (simp add: bits upt_conv_Cons map_Suc_upt [symmetric] del: upt_Suc)
  ultimately show ?case
    using Suc.IH [of rest "crc32_step (c XOR low)"] Suc.prems(1)
    by (simp add: crc_serial_Cons low_def del: crc_serial.simps upt_Suc)
qed

lemma crc32_byte_serial: "crc32_bits 8 (c XOR ucast b) = crc_serial c (byte_bits b)"
proof -
  have "take_bit 8 (ucast b :: u32) = ucast b"
    using bit_byte_ge [of _ b] by (intro bit_word_eqI) (auto simp: bit_simps not_le [symmetric])
  moreover have "map (bit (ucast b :: u32)) [0..<8] = byte_bits b"
    by (auto simp: byte_bits_def bit_simps)
  ultimately show ?thesis by (simp add: crc32_bits_serial)
qed

lemma crc32_loop_serial: "crc32_loop c bs = crc_serial c (message_bits bs)"
  by (induction bs arbitrary: c)
    (simp_all add: message_bits_def crc32_byte_serial crc_serial_append)

section \<open>Error detection\<close>

lemma crc_serial_inj: "crc_serial c ms = crc_serial d ms \<longleftrightarrow> c = d"
proof (induction ms arbitrary: c d)
  case (Cons m ms)
  have "crc32_step x = crc32_step y \<longleftrightarrow> x = y" for x y
    using crc32_bits_inj [of 1 x y] by simp
  then show ?case
    unfolding crc_serial_Cons Cons.IH by simp
qed simp

text \<open>At most 32 message bits reach the register as one word, so they can be read back from it.\<close>

lemma crc_serial_short_inj:
  assumes "length us = length vs" and "length us \<le> 32"
  shows "crc_serial c us = crc_serial c vs \<longleftrightarrow> us = vs"
proof -
  define word :: "bool list \<Rightarrow> u32" where "word = (\<lambda>ms. horner_sum of_bool 2 ms)"
  have word: "crc_serial c ms = crc32_bits (length ms) (c XOR word ms)" if "length ms \<le> 32" for ms
  proof -
    have "take_bit (length ms) (word ms) = word ms" and "map (bit (word ms)) [0..<length ms] = ms"
      using that by (auto simp: word_def take_bit_horner_sum_bit_eq bit_horner_sum_bit_iff intro: nth_equalityI)
    with that show ?thesis by (simp add: crc32_bits_serial)
  qed
  have read: "bit (word ms) k = ms ! k" if "length ms \<le> 32" and "k < length ms" for ms k
    using that by (auto simp: word_def bit_horner_sum_bit_iff)
  have "us = vs" if "word us = word vs"
    using assms read [of us] read [of vs] that by (intro nth_equalityI) auto
  then have "word us = word vs \<longleftrightarrow> us = vs" by blast
  then show ?thesis
    using assms by (simp add: word crc32_bits_inj)
qed

lemma crc32_burst:
  assumes "message_bits xs = p @ us @ s" and "message_bits ys = p @ vs @ s"
    and "length us = length vs" and "length us \<le> 32" and "us \<noteq> vs"
  shows "crc32 xs \<noteq> crc32 ys"
  using assms by (simp add: crc32_def crc32_loop_serial crc_serial_append crc_serial_inj crc_serial_short_inj)

lemma byte_bits_inj: "byte_bits a = byte_bits b \<longleftrightarrow> a = b"
  by (auto simp: byte_bits_def map_eq_conv intro: bit_word_eqI)

lemma message_bits_append: "message_bits (xs @ ys) = message_bits xs @ message_bits ys"
  by (simp add: message_bits_def)

lemma crc32_byte_differs:
  assumes "a \<noteq> b"
  shows "crc32 (p @ a # s) \<noteq> crc32 (p @ b # s)"
proof (rule crc32_burst)
  show "message_bits (p @ a # s) = message_bits p @ byte_bits a @ message_bits s"
    and "message_bits (p @ b # s) = message_bits p @ byte_bits b @ message_bits s"
    by (simp_all add: message_bits_def)
  show "byte_bits a \<noteq> byte_bits b"
    using assms by (simp add: byte_bits_inj)
qed (simp_all add: byte_bits_def)

lemma crc32_byte_change:
  "i < length bs \<Longrightarrow> b \<noteq> bs ! i \<Longrightarrow> crc32 (bs[i := b]) \<noteq> crc32 bs"
  using crc32_byte_differs [of b "bs ! i" "take i bs" "drop (Suc i) bs"]
  by (simp add: upd_conv_take_nth_drop id_take_nth_drop [symmetric])

text \<open>The published check value of this CRC: the checksum of the ASCII digits 1 to 9.\<close>

lemma crc32_check_value: "crc32 [0x31, 0x32, 0x33, 0x34, 0x35, 0x36, 0x37, 0x38, 0x39] = 0xCBF43926"
  by (simp add: crc32_def crc_eval)

section \<open>Property\<close>

text \<open>
  C29. The byte-wise loop with its branch-free mask computes the CRC that the bit-serial shift register
  defines: preset to all ones, bits of each byte from the least significant one on, polynomial
  0xEDB88320 (reflected), result complemented.
\<close>

theorem crc32_equals_serial_register: "crc32 bs = NOT (crc_serial 0xFFFFFFFF (message_bits bs))"
  by (simp add: crc32_def crc32_loop_serial)

end
