(* ===== verification/Codec.thy ===== *)
theory Codec
  imports Crc32
begin

text \<open>
  The frame codec of \<open>src/codec.cpp\<close>: big-endian fields, semantic validation, \<open>encode\<close> and
  \<open>decode\<close>, and the wire format of \<open>docs/protocol-spec.md\<close> as their abstract specification:
  \<open>encode\<close> writes \<open>wire f\<close> exactly for the frames whose fields fit together (\<open>valid_frame\<close>), and
  \<open>decode\<close> accepts exactly the byte strings \<open>wire f\<close> of those frames, gives back \<open>f\<close>, and
  otherwise reports the first check of the documented order that fails. No input makes it read
  outside the span.
\<close>

section \<open>Helpers of the anonymous namespace\<close>

definition append_u16 :: "byte list \<Rightarrow> u16 \<Rightarrow> byte list" where
  "append_u16 output value =
     (let output = output @ [ucast (drop_bit 8 value AND 0xFF)];
          output = output @ [ucast (value AND 0xFF)]
      in output)"

definition append_u32 :: "byte list \<Rightarrow> u32 \<Rightarrow> byte list" where
  "append_u32 output value =
     (let output = output @ [ucast (drop_bit 24 value AND 0xFF)];
          output = output @ [ucast (drop_bit 16 value AND 0xFF)];
          output = output @ [ucast (drop_bit 8 value AND 0xFF)];
          output = output @ [ucast (value AND 0xFF)]
      in output)"

definition read_u16 :: "byte list \<Rightarrow> nat \<Rightarrow> u16 option" where
  "read_u16 bytes offset = do {
     high \<leftarrow> at bytes offset;
     low \<leftarrow> at bytes (offset + 1);
     Some (push_bit 8 (ucast high) OR ucast low)
   }"

definition read_u32 :: "byte list \<Rightarrow> nat \<Rightarrow> u32 option" where
  "read_u32 bytes offset = do {
     b0 \<leftarrow> at bytes offset;
     b1 \<leftarrow> at bytes (offset + 1);
     b2 \<leftarrow> at bytes (offset + 2);
     b3 \<leftarrow> at bytes (offset + 3);
     Some (push_bit 24 (ucast b0) OR push_bit 16 (ucast b1) OR push_bit 8 (ucast b2) OR ucast b3)
   }"

definition is_supported_opcode :: "Opcode \<Rightarrow> bool" where
  "is_supported_opcode opcode \<longleftrightarrow>
     opcode = Opcode_read_request \<or> opcode = Opcode_write_request \<or>
     opcode = Opcode_data_response \<or> opcode = Opcode_write_acknowledgement \<or>
     opcode = Opcode_error_response"

definition has_valid_semantics :: "Frame \<Rightarrow> bool" where
  "has_valid_semantics frame =
     (let is_response = (frame_flags frame AND response_flag \<noteq> 0);
          expects_response_flag = (frame_opcode frame = Opcode_data_response \<or>
            frame_opcode frame = Opcode_write_acknowledgement \<or>
            frame_opcode frame = Opcode_error_response)
      in if is_response \<noteq> expects_response_flag then False
         else if frame_flags frame AND NOT response_flag \<noteq> 0 then False
         else if frame_opcode frame = Opcode_read_request
           then frame_status frame = Status_ok \<and> length (frame_payload frame) = 2
         else if frame_opcode frame = Opcode_write_request
           then frame_status frame = Status_ok \<and> frame_payload frame \<noteq> []
         else if frame_opcode frame = Opcode_data_response then frame_status frame = Status_ok
         else if frame_opcode frame = Opcode_write_acknowledgement
           then frame_status frame = Status_ok \<and> frame_payload frame = []
         else frame_opcode frame = Opcode_error_response \<and> frame_status frame \<noteq> Status_ok)"

section \<open>Encoding and decoding\<close>

definition enc_fail :: "CodecError \<Rightarrow> EncodeResult" where
  "enc_fail e = \<lparr>enc_bytes = [], enc_error = e\<rparr>"

definition encode :: "Frame \<Rightarrow> EncodeResult" where
  "encode frame =
     (if frame_version frame \<noteq> protocol_version then enc_fail CodecError_unsupported_version
      else if \<not> is_supported_opcode (frame_opcode frame) then enc_fail CodecError_unsupported_opcode
      else if length (frame_payload frame) > maximum_payload_size
        then enc_fail CodecError_payload_too_large
      else if \<not> has_valid_semantics frame then enc_fail CodecError_invalid_semantics
      else
        (let output = [];
             output = output @ magic;
             output = output @ [frame_version frame];
             output = output @ [opcode_value (frame_opcode frame)];
             output = output @ [frame_flags frame];
             output = output @ [0];
             output = append_u32 output (frame_request_id frame);
             output = append_u32 output (frame_address frame);
             output = append_u16 output (word_of_nat (length (frame_payload frame)));
             output = append_u16 output (status_value (frame_status frame));
             output = output @ frame_payload frame;
             output = append_u32 output (crc32 output)
         in \<lparr>enc_bytes = output, enc_error = CodecError_none\<rparr>))"

definition dec_fail :: "CodecError \<Rightarrow> nat \<Rightarrow> DecodeResult" where
  "dec_fail e n = \<lparr>dec_frame = None, dec_error = e, dec_consumed = n\<rparr>"

definition decode :: "byte list \<Rightarrow> DecodeResult option" where
  "decode bytes =
    (if length bytes < header_size then Some (dec_fail CodecError_truncated 0)
     else do {
       magic_ok \<leftarrow> std_equal magic bytes 0;
       if \<not> magic_ok then Some (dec_fail CodecError_bad_magic 0)
       else do {
       version \<leftarrow> at bytes 2;
       if version \<noteq> protocol_version then Some (dec_fail CodecError_unsupported_version 0)
       else do {
       opcode_byte \<leftarrow> at bytes 3;
       let opcode = Opcode opcode_byte;
       if \<not> is_supported_opcode opcode then Some (dec_fail CodecError_unsupported_opcode 0)
       else do {
       flags \<leftarrow> at bytes 4;
       if flags AND NOT response_flag \<noteq> 0 then Some (dec_fail CodecError_unsupported_flags 0)
       else do {
       reserved \<leftarrow> at bytes 5;
       if reserved \<noteq> 0 then Some (dec_fail CodecError_nonzero_reserved 0)
       else do {
       length_field \<leftarrow> read_u16 bytes 14;
       let payload_size = unat length_field;
       if payload_size > maximum_payload_size then Some (dec_fail CodecError_payload_too_large 0)
       else do {
       let expected_size = header_size + payload_size + checksum_size;
       if length bytes < expected_size then Some (dec_fail CodecError_truncated 0)
       else if length bytes \<noteq> expected_size
         then Some (dec_fail CodecError_length_mismatch expected_size)
       else do {
       expected_crc \<leftarrow> read_u32 bytes (expected_size - checksum_size);
       covered \<leftarrow> iter_range bytes 0 (expected_size - checksum_size);
       if crc32 covered \<noteq> expected_crc
         then Some (dec_fail CodecError_checksum_mismatch expected_size)
       else do {
       request_id \<leftarrow> read_u32 bytes 6;
       address \<leftarrow> read_u32 bytes 10;
       status \<leftarrow> read_u16 bytes 16;
       payload \<leftarrow> iter_range bytes header_size (header_size + payload_size);
       let frame = \<lparr>frame_version = protocol_version, frame_opcode = opcode, frame_flags = flags,
         frame_request_id = request_id, frame_address = address, frame_status = Status status,
         frame_payload = payload\<rparr>;
       if \<not> has_valid_semantics frame
         then Some (dec_fail CodecError_invalid_semantics expected_size)
         else Some \<lparr>dec_frame = Some frame, dec_error = CodecError_none,
                dec_consumed = expected_size\<rparr>
       }}}}}}}}})"

fun codec_error_name :: "CodecError \<Rightarrow> string" where
  "codec_error_name CodecError_none = ''none''"
| "codec_error_name CodecError_truncated = ''truncated''"
| "codec_error_name CodecError_bad_magic = ''bad_magic''"
| "codec_error_name CodecError_unsupported_version = ''unsupported_version''"
| "codec_error_name CodecError_unsupported_opcode = ''unsupported_opcode''"
| "codec_error_name CodecError_unsupported_flags = ''unsupported_flags''"
| "codec_error_name CodecError_nonzero_reserved = ''nonzero_reserved''"
| "codec_error_name CodecError_payload_too_large = ''payload_too_large''"
| "codec_error_name CodecError_length_mismatch = ''length_mismatch''"
| "codec_error_name CodecError_checksum_mismatch = ''checksum_mismatch''"
| "codec_error_name CodecError_invalid_semantics = ''invalid_semantics''"

section \<open>The wire format as a specification\<close>

definition be16 :: "u16 \<Rightarrow> byte list" where
  "be16 v = [ucast (drop_bit 8 v AND 0xFF), ucast (v AND 0xFF)]"

definition be32 :: "u32 \<Rightarrow> byte list" where
  "be32 v = [ucast (drop_bit 24 v AND 0xFF), ucast (drop_bit 16 v AND 0xFF),
     ucast (drop_bit 8 v AND 0xFF), ucast (v AND 0xFF)]"

definition u16_of :: "byte \<Rightarrow> byte \<Rightarrow> u16" where
  "u16_of h l = push_bit 8 (ucast h) OR ucast l"

definition u32_of :: "byte \<Rightarrow> byte \<Rightarrow> byte \<Rightarrow> byte \<Rightarrow> u32" where
  "u32_of a b c d = push_bit 24 (ucast a) OR push_bit 16 (ucast b) OR push_bit 8 (ucast c) OR ucast d"

text \<open>Offsets 0 to 17 of the table in the protocol specification, then payload and checksum.\<close>

definition wire_header :: "Frame \<Rightarrow> byte list" where
  "wire_header f =
     [0x49, 0x4D, frame_version f, opcode_value (frame_opcode f), frame_flags f, 0]
     @ be32 (frame_request_id f) @ be32 (frame_address f)
     @ be16 (word_of_nat (length (frame_payload f))) @ be16 (status_value (frame_status f))"

definition wire_body :: "Frame \<Rightarrow> byte list" where
  "wire_body f = wire_header f @ frame_payload f"

definition wire :: "Frame \<Rightarrow> byte list" where
  "wire f = wire_body f @ be32 (crc32 (wire_body f))"

text \<open>
  The relations between opcode, direction flag, payload and status that the code checks, one line for
  each assigned opcode. They leave open which length a read requests.
\<close>

definition valid_semantics :: "Frame \<Rightarrow> bool" where
  "valid_semantics f \<longleftrightarrow>
     frame_opcode f = Opcode_read_request \<and> frame_flags f = 0 \<and> frame_status f = Status_ok \<and>
       length (frame_payload f) = 2 \<or>
     frame_opcode f = Opcode_write_request \<and> frame_flags f = 0 \<and> frame_status f = Status_ok \<and>
       frame_payload f \<noteq> [] \<or>
     frame_opcode f = Opcode_data_response \<and> frame_flags f = 1 \<and> frame_status f = Status_ok \<or>
     frame_opcode f = Opcode_write_acknowledgement \<and> frame_flags f = 1 \<and> frame_status f = Status_ok \<and>
       frame_payload f = [] \<or>
     frame_opcode f = Opcode_error_response \<and> frame_flags f = 1 \<and> frame_status f \<noteq> Status_ok"

definition valid_frame :: "Frame \<Rightarrow> bool" where
  "valid_frame f \<longleftrightarrow>
     frame_version f = 1 \<and> length (frame_payload f) \<le> 256 \<and> valid_semantics f"

text \<open>
  The opcode table of \<open>docs/protocol-spec.md\<close>, which bounds the requested length of a read and the number of
  bytes of a write by 1 and 256. Its entries for the payloads of data and error responses (\<open>requested
  bytes\<close>, \<open>bounded diagnostic text\<close>) restrict a single frame only by the limit on every payload.
\<close>

definition requested_length :: "Frame \<Rightarrow> nat" where
  "requested_length request = 256 * unat (frame_payload request ! 0) + unat (frame_payload request ! 1)"

definition opcode_table :: "Frame \<Rightarrow> bool" where
  "opcode_table f \<longleftrightarrow>
     (if frame_opcode f = Opcode_read_request
      then frame_flags f = 0 \<and> frame_status f = Status_ok \<and> length (frame_payload f) = 2 \<and> requested_length f \<in> {1..256}
      else if frame_opcode f = Opcode_write_request
      then frame_flags f = 0 \<and> frame_status f = Status_ok \<and> length (frame_payload f) \<in> {1..256}
      else if frame_opcode f = Opcode_data_response
      then frame_flags f = 1 \<and> frame_status f = Status_ok \<and> length (frame_payload f) \<le> 256
      else if frame_opcode f = Opcode_write_acknowledgement
      then frame_flags f = 1 \<and> frame_status f = Status_ok \<and> frame_payload f = []
      else if frame_opcode f = Opcode_error_response
      then frame_flags f = 1 \<and> frame_status f \<noteq> Status_ok \<and> length (frame_payload f) \<le> 256
      else False)"

text \<open>The read requests with a length the table does not allow: 0 or more than 256.\<close>

definition unbounded_read :: "Frame \<Rightarrow> bool" where
  "unbounded_read f \<longleftrightarrow> frame_opcode f = Opcode_read_request \<and> frame_flags f = 0 \<and> frame_status f = Status_ok \<and>
     length (frame_payload f) = 2 \<and> (requested_length f = 0 \<or> 256 < requested_length f)"

lemma append_u16_be16 [wire_simps]: "append_u16 out v = out @ be16 v"
  by (simp add: append_u16_def be16_def)

lemma append_u32_be32 [wire_simps]: "append_u32 out v = out @ be32 v"
  by (simp add: append_u32_def be32_def)

lemma length_be [simp]: "length (be16 v) = 2" "length (be32 w) = 4"
  by (simp_all add: be16_def be32_def)

lemma be16_u16_of [wire_simps]: "be16 (u16_of h l) = [h, l]"
  by (simp only: be16_def u16_of_def bytes_of_u16)

lemma be32_u32_of [wire_simps]: "be32 (u32_of a b c d) = [a, b, c, d]"
  by (simp only: be32_def u32_of_def bytes_of_u32)

lemma be16_eq_iff: "be16 v = [h, l] \<longleftrightarrow> v = u16_of h l"
  by (auto simp: be16_u16_of) (auto simp: be16_def u16_of_def u16_of_bytes)

lemma be32_eq_iff: "be32 v = [a, b, c, d] \<longleftrightarrow> v = u32_of a b c d"
  by (auto simp: be32_u32_of) (auto simp: be32_def u32_of_def u32_of_bytes)

lemma be32_inj [simp]: "be32 v = be32 w \<longleftrightarrow> v = w"
  by (metis be32_def be32_eq_iff)

lemma length_wire_header [simp]: "length (wire_header f) = 18"
  by (simp add: wire_header_def)

lemma length_wire_body [simp]: "length (wire_body f) = 18 + length (frame_payload f)"
  by (simp add: wire_body_def)

lemma length_wire [simp]: "length (wire f) = 22 + length (frame_payload f)"
  by (simp add: wire_def)

lemma wire_not_Nil [simp]: "wire f \<noteq> []" "[] \<noteq> wire f"
  by (metis length_wire list.size(3) add_is_0 zero_neq_numeral)+

section \<open>Semantic validation\<close>

lemma flags_and_not_response: "fl AND NOT response_flag = 0 \<longleftrightarrow> fl = 0 \<or> fl = 1"
proof
  assume none: "fl AND NOT response_flag = 0"
  have "fl = (fl AND NOT response_flag) OR (fl AND response_flag)"
    by (rule bit_word_eqI) (auto simp: bit_simps)
  then have "fl = fl mod 2"
    using none by (simp add: response_flag_def and_one_eq)
  then show "fl = 0 \<or> fl = 1"
    by (metis not_mod_2_eq_1_eq_0)
qed (auto simp: response_flag_def)

lemma has_valid_semantics_iff: "has_valid_semantics f \<longleftrightarrow> valid_semantics f"
proof (cases "frame_flags f = 0 \<or> frame_flags f = 1")
  case True
  then show ?thesis
    by (auto simp: has_valid_semantics_def valid_semantics_def Let_def flags_and_not_response response_flag_def)
next
  case False
  then show ?thesis
    by (auto simp: has_valid_semantics_def valid_semantics_def Let_def flags_and_not_response)
qed

lemma valid_semantics_supported: "valid_semantics f \<Longrightarrow> is_supported_opcode (frame_opcode f)"
  by (auto simp: valid_semantics_def is_supported_opcode_def)

lemma valid_semantics_flags: "valid_semantics f \<Longrightarrow> frame_flags f = 0 \<or> frame_flags f = 1"
  by (auto simp: valid_semantics_def)

section \<open>Encoding\<close>

text \<open>The frames of the code, in terms of the specification's table.\<close>

lemma valid_frame_table: "valid_frame f \<longleftrightarrow> frame_version f = 1 \<and> (opcode_table f \<or> unbounded_read f)"
proof (cases "length (frame_payload f) = 0")
  case True
  then show ?thesis by (auto simp: valid_frame_def valid_semantics_def opcode_table_def unbounded_read_def)
next
  case False
  then have "frame_payload f \<noteq> []" "Suc 0 \<le> length (frame_payload f)" by (simp_all add: Suc_le_eq)
  then show ?thesis
    by (auto simp: valid_frame_def valid_semantics_def opcode_table_def unbounded_read_def)
qed

lemma encode_wire: "valid_frame f \<Longrightarrow> encode f = \<lparr>enc_bytes = wire f, enc_error = CodecError_none\<rparr>"
  by (simp add: encode_def valid_frame_def valid_semantics_supported has_valid_semantics_iff
      protocol_version_def wire_def wire_body_def wire_header_def wire_simps magic_def)

lemma encode_invalid: "\<not> valid_frame f \<Longrightarrow> \<exists>e. e \<noteq> CodecError_none \<and> encode f = enc_fail e"
  by (auto simp: encode_def valid_frame_def has_valid_semantics_iff protocol_version_def)

lemma enc_ok_encode_iff: "enc_ok (encode f) \<longleftrightarrow> valid_frame f"
proof (cases "valid_frame f")
  case False
  then show ?thesis by (metis encode_invalid enc_ok_def enc_fail_def EncodeResult.select_convs(2))
qed (simp add: encode_wire enc_ok_def)

section \<open>Decoding: the documented order of checks\<close>

definition field_u16 :: "byte list \<Rightarrow> nat \<Rightarrow> u16" where
  "field_u16 bytes i = u16_of (bytes ! i) (bytes ! (i + 1))"

definition field_u32 :: "byte list \<Rightarrow> nat \<Rightarrow> u32" where
  "field_u32 bytes i = u32_of (bytes ! i) (bytes ! (i + 1)) (bytes ! (i + 2)) (bytes ! (i + 3))"

definition parsed_frame :: "byte list \<Rightarrow> Frame" where
  "parsed_frame bytes = \<lparr>frame_version = 1, frame_opcode = Opcode (bytes ! 3),
     frame_flags = bytes ! 4, frame_request_id = field_u32 bytes 6,
     frame_address = field_u32 bytes 10, frame_status = Status (field_u16 bytes 16),
     frame_payload = take (unat (field_u16 bytes 14)) (drop 18 bytes)\<rparr>"

text \<open>
  The seven steps of the validation order in the protocol specification, each with the error it
  reports and the consumed byte count that goes with it.
\<close>

definition decode_checks :: "byte list \<Rightarrow> (bool \<times> CodecError \<times> nat) list" where
  "decode_checks bytes =
     (let n = unat (field_u16 bytes 14); total = 18 + n + 4 in
      [(18 \<le> length bytes, CodecError_truncated, 0),
       (take 2 bytes = [0x49, 0x4D], CodecError_bad_magic, 0),
       (bytes ! 2 = 1, CodecError_unsupported_version, 0),
       (is_supported_opcode (Opcode (bytes ! 3)), CodecError_unsupported_opcode, 0),
       (bytes ! 4 = 0 \<or> bytes ! 4 = 1, CodecError_unsupported_flags, 0),
       (bytes ! 5 = 0, CodecError_nonzero_reserved, 0),
       (n \<le> 256, CodecError_payload_too_large, 0),
       (total \<le> length bytes, CodecError_truncated, 0),
       (length bytes = total, CodecError_length_mismatch, total),
       (crc32 (take (18 + n) bytes) = field_u32 bytes (18 + n), CodecError_checksum_mismatch, total),
       (valid_semantics (parsed_frame bytes), CodecError_invalid_semantics, total)])"

fun first_failed :: "(bool \<times> 'e) list \<Rightarrow> 'e option" where
  "first_failed [] = None"
| "first_failed ((holds, e) # cs) = (if holds then first_failed cs else Some e)"

definition decode_spec :: "byte list \<Rightarrow> DecodeResult" where
  "decode_spec bytes =
     (case first_failed (decode_checks bytes) of
        Some (e, n) \<Rightarrow> \<lparr>dec_frame = None, dec_error = e, dec_consumed = n\<rparr>
      | None \<Rightarrow> \<lparr>dec_frame = Some (parsed_frame bytes), dec_error = CodecError_none,
                 dec_consumed = length bytes\<rparr>)"

lemma read_u16_in [cpp_access]: "i + 1 < length bytes \<Longrightarrow> read_u16 bytes i = Some (field_u16 bytes i)"
  by (simp add: read_u16_def field_u16_def u16_of_def at_in)

lemma read_u32_in [cpp_access]: "i + 3 < length bytes \<Longrightarrow> read_u32 bytes i = Some (field_u32 bytes i)"
  by (simp add: read_u32_def field_u32_def u32_of_def at_in)

lemma decode_eq_spec: "decode bytes = Some (decode_spec bytes)"
proof (cases "length bytes < 18")
  case True
  then show ?thesis
    by (simp add: decode_def decode_spec_def decode_checks_def dec_fail_def Let_def)
next
  case False
  define n where "n = unat (field_u16 bytes 14)"
  have acc: "std_equal magic bytes 0 = Some (take 2 bytes = [0x49, 0x4D])"
    "read_u16 bytes 14 = Some (field_u16 bytes 14)" "read_u16 bytes 16 = Some (field_u16 bytes 16)"
    "read_u32 bytes 6 = Some (field_u32 bytes 6)" "read_u32 bytes 10 = Some (field_u32 bytes 10)"
    using False by (simp_all add: cpp_access magic_def numeral_2_eq_2)
  have crc: "read_u32 bytes (18 + n) = Some (field_u32 bytes (18 + n))"
    "iter_range bytes 0 (18 + n) = Some (take (18 + n) bytes)"
    "iter_range bytes 18 (18 + n) = Some (take n (drop 18 bytes))"
    if "length bytes = 22 + n"
    using that by (simp_all add: cpp_access)
  show ?thesis
    using False crc
    by (simp add: decode_def decode_spec_def decode_checks_def dec_fail_def Let_def acc at_in
        flags_and_not_response has_valid_semantics_iff protocol_version_def n_def [symmetric]
        parsed_frame_def)
qed

section \<open>Decoding accepts exactly the wire format\<close>

lemma field_u16_append: "length xs = i \<Longrightarrow> field_u16 (xs @ be16 v @ ys) i = v"
  by (simp add: field_u16_def nth_append be16_def u16_of_def u16_of_bytes)

lemma field_u32_append: "length xs = i \<Longrightarrow> field_u32 (xs @ be32 v @ ys) i = v"
  by (simp add: field_u32_def nth_append be32_def u32_of_def u32_of_bytes)

lemma take_eq_nths: "n \<le> length xs \<Longrightarrow> take n xs = map ((!) xs) [0..<n]"
  by (simp add: list_eq_iff_nth_eq)

lemma header_offsets: "[0..<18] = [0, 1, 2, 3, 4, 5, 6, 7, 8, 9, 10, 11, 12, 13, 14, 15, 16, 17]"
  by (simp add: upt_rec numeral_eq_Suc)

lemma wire_split:
  "wire f = [0x49, 0x4D, frame_version f, opcode_value (frame_opcode f), frame_flags f, 0]
     @ be32 (frame_request_id f) @ be32 (frame_address f)
     @ be16 (word_of_nat (length (frame_payload f))) @ be16 (status_value (frame_status f))
     @ frame_payload f @ be32 (crc32 (wire_body f))"
  by (simp add: wire_def wire_body_def wire_header_def)

lemma wire_fixed_fields:
  "take 2 (wire f) = [0x49, 0x4D]" "wire f ! 2 = frame_version f"
  "wire f ! 3 = opcode_value (frame_opcode f)" "wire f ! 4 = frame_flags f" "wire f ! 5 = 0"
  by (simp_all add: wire_split numeral_2_eq_2)

lemma wire_word_fields:
  "field_u32 (wire f) 6 = frame_request_id f" "field_u32 (wire f) 10 = frame_address f"
  "field_u16 (wire f) 14 = word_of_nat (length (frame_payload f))"
  "field_u16 (wire f) 16 = status_value (frame_status f)"
  "field_u32 (wire f) (18 + length (frame_payload f)) = crc32 (wire_body f)"
proof -
  let ?h = "[0x49, 0x4D, frame_version f, opcode_value (frame_opcode f), frame_flags f, 0]"
  let ?r = "be32 (frame_request_id f)" and ?a = "be32 (frame_address f)"
    and ?l = "be16 (word_of_nat (length (frame_payload f)))"
    and ?s = "be16 (status_value (frame_status f))"
  show "field_u32 (wire f) 6 = frame_request_id f"
    using field_u32_append [of ?h 6] by (simp add: wire_split)
  show "field_u32 (wire f) 10 = frame_address f"
    using field_u32_append [of "?h @ ?r" 10] by (simp add: wire_split)
  show "field_u16 (wire f) 14 = word_of_nat (length (frame_payload f))"
    using field_u16_append [of "?h @ ?r @ ?a" 14] by (simp add: wire_split)
  show "field_u16 (wire f) 16 = status_value (frame_status f)"
    using field_u16_append [of "?h @ ?r @ ?a @ ?l" 16] by (simp add: wire_split)
  show "field_u32 (wire f) (18 + length (frame_payload f)) = crc32 (wire_body f)"
    using field_u32_append [of "?h @ ?r @ ?a @ ?l @ ?s @ frame_payload f" _ _ "[]"] by (simp add: wire_split)
qed

lemma unat_length_field: "length p \<le> 256 \<Longrightarrow> unat (word_of_nat (length p) :: u16) = length p"
  by (simp add: unsigned_of_nat take_bit_nat_eq_self)

lemma parsed_frame_wire:
  assumes "valid_frame f"
  shows "parsed_frame (wire f) = f"
proof -
  have "take (length (frame_payload f)) (drop 18 (wire f)) = frame_payload f"
    by (simp add: wire_def wire_body_def)
  then show ?thesis
    using assms by (simp add: parsed_frame_def wire_fixed_fields wire_word_fields unat_length_field valid_frame_def)
qed

lemma decode_checks_wire: "valid_frame f \<Longrightarrow> first_failed (decode_checks (wire f)) = None"
proof -
  assume valid: "valid_frame f"
  then have "valid_semantics f" and "frame_version f = 1" and "length (frame_payload f) \<le> 256"
    by (simp_all add: valid_frame_def)
  moreover have "take (18 + length (frame_payload f)) (wire f) = wire_body f"
    by (simp add: wire_def)
  ultimately show ?thesis
    using valid by (simp add: decode_checks_def wire_fixed_fields wire_word_fields unat_length_field Let_def
        valid_semantics_supported valid_semantics_flags parsed_frame_wire)
qed

lemma decode_wire:
  "valid_frame f \<Longrightarrow> decode (wire f) =
     Some \<lparr>dec_frame = Some f, dec_error = CodecError_none, dec_consumed = length (wire f)\<rparr>"
  by (simp add: decode_eq_spec decode_spec_def decode_checks_wire parsed_frame_wire)

lemma checks_passed_wire:
  assumes "first_failed (decode_checks bytes) = None"
  shows "valid_frame (parsed_frame bytes)" and "wire (parsed_frame bytes) = bytes"
proof -
  define n where "n = unat (field_u16 bytes 14)"
  have len: "length bytes = 22 + n" and "n \<le> 256" and magic: "take 2 bytes = [0x49, 0x4D]"
    and fixed: "bytes ! 2 = 1" "bytes ! 5 = 0"
    and crc: "crc32 (take (18 + n) bytes) = field_u32 bytes (18 + n)"
    and sem: "valid_semantics (parsed_frame bytes)"
    using assms by (auto simp: decode_checks_def Let_def n_def split: if_splits)
  have payload: "frame_payload (parsed_frame bytes) = take n (drop 18 bytes)"
    by (simp add: parsed_frame_def n_def)
  have len_field: "word_of_nat n = field_u16 bytes 14"
    by (simp add: n_def)
  show "valid_frame (parsed_frame bytes)"
    using sem \<open>n \<le> 256\<close> by (simp add: valid_frame_def payload) (simp add: parsed_frame_def)
  have "bytes ! 0 = 0x49" "bytes ! 1 = 0x4D"
    using arg_cong [OF magic, of "\<lambda>xs. xs ! 0"] arg_cong [OF magic, of "\<lambda>xs. xs ! 1"] by simp_all
  then have "take 18 bytes = wire_header (parsed_frame bytes)"
    using len fixed
    by (simp add: take_eq_nths wire_header_def payload len_field)
       (simp add: parsed_frame_def field_u16_def field_u32_def wire_simps header_offsets)
  then have body: "take (18 + n) bytes = wire_body (parsed_frame bytes)"
    by (simp add: wire_body_def payload take_add)
  have "drop (18 + n) bytes = be32 (field_u32 bytes (18 + n))"
    using len by (simp add: field_u32_def wire_simps list_eq_iff_nth_eq nth_Cons' numeral_eq_Suc less_Suc_eq)
  then show "wire (parsed_frame bytes) = bytes"
    unfolding wire_def by (metis body crc append_take_drop_id)
qed

lemma decode_accepts_iff:
  "(\<exists>r. decode bytes = Some r \<and> dec_frame r = Some f) \<longleftrightarrow> valid_frame f \<and> bytes = wire f"
proof
  assume "\<exists>r. decode bytes = Some r \<and> dec_frame r = Some f"
  then have "first_failed (decode_checks bytes) = None" and "f = parsed_frame bytes"
    by (auto simp: decode_eq_spec decode_spec_def split: option.splits)
  then show "valid_frame f \<and> bytes = wire f"
    by (simp add: checks_passed_wire)
qed (auto simp: decode_wire)

lemma decode_cases:
  obtains (accepted) f where "valid_frame f" "bytes = wire f"
      "decode bytes = Some \<lparr>dec_frame = Some f, dec_error = CodecError_none, dec_consumed = length bytes\<rparr>"
  | (rejected) e n where "e \<noteq> CodecError_none"
      "decode bytes = Some \<lparr>dec_frame = None, dec_error = e, dec_consumed = n\<rparr>"
proof (cases "first_failed (decode_checks bytes)")
  case None
  then show thesis
    using accepted [of "parsed_frame bytes"] checks_passed_wire [OF None] decode_wire by metis
next
  case (Some en)
  then have "fst en \<noteq> CodecError_none"
    by (auto simp: decode_checks_def Let_def split: if_splits)
  with Some show thesis
    using rejected [of "fst en" "snd en"] by (simp add: decode_eq_spec decode_spec_def split_beta)
qed

lemma decode_ok_frame: "decode bytes = Some r \<Longrightarrow> dec_ok r \<longleftrightarrow> dec_frame r \<noteq> None"
  by (cases bytes rule: decode_cases) (auto simp: dec_ok_def)

lemma decode_Some_frame:
  assumes "decode bytes = Some r" and "dec_ok r"
  obtains f where "dec_frame r = Some f" "valid_frame f" "bytes = wire f"
  using assms by (cases bytes rule: decode_cases) (auto simp: dec_ok_def)

section \<open>Damaged frames\<close>

lemma take_wire_fields:
  assumes "18 \<le> k" and "k \<le> length (wire f)"
  shows "take 2 (take k (wire f) @ xs) = take 2 (wire f)"
    and "i < 18 \<Longrightarrow> (take k (wire f) @ xs) ! i = wire f ! i"
    and "i + 1 < 18 \<Longrightarrow> field_u16 (take k (wire f) @ xs) i = field_u16 (wire f) i"
  using assms by (simp_all add: nth_append field_u16_def)

lemma decode_truncated:
  assumes "valid_frame f" and "k < length (wire f)"
  shows "decode (take k (wire f)) = Some (dec_fail CodecError_truncated 0)"
proof (cases "k < 18")
  case True
  then show ?thesis by (simp add: decode_def)
next
  case False
  then have "18 \<le> k" by simp
  then show ?thesis
    using assms take_wire_fields [where k = k and f = f and xs = "[]"]
    by (simp add: decode_eq_spec decode_spec_def decode_checks_def Let_def wire_fixed_fields
        wire_word_fields valid_frame_def valid_semantics_supported valid_semantics_flags
        unat_length_field dec_fail_def)
qed

lemma decode_trailing:
  assumes "valid_frame f" and "extra \<noteq> []"
  shows "decode (wire f @ extra) = Some (dec_fail CodecError_length_mismatch (length (wire f)))"
  using assms take_wire_fields [where k = "length (wire f)" and f = f and xs = extra]
  by (simp add: decode_eq_spec decode_spec_def decode_checks_def Let_def wire_fixed_fields
      wire_word_fields valid_frame_def valid_semantics_supported valid_semantics_flags
      unat_length_field dec_fail_def)

lemma decode_bad_trailer:
  assumes "valid_frame f" and "c \<noteq> crc32 (wire_body f)"
  shows "decode (wire_body f @ be32 c) = Some (dec_fail CodecError_checksum_mismatch (length (wire f)))"
proof -
  have body: "wire_body f @ xs = take (18 + length (frame_payload f)) (wire f) @ xs" for xs
    by (simp add: wire_def)
  have "field_u32 (wire_body f @ be32 c) (18 + length (frame_payload f)) = c"
    using field_u32_append [of "wire_body f" _ c "[]"] by simp
  then show ?thesis
    using assms take_wire_fields [where k = "18 + length (frame_payload f)" and f = f and xs = "be32 c", folded body]
    by (simp add: decode_eq_spec decode_spec_def decode_checks_def Let_def wire_fixed_fields
        wire_word_fields valid_frame_def valid_semantics_supported valid_semantics_flags
        unat_length_field dec_fail_def)
qed

text \<open>
  A damaged frame of the same length is accepted only if it is the wire form of another valid
  frame, whose body then has the checksum of the damaged body.
\<close>

lemma decode_accepts_crc:
  assumes "decode (body @ be32 c) = Some r" and "dec_ok r"
  shows "crc32 body = c"
proof -
  obtain f where "body @ be32 c = wire f"
    using assms by (rule decode_Some_frame)
  then have "body = wire_body f" and "be32 c = be32 (crc32 (wire_body f))"
    unfolding wire_def by (simp_all add: append_eq_append_conv)
  then show ?thesis by simp
qed

lemma decode_rejects_burst:
  assumes "message_bits (wire_body f) = p @ us @ s" and "message_bits body = p @ vs @ s"
    and "length us = length vs" and "length us \<le> 32" and "us \<noteq> vs"
    and "decode (body @ be32 (crc32 (wire_body f))) = Some r"
  shows "\<not> dec_ok r"
  using crc32_burst [OF assms(1-5)] decode_accepts_crc [OF assms(6)] by auto

lemma decode_rejects_byte:
  assumes "i < length (wire f)" and "b \<noteq> wire f ! i" and "decode ((wire f)[i := b]) = Some r"
  shows "\<not> dec_ok r"
proof (cases "i < length (wire_body f)")
  case True
  then have "(wire f)[i := b] = (wire_body f)[i := b] @ be32 (crc32 (wire_body f))"
    and "b \<noteq> wire_body f ! i"
    using assms(2) by (simp_all add: wire_def list_update_append nth_append)
  then show ?thesis
    using assms(3) crc32_byte_change [OF True] decode_accepts_crc by auto
next
  case False
  define j where "j = i - length (wire_body f)"
  define t where "t = (be32 (crc32 (wire_body f)))[j := b]"
  have split: "(wire f)[i := b] = wire_body f @ t"
    using False by (simp add: wire_def list_update_append t_def j_def)
  have "j < 4" and "b \<noteq> be32 (crc32 (wire_body f)) ! j"
    using False assms(1,2) by (auto simp: wire_def nth_append j_def)
  then have diff: "t \<noteq> be32 (crc32 (wire_body f))"
    by (metis t_def nth_list_update_eq length_be(2))
  have "length t = 4" by (simp add: t_def)
  then obtain c where "t = be32 c"
    by (auto simp: numeral_eq_Suc length_Suc_conv be32_u32_of [symmetric])
  then show ?thesis
    using assms(3) diff split decode_accepts_crc [of "wire_body f" c r] by auto
qed

section \<open>The codec as an interface\<close>

text \<open>
  What the server, the transport and the client rely on: writing and reading are partial functions
  that invert each other, and no accepted string continues another one.
\<close>

locale framing =
  fixes enc :: "'f \<Rightarrow> 'w list option" and dec :: "'w list \<Rightarrow> 'f option"
  assumes dec_enc: "enc f = Some w \<Longrightarrow> dec w = Some f"
    and enc_dec: "dec w = Some f \<Longrightarrow> enc f = Some w"
begin

lemma dec_iff_enc: "dec w = Some f \<longleftrightarrow> enc f = Some w"
  using dec_enc enc_dec by blast

lemma enc_injective: "enc f = Some w \<Longrightarrow> enc g = Some w \<Longrightarrow> f = g"
  by (metis dec_enc option.inject)

lemma dec_injective: "dec v = Some f \<Longrightarrow> dec w = Some f \<Longrightarrow> v = w"
  by (metis enc_dec option.inject)

lemma reencode: "dec w = Some f \<Longrightarrow> \<exists>w'. enc f = Some w' \<and> w' = w \<and> dec w' = Some f"
  using dec_enc enc_dec by blast

end

locale exact_framing = framing +
  assumes enc_maximal: "enc f = Some w \<Longrightarrow> x \<noteq> [] \<Longrightarrow> dec (w @ x) = None"
begin

lemma no_concatenation: "enc f = Some v \<Longrightarrow> enc g = Some w \<Longrightarrow> w \<noteq> [] \<Longrightarrow> dec (v @ w) = None"
  by (rule enc_maximal)

lemma no_proper_prefix: "enc f = Some (v @ x) \<Longrightarrow> x \<noteq> [] \<Longrightarrow> dec v = None"
  using enc_maximal dec_enc enc_dec by (metis not_None_eq option.distinct(1))

end

text \<open>The bytes of a successful \<open>encode\<close>, and the frame of a successful \<open>decode\<close>.\<close>

definition encoded :: "Frame \<Rightarrow> byte list option" where
  "encoded f = (if enc_ok (encode f) then Some (enc_bytes (encode f)) else None)"

definition decoded :: "byte list \<Rightarrow> Frame option" where
  "decoded bytes = do { r \<leftarrow> decode bytes; if dec_ok r then dec_frame r else None }"

lemma encoded_eq: "encoded f = (if valid_frame f then Some (wire f) else None)"
  by (simp add: encoded_def enc_ok_encode_iff encode_wire)

lemma decoded_iff: "decoded bytes = Some f \<longleftrightarrow> valid_frame f \<and> bytes = wire f"
  unfolding decode_accepts_iff [symmetric]
  by (auto simp: decoded_def bind_eq_Some_conv decode_ok_frame split: if_splits)

interpretation imlp: exact_framing encoded decoded
proof unfold_locales
  show "decoded (w @ x) = None" if "encoded f = Some w" and "x \<noteq> []" for f w x
    using that decode_trailing [of f x]
    by (auto simp: encoded_eq decoded_def dec_ok_def dec_fail_def split: if_splits)
qed (auto simp: encoded_eq decoded_iff split: if_splits)

section \<open>Properties\<close>

text \<open>The read request of the protocol specification's test vector: four bytes at \<open>0x100\<close>, ID 1.\<close>

definition vector_frame :: Frame where
  "vector_frame = Frame_default\<lparr>frame_opcode := Opcode_read_request, frame_request_id := 1,
     frame_address := 0x100, frame_payload := [0, 4]\<rparr>"

definition vector_bytes :: "byte list" where
  "vector_bytes = [0x49, 0x4D, 0x01, 0x01, 0x00, 0x00, 0x00, 0x00, 0x00, 0x01, 0x00, 0x00, 0x01, 0x00,
     0x00, 0x02, 0x00, 0x00, 0x00, 0x04, 0xA0, 0xCF, 0x9F, 0xFD]"

lemma valid_vector_frame: "valid_frame vector_frame"
  by (simp add: vector_frame_def Frame_default_def valid_frame_def valid_semantics_def protocol_version_def)

lemma wire_vector_frame: "wire vector_frame = vector_bytes"
  by (simp add: wire_def wire_body_def wire_header_def be16_def be32_def vector_frame_def Frame_default_def
      enum_defs protocol_version_def crc32_def crc_eval vector_bytes_def)

lemma encode_vector_frame: "encode vector_frame = \<lparr>enc_bytes = vector_bytes, enc_error = CodecError_none\<rparr>"
  by (simp add: encode_wire valid_vector_frame wire_vector_frame)

text \<open>
  C5. Encoding then decoding: whenever \<open>encode\<close> succeeds, \<open>decode\<close> reads back the same frame from
  the bytes, with no error and all bytes consumed.
\<close>

theorem encode_then_decode:
  assumes "enc_ok (encode f)"
  shows "decode (enc_bytes (encode f)) =
    Some \<lparr>dec_frame = Some f, dec_error = CodecError_none, dec_consumed = length (enc_bytes (encode f))\<rparr>"
  using assms by (simp add: enc_ok_encode_iff encode_wire decode_wire)

theorem encode_then_decode_witness:
  "decode vector_bytes =
     Some \<lparr>dec_frame = Some vector_frame, dec_error = CodecError_none, dec_consumed = 24\<rparr>"
proof -
  have "enc_ok (encode vector_frame)" by (simp add: encode_vector_frame enc_ok_def)
  from encode_then_decode [OF this] show ?thesis
    by (simp add: encode_vector_frame vector_bytes_def)
qed

text \<open>
  C7. Decoding then encoding: every byte string that \<open>decode\<close> accepts is the canonical encoding of
  the frame it returns, byte for byte, and is consumed whole.
\<close>

theorem decode_then_encode:
  assumes "decode bytes = Some r" and "dec_ok r"
  shows "\<exists>f. dec_frame r = Some f \<and> encode f = \<lparr>enc_bytes = bytes, enc_error = CodecError_none\<rparr> \<and>
    dec_consumed r = length bytes"
  using assms by (cases bytes rule: decode_cases) (auto simp: dec_ok_def encode_wire)

theorem decode_then_encode_witness:
  "\<exists>f. Some vector_frame = Some f \<and> encode f = \<lparr>enc_bytes = vector_bytes, enc_error = CodecError_none\<rparr>"
proof -
  let ?r = "\<lparr>dec_frame = Some vector_frame, dec_error = CodecError_none, dec_consumed = 24\<rparr>"
  have "decode vector_bytes = Some ?r"
    using decode_wire [OF valid_vector_frame] by (simp only: wire_vector_frame) (simp add: vector_bytes_def)
  moreover have "dec_ok ?r" by (simp add: dec_ok_def)
  ultimately show ?thesis using decode_then_encode [of vector_bytes ?r] by simp
qed

text \<open>
  C8. \<open>decode\<close> is defined on every byte string (it never reads outside the span) and reports the
  first failing check of the documented validation order, or the parsed frame if none fails.
\<close>

theorem decode_validation_order:
  "decode bytes =
     Some (case first_failed (decode_checks bytes) of
        Some (e, n) \<Rightarrow> \<lparr>dec_frame = None, dec_error = e, dec_consumed = n\<rparr>
      | None \<Rightarrow> \<lparr>dec_frame = Some (parsed_frame bytes), dec_error = CodecError_none,
                 dec_consumed = length bytes\<rparr>)"
  by (simp add: decode_eq_spec decode_spec_def)


text \<open>
  \<open>encode\<close> succeeds exactly on the valid frames; the result is the wire form, of 22 to 278 bytes. Every
  other frame gives an error and no bytes, never a partial frame.
\<close>

lemma encode_complete_or_empty:
  "if valid_frame f
   then encode f = \<lparr>enc_bytes = wire f, enc_error = CodecError_none\<rparr> \<and>
     22 \<le> length (enc_bytes (encode f)) \<and> length (enc_bytes (encode f)) \<le> maximum_frame_size
   else enc_bytes (encode f) = [] \<and> enc_error (encode f) \<noteq> CodecError_none"
  using encode_invalid [of f] by (auto simp: encode_wire enc_fail_def valid_frame_def)

text \<open>
  A frame cut anywhere before its end is reported as truncated, with nothing consumed.
\<close>

lemma decode_reports_truncation:
  assumes "encode f = \<lparr>enc_bytes = bytes, enc_error = CodecError_none\<rparr>" and "k < length bytes"
  shows "decode (take k bytes) = Some \<lparr>dec_frame = None, dec_error = CodecError_truncated, dec_consumed = 0\<rparr>"
proof -
  have "valid_frame f" using assms(1) enc_ok_encode_iff [of f] by (simp add: enc_ok_def)
  then show ?thesis using assms decode_truncated [of f k] by (simp add: encode_wire dec_fail_def)
qed

text \<open>
  Bytes after a complete frame, another frame for example, are reported as a length mismatch, with the
  frame's own length as the consumed count.
\<close>

lemma decode_reports_trailing_bytes:
  assumes "encode f = \<lparr>enc_bytes = bytes, enc_error = CodecError_none\<rparr>" and "extra \<noteq> []"
  shows "decode (bytes @ extra) =
    Some \<lparr>dec_frame = None, dec_error = CodecError_length_mismatch, dec_consumed = length bytes\<rparr>"
proof -
  have "valid_frame f" using assms(1) enc_ok_encode_iff [of f] by (simp add: enc_ok_def)
  then show ?thesis using assms decode_trailing [of f extra] by (simp add: encode_wire dec_fail_def)
qed

lemma encode_body_trailer:
  assumes "encode f = \<lparr>enc_bytes = body @ trailer, enc_error = CodecError_none\<rparr>" and "length trailer = 4"
  shows "body = wire_body f" and "trailer = be32 (crc32 (wire_body f))"
proof -
  have "body @ trailer = wire f"
    using assms(1) enc_ok_encode_iff [of f] by (simp add: enc_ok_def encode_wire)
  then show "body = wire_body f" and "trailer = be32 (crc32 (wire_body f))"
    using assms(2) unfolding wire_def by (simp_all add: append_eq_append_conv)
qed

text \<open>
  C16. Corruption in transit: when the header and payload of a frame arrive with changes confined to
  32 consecutive bits (in transmission order, at any alignment), the decoder never accepts them with
  the frame's checksum.
\<close>

theorem decode_detects_burst:
  assumes "encode f = \<lparr>enc_bytes = body @ trailer, enc_error = CodecError_none\<rparr>" and "length trailer = 4"
    and "message_bits body = p @ us @ s" and "message_bits body' = p @ vs @ s"
    and "length us = length vs" and "length us \<le> 32" and "us \<noteq> vs"
    and "decode (body' @ trailer) = Some r"
  shows "\<not> dec_ok r"
  using decode_rejects_burst [of f p us s body' vs r] assms(3-8) encode_body_trailer [OF assms(1,2)] by simp

theorem decode_detects_burst_witness:
  "\<exists>r. decode (take 18 vector_bytes @ [0xFF, 0xFE, 0xA0, 0xCF, 0x9F, 0xFD]) = Some r \<and> \<not> dec_ok r"
proof -
  let ?p = "message_bits (take 18 vector_bytes)"
  let ?body' = "take 18 vector_bytes @ [0xFF, 0xFE]" and ?t = "[0xA0, 0xCF, 0x9F, 0xFD] :: byte list"
  obtain r where r: "decode (?body' @ ?t) = Some r" by (simp only: decode_eq_spec)
  have "vector_bytes = (take 18 vector_bytes @ [0, 4]) @ ?t" by (simp add: vector_bytes_def)
  then have e: "encode vector_frame =
      \<lparr>enc_bytes = (take 18 vector_bytes @ [0, 4]) @ ?t, enc_error = CodecError_none\<rparr>"
    by (simp only: encode_vector_frame)
  have "\<not> dec_ok r"
    by (rule decode_detects_burst [OF e _ _ _ _ _ _ r, of ?p "message_bits [0, 4]" "[]" "message_bits [0xFF, 0xFE]"])
       (simp_all add: message_bits_def byte_bits_def upt_rec bit_0)
  with r show ?thesis by simp
qed

end
