(* ===== verification/Hex.thy ===== *)
theory Hex
  imports Codec "HOL-Library.Char_ord"
begin

text \<open>
  The hexadecimal conversions of \<open>src/codec.cpp\<close>, used for traces and by the command line:
  \<open>hex_nibble\<close>, \<open>bytes_to_hex\<close> and \<open>bytes_from_hex\<close>. Indexing the digit table and the text are
  checked accesses; both conversions are shown to be free of undefined behaviour and to invert each
  other up to letter case.
\<close>

section \<open>Definitions\<close>

definition hex_nibble :: "char \<Rightarrow> u8 option" where
  "hex_nibble value =
     (if CHR ''0'' \<le> value \<and> value \<le> CHR ''9''
        then Some (word_of_nat (of_char value) - word_of_nat (of_char (CHR ''0'')))
      else if CHR ''a'' \<le> value \<and> value \<le> CHR ''f''
        then Some (word_of_nat (of_char value) - word_of_nat (of_char (CHR ''a'')) + 10)
      else if CHR ''A'' \<le> value \<and> value \<le> CHR ''F''
        then Some (word_of_nat (of_char value) - word_of_nat (of_char (CHR ''A'')) + 10)
      else None)"

definition hex_digits :: string where
  "hex_digits = ''0123456789abcdef''"

fun bytes_to_hex_loop :: "string \<Rightarrow> byte list \<Rightarrow> string option" where
  "bytes_to_hex_loop result [] = Some result"
| "bytes_to_hex_loop result (value # bytes) = do {
     high \<leftarrow> at hex_digits (unat (drop_bit 4 value));
     low \<leftarrow> at hex_digits (unat (value AND 0x0F));
     bytes_to_hex_loop (result @ [high] @ [low]) bytes
   }"

definition bytes_to_hex :: "byte list \<Rightarrow> string option" where
  "bytes_to_hex bytes = bytes_to_hex_loop [] bytes"

text \<open>The loop from \<open>index\<close> on; the inner option is the \<open>std::optional\<close> result.\<close>

function bytes_from_hex_loop :: "string \<Rightarrow> nat \<Rightarrow> byte list \<Rightarrow> byte list option option" where
  "bytes_from_hex_loop text index result =
     (if index < length text then do {
        c0 \<leftarrow> at text index;
        c1 \<leftarrow> at text (index + 1);
        case (hex_nibble c0, hex_nibble c1) of
          (Some high, Some low) \<Rightarrow>
            bytes_from_hex_loop text (index + 2) (result @ [push_bit 4 high OR low])
        | _ \<Rightarrow> Some None
      }
      else Some (Some result))"
  by pat_completeness auto
termination
  by (relation "measure (\<lambda>(text, index, result). length text - index)") auto

declare bytes_from_hex_loop.simps [simp del]

definition bytes_from_hex :: "string \<Rightarrow> byte list option option" where
  "bytes_from_hex text =
     (if length text mod 2 \<noteq> 0 \<or> length text div 2 > maximum_frame_size then Some None
      else bytes_from_hex_loop text 0 [])"

section \<open>Characters\<close>

text \<open>The digit a text stands for, case folded.\<close>

definition is_hex :: "char \<Rightarrow> bool" where
  "is_hex c \<longleftrightarrow> hex_nibble c \<noteq> None"

definition lower :: "char \<Rightarrow> char" where
  "lower c = (if CHR ''A'' \<le> c \<and> c \<le> CHR ''Z'' then char_of (of_char c + 32 :: nat) else c)"

text \<open>The 22 characters that are accepted, with the values they stand for.\<close>

definition hex_table :: "(char \<times> nat) list" where
  "hex_table = zip ''0123456789abcdefABCDEF'' ([0..<16] @ [10..<16])"

lemma hex_table_eval:
  "hex_table = [(CHR ''0'', 0), (CHR ''1'', 1), (CHR ''2'', 2), (CHR ''3'', 3), (CHR ''4'', 4),
     (CHR ''5'', 5), (CHR ''6'', 6), (CHR ''7'', 7), (CHR ''8'', 8), (CHR ''9'', 9),
     (CHR ''a'', 10), (CHR ''b'', 11), (CHR ''c'', 12), (CHR ''d'', 13), (CHR ''e'', 14), (CHR ''f'', 15),
     (CHR ''A'', 10), (CHR ''B'', 11), (CHR ''C'', 12), (CHR ''D'', 13), (CHR ''E'', 14), (CHR ''F'', 15)]"
  unfolding hex_table_def by code_simp

lemma hex_table_check:
  "list_all (\<lambda>(c, k). hex_nibble c = Some (word_of_nat k) \<and> k < 16 \<and> lower c = hex_digits ! k) hex_table"
  by code_simp

lemma hex_table_sound:
  "(c, k) \<in> set hex_table \<Longrightarrow> hex_nibble c = Some (word_of_nat k) \<and> k < 16 \<and> lower c = hex_digits ! k"
  using hex_table_check by (auto simp: list_all_iff)

lemma char_range: "m \<le> of_char c \<Longrightarrow> of_char c \<le> n \<Longrightarrow> c \<in> char_of ` set [m..<Suc (n::nat)]"
  by (metis atLeastLessThan_upt atLeastLessThan_iff char_of_char image_eqI le_imp_less_Suc)

lemma hex_table_complete: "hex_nibble c = Some v \<Longrightarrow> \<exists>k. (c, k) \<in> set hex_table"
proof -
  assume "hex_nibble c = Some v"
  then consider "48 \<le> (of_char c :: nat)" "of_char c \<le> (57 :: nat)"
    | "97 \<le> (of_char c :: nat)" "of_char c \<le> (102 :: nat)"
    | "65 \<le> (of_char c :: nat)" "of_char c \<le> (70 :: nat)"
    by (auto simp: hex_nibble_def less_eq_char_def split: if_splits)
  then show ?thesis
    by cases (drule char_range, assumption, auto simp: upt_rec hex_table_eval char_of_eq_iff)+
qed

section \<open>Closed forms\<close>

definition hex_text :: "byte list \<Rightarrow> string" where
  "hex_text bytes = concat (map (\<lambda>b. [hex_digits ! unat (drop_bit 4 b), hex_digits ! unat (b AND 0x0F)]) bytes)"

fun parse_hex :: "string \<Rightarrow> byte list option" where
  "parse_hex [] = Some []"
| "parse_hex [c] = None"
| "parse_hex (c0 # c1 # cs) = do {
     high \<leftarrow> hex_nibble c0; low \<leftarrow> hex_nibble c1; rest \<leftarrow> parse_hex cs;
     Some ((push_bit 4 high OR low) # rest)
   }"

lemma and_0x0F: "b AND 0x0F = take_bit 4 (b :: byte)"
  by (simp add: take_bit_eq_mask mask_eq_exp_minus_1)

lemma nibbles_less: "unat (drop_bit 4 (b :: byte)) < 16" "unat (b AND 0x0F) < 16"
proof -
  have "unat b < 256" using unsigned_less [of b, where ?'a = nat] by simp
  then show "unat (drop_bit 4 b) < 16"
    unfolding unsigned_drop_bit_eq by (simp add: drop_bit_eq_div take_bit_eq_mod)
  show "unat (b AND 0x0F) < 16"
    unfolding and_0x0F unsigned_take_bit_eq by (simp add: take_bit_eq_mod)
qed

lemma join_nibbles: "push_bit 4 (drop_bit 4 b) OR (b AND 0x0F) = (b :: byte)"
  unfolding and_0x0F by (rule bit_word_eqI) (auto simp: bit_simps)

lemma split_nibbles:
  assumes "h < 16" and "l < 16"
  shows "unat (drop_bit 4 (push_bit 4 (word_of_nat h) OR word_of_nat l :: byte)) = h"
    and "unat ((push_bit 4 (word_of_nat h) OR word_of_nat l :: byte) AND 0x0F) = l"
proof -
  have high: "\<not> bit (word_of_nat h :: byte) n" "\<not> bit (word_of_nat l :: byte) n" if "4 \<le> n" for n
  proof -
    have "(16::nat) \<le> 2 ^ n" using power_increasing [OF that, of "2::nat"] by simp
    then have "h div 2 ^ n = 0" "l div 2 ^ n = 0" using assms by simp_all
    then show "\<not> bit (word_of_nat h :: byte) n" "\<not> bit (word_of_nat l :: byte) n"
      by (simp_all add: bit_of_nat_iff bit_iff_odd [of h] bit_iff_odd [of l])
  qed
  have "drop_bit 4 (push_bit 4 (word_of_nat h) OR word_of_nat l :: byte) = word_of_nat h"
    by (rule bit_word_eqI) (use high in \<open>auto simp: bit_or_iff bit_drop_bit_eq bit_push_bit_iff not_le [symmetric]\<close>)
  then show "unat (drop_bit 4 (push_bit 4 (word_of_nat h) OR word_of_nat l :: byte)) = h"
    using assms(1) by (simp only:) (simp add: unsigned_of_nat take_bit_nat_eq_self)
  have "(push_bit 4 (word_of_nat h) OR word_of_nat l :: byte) AND 0x0F = word_of_nat l"
    unfolding and_0x0F
    by (rule bit_word_eqI) (use high in \<open>auto simp: bit_or_iff bit_take_bit_iff bit_push_bit_iff not_le [symmetric]\<close>)
  then show "unat ((push_bit 4 (word_of_nat h) OR word_of_nat l :: byte) AND 0x0F) = l"
    using assms(2) by (simp only:) (simp add: unsigned_of_nat take_bit_nat_eq_self)
qed

lemma at_hex_digits: "k < 16 \<Longrightarrow> at hex_digits k = Some (hex_digits ! k)"
  by (simp add: at_in hex_digits_def)

lemma bytes_to_hex_loop_eq: "bytes_to_hex_loop result bytes = Some (result @ hex_text bytes)"
  by (induction bytes arbitrary: result)
    (simp_all add: hex_text_def at_hex_digits nibbles_less)

lemma bytes_to_hex_eq: "bytes_to_hex bytes = Some (hex_text bytes)"
  by (simp add: bytes_to_hex_def bytes_to_hex_loop_eq)

lemma bytes_from_hex_loop_eq:
  "even (length str) \<Longrightarrow> even index \<Longrightarrow> index \<le> length str \<Longrightarrow>
   bytes_from_hex_loop str index result = Some (map_option ((@) result) (parse_hex (drop index str)))"
proof (induction str index result rule: bytes_from_hex_loop.induct)
  case (1 str index result)
  show ?case
  proof (cases "index < length str")
    case False
    with "1.prems" show ?thesis by (simp add: bytes_from_hex_loop.simps)
  next
    case True
    then have lt: "index + 1 < length str" using "1.prems" by presburger
    then have drop: "drop index str = str ! index # str ! (index + 1) # drop (index + 2) str"
      using True by (simp add: Cons_nth_drop_Suc)
    show ?thesis
    proof (cases "hex_nibble (str ! index) = None \<or> hex_nibble (str ! (index + 1)) = None")
      case True
      then show ?thesis
        using lt by (auto simp: bytes_from_hex_loop.simps [of str index] at_in drop split: option.splits)
    next
      case False
      then obtain h l where hl: "hex_nibble (str ! index) = Some h" "hex_nibble (str ! (index + 1)) = Some l"
        by auto
      have "bytes_from_hex_loop str (index + 2) (result @ [push_bit 4 h OR l]) =
          Some (map_option ((@) (result @ [push_bit 4 h OR l])) (parse_hex (drop (index + 2) str)))"
        using "1.IH" [OF True _ _ refl, of "str ! index" "str ! (index + 1)" h l] "1.prems" lt hl
        by (cases "parse_hex (drop (Suc (Suc index)) str)") (simp_all add: at_in)
      then show ?thesis
        using lt hl by (cases "parse_hex (drop (Suc (Suc index)) str)")
          (simp_all add: bytes_from_hex_loop.simps [of str index] at_in drop)
    qed
  qed
qed

lemma bytes_from_hex_eq:
  "bytes_from_hex str =
     Some (if even (length str) \<and> length str \<le> 2 * maximum_frame_size then parse_hex str else None)"
proof (cases "even (length str)")
  case True
  have "map_option ((@) []) r = r" for r :: "byte list option"
    by (cases r) simp_all
  then have "bytes_from_hex_loop str 0 [] = Some (parse_hex str)"
    using bytes_from_hex_loop_eq [OF True, of 0 "[]"] by simp
  with True show ?thesis by (auto simp: bytes_from_hex_def)
qed (auto simp: bytes_from_hex_def even_iff_mod_2_eq_zero)

lemma hex_digits_check: "list_all (\<lambda>k. hex_nibble (hex_digits ! k) = Some (word_of_nat k)) [0..<16]"
  by code_simp

lemma parse_hex_text: "parse_hex (hex_text bytes) = Some bytes"
proof (induction bytes)
  case (Cons b bytes)
  have "hex_nibble (hex_digits ! k) = Some (word_of_nat k)" if "k < 16" for k
    using hex_digits_check that by (simp add: list_all_iff)
  with Cons show ?case
    by (simp add: hex_text_def nibbles_less join_nibbles)
qed (simp add: hex_text_def)

lemma parse_hex_canonical: "parse_hex str = Some bytes \<Longrightarrow> hex_text bytes = map lower str"
proof (induction str arbitrary: bytes rule: parse_hex.induct)
  case (3 c0 c1 cs)
  then obtain h l rest where hl: "hex_nibble c0 = Some h" "hex_nibble c1 = Some l"
    and rest: "parse_hex cs = Some rest" and bytes: "bytes = (push_bit 4 h OR l) # rest"
    by (auto simp: bind_eq_Some_conv)
  obtain i j where "(c0, i) \<in> set hex_table" "(c1, j) \<in> set hex_table"
    using hl hex_table_complete by metis
  then have "h = word_of_nat i" "l = word_of_nat j" "i < 16" "j < 16"
    "lower c0 = hex_digits ! i" "lower c1 = hex_digits ! j"
    using hl hex_table_sound by fastforce+
  moreover define b where "b = push_bit 4 h OR l"
  ultimately have "unat (drop_bit 4 b) = i" "unat (b AND 0x0F) = j"
    by (simp_all only: b_def split_nibbles)
  then show ?case
    using "3.IH" [OF hl rest] bytes \<open>lower c0 = _\<close> \<open>lower c1 = _\<close> by (simp add: hex_text_def b_def [symmetric])
qed (auto simp: hex_text_def)

text \<open>The other direction: a text whose lower case is printed for some bytes stands for them.\<close>

lemma hex_digits_chars: "distinct hex_digits" "length hex_digits = 16" "list_all (\<lambda>c. of_char c \<le> (102 :: nat)) hex_digits"
  by (simp_all add: hex_digits_def)

lemma lower_digit:
  assumes "lower c = hex_digits ! k" and "k < 16"
  shows "hex_nibble c = Some (word_of_nat k)"
proof (cases "CHR ''A'' \<le> c \<and> c \<le> CHR ''Z''")
  case True
  then have c: "65 \<le> (of_char c :: nat)" "of_char c \<le> (90 :: nat)" by (simp_all add: less_eq_char_def)
  have "of_char (hex_digits ! k) \<le> (102 :: nat)"
    using assms(2) hex_digits_chars(2,3) by (simp add: list_all_length)
  moreover have "hex_digits ! k = char_of (of_char c + 32 :: nat)" using assms(1) True by (simp add: lower_def)
  ultimately have "(of_char c :: nat) \<le> 70" using c by simp
  then have "hex_nibble c \<noteq> None" using c by (simp add: hex_nibble_def less_eq_char_def)
  then obtain j where j: "hex_nibble c = Some (word_of_nat j)" "j < 16" "lower c = hex_digits ! j"
    using hex_table_complete hex_table_sound by blast
  then have "j = k" using assms hex_digits_chars(1,2) by (simp add: nth_eq_iff_index_eq)
  with j show ?thesis by simp
next
  case False
  then have "c = hex_digits ! k" using assms(1) by (auto simp: lower_def)
  then show ?thesis using hex_digits_check assms(2) by (simp add: list_all_iff)
qed

lemma parse_hex_lower: "map lower str = hex_text bytes \<Longrightarrow> parse_hex str = Some bytes"
proof (induction bytes arbitrary: str)
  case (Cons b bytes)
  let ?h = "unat (drop_bit 4 b)" and ?l = "unat (b AND 0x0F)"
  have "hex_text (b # bytes) = hex_digits ! ?h # hex_digits ! ?l # hex_text bytes" by (simp add: hex_text_def)
  then obtain c0 c1 cs where "str = c0 # c1 # cs" "lower c0 = hex_digits ! ?h" "lower c1 = hex_digits ! ?l"
    "map lower cs = hex_text bytes"
    using Cons.prems by (auto simp: map_eq_Cons_conv)
  with Cons.IH [of cs] show ?case
    using lower_digit [of c0 ?h] lower_digit [of c1 ?l] nibbles_less [of b] by (simp add: join_nibbles)
qed (simp add: hex_text_def)

lemma parse_hex_defined: "parse_hex str \<noteq> None \<longleftrightarrow> even (length str) \<and> list_all is_hex str"
  by (induction str rule: parse_hex.induct) (auto simp: is_hex_def bind_eq_None_conv)

lemma length_hex_text: "length (hex_text bytes) = 2 * length bytes"
  by (induction bytes) (simp_all add: hex_text_def)

lemma bytes_from_hex_iff:
  "bytes_from_hex str = Some (Some bytes) \<longleftrightarrow> length bytes \<le> 278 \<and> map lower str = hex_text bytes"
proof
  assume "bytes_from_hex str = Some (Some bytes)"
  then have parsed: "parse_hex str = Some bytes" and "length str \<le> 556"
    by (auto simp: bytes_from_hex_eq split: if_splits)
  then have "2 * length bytes = length str"
    using parse_hex_canonical [OF parsed] length_hex_text [of bytes] by simp
  with parse_hex_canonical [OF parsed] \<open>length str \<le> 556\<close> show "length bytes \<le> 278 \<and> map lower str = hex_text bytes" by simp
next
  assume bytes: "length bytes \<le> 278 \<and> map lower str = hex_text bytes"
  then have "length str = 2 * length bytes" by (metis length_hex_text length_map)
  with bytes show "bytes_from_hex str = Some (Some bytes)" by (simp add: bytes_from_hex_eq parse_hex_lower)
qed

section \<open>Properties\<close>

text \<open>
  Printing bytes as hexadecimal and parsing the text gives the bytes back, for every byte string
  up to the frame limit; the text has two characters per byte.
\<close>

lemma hex_round_trip:
  assumes "length bytes \<le> maximum_frame_size"
  shows "\<exists>str. bytes_to_hex bytes = Some str \<and> length str = 2 * length bytes \<and>
    bytes_from_hex str = Some (Some bytes)"
  using assms by (simp add: bytes_to_hex_eq bytes_from_hex_eq length_hex_text parse_hex_text)

text \<open>
  C37. \<open>bytes_from_hex\<close> has no undefined behaviour on any text, accepts exactly the texts of even
  length, at most twice the frame limit, made of the digits \<open>0-9\<close>, \<open>a-f\<close> and \<open>A-F\<close>, and prints
  back to the same text in lower case.
\<close>

theorem bytes_from_hex_accepts_exactly:
  "case bytes_from_hex str of
     None \<Rightarrow> False
   | Some None \<Rightarrow> \<not> (even (length str) \<and> length str \<le> 556 \<and> set str \<subseteq> set ''0123456789abcdefABCDEF'')
   | Some (Some bytes) \<Rightarrow> length bytes \<le> 278 \<and> set str \<subseteq> set ''0123456789abcdefABCDEF'' \<and>
       bytes_to_hex bytes = Some (map lower str)"
proof -
  define D where "D = set ''0123456789abcdefABCDEF''"
  have fst_table: "fst ` set hex_table = D"
    unfolding D_def hex_table_eval by simp
  have "is_hex c \<longleftrightarrow> c \<in> fst ` set hex_table" for c
    using hex_table_complete [of c] hex_table_sound [of c] by (force simp: is_hex_def image_iff)
  then have hex: "list_all is_hex str \<longleftrightarrow> set str \<subseteq> D"
    by (auto simp: list_all_iff fst_table)
  have len: "2 * length bytes = length str" if "parse_hex str = Some bytes" for bytes
    using that parse_hex_canonical length_hex_text by (metis length_map)
  show ?thesis
    unfolding D_def [symmetric] bytes_from_hex_eq bytes_to_hex_eq
    using parse_hex_defined [of str] parse_hex_canonical [of str] len
    by (cases "parse_hex str") (auto simp: hex)
qed

end
