(* ===== verification/Hamming.thy ===== *)
theory Hamming
  imports Codec
begin

text \<open>
  The distance of the wire format: two byte strings of the same length that the decoder accepts differ
  in at least four bits, so up to three flipped bits anywhere in a frame, checksum included, are always
  detected. The argument is the one for cyclic codes: the update of the register is linear, so it is
  enough that no two registers of the orbit of a single bit, within the length of a frame, agree up to
  their lowest bit. That is a computation.
\<close>

section \<open>Lists without repetition\<close>

text \<open>
  \<open>all_differ\<close> tells apart numbers by their binary digits, lowest first: \<open>sift\<close> puts the halves of the even
  and of the odd ones on two lists, which are sifted in turn. The simplifier runs it on binary numerals.
\<close>

function (sequential) all_differ :: "nat \<Rightarrow> nat list \<Rightarrow> bool"
    and sift :: "nat \<Rightarrow> nat list \<Rightarrow> nat list \<Rightarrow> nat list \<Rightarrow> bool" where
  "all_differ n [] = True"
| "all_differ n [x] = True"
| "all_differ 0 (x # y # zs) = False"
| "all_differ (Suc n) (x # y # zs) = sift n (x # y # zs) [] []"
| "sift n [] evens odds = (all_differ n evens \<and> all_differ n odds)"
| "sift n (x # xs) evens odds =
     (if even x then sift n xs (x div 2 # evens) odds else sift n xs evens (x div 2 # odds))"
  by pat_completeness auto
termination
  by (relation "measures [\<lambda>p. case p of Inl (n, xs) \<Rightarrow> 2 * n | Inr (n, xs, evens, odds) \<Rightarrow> 2 * n + 1,
     \<lambda>p. case p of Inl (n, xs) \<Rightarrow> 0 | Inr (n, xs, evens, odds) \<Rightarrow> length xs]") auto

lemma sift_numeral:
  "all_differ (numeral k) (x # y # zs) = sift (pred_numeral k) (x # y # zs) [] []"
  "sift n (numeral (num.Bit0 w) # xs) evens odds = sift n xs (numeral w # evens) odds"
  "sift n (numeral (num.Bit1 w) # xs) evens odds = sift n xs evens (numeral w # odds)"
  "sift n (0 # xs) evens odds = sift n xs (0 # evens) odds"
  "sift n (1 # xs) evens odds = sift n xs evens (0 # odds)"
  by (simp_all add: numeral_eq_Suc [of k])

lemma all_differ_distinct:
  "all_differ n xs \<Longrightarrow> distinct xs"
  "sift n xs evens odds \<Longrightarrow> distinct (map ((*) 2) evens @ map (\<lambda>x. 2 * x + 1) odds @ xs)"
proof (induction n xs and n xs evens odds rule: all_differ_sift.induct)
  case (6 n x xs evens odds)
  then show ?case by (cases "even x") auto
qed (auto simp: distinct_map inj_on_def double_not_eq_Suc_double)

section \<open>The orbit of one bit\<close>

text \<open>
  The registers that follow \<open>c\<close>, without their lowest bit, as natural numbers and latest first.
\<close>

fun orbit :: "nat \<Rightarrow> nat \<Rightarrow> nat list \<Rightarrow> nat list" where
  "orbit 0 c seen = seen"
| "orbit (Suc n) c seen = orbit n (if odd c then (c div 2) XOR 0xEDB88320 else c div 2) (c div 2 # seen)"

lemma orbit_numeral:
  "orbit (numeral k) (numeral (num.Bit0 w)) seen = orbit (pred_numeral k) (numeral w) (numeral w # seen)"
  "orbit (numeral k) (numeral (num.Bit1 w)) seen =
     orbit (pred_numeral k) (numeral w XOR 0xEDB88320) (numeral w # seen)"
  by (simp_all add: numeral_eq_Suc [of k])

lemma orbit_distinct: "distinct (orbit 2223 0xEDB88320 [0])"
  by (rule all_differ_distinct(1) [of 31])
    (simp add: orbit_numeral sift_numeral del: sift.simps(2) all_differ.simps(4))

lemma unat_crc32_step:
  "unat (crc32_step c) = (if odd (unat c) then (unat c div 2) XOR 0xEDB88320 else unat c div 2)"
proof -
  have "odd (unat c) \<longleftrightarrow> bit c 0" by (simp add: bit_unsigned_iff flip: bit_0)
  moreover have "unat (drop_bit 1 c) = unat c div 2" by (simp add: drop_bit_eq_div unat_div)
  moreover have "unat (x XOR 0xEDB88320 :: u32) = unat x XOR 0xEDB88320" for x
    by (simp add: unsigned_xor_eq)
  ultimately show ?thesis unfolding crc32_step_if by (cases "bit c 0") (simp_all only: if_True if_False)
qed

lemma orbit_crc32_bits:
  "orbit n (unat c) seen = rev (map (\<lambda>k. unat (crc32_bits k c) div 2) [0..<n]) @ seen"
proof (induction n arbitrary: c seen)
  case (Suc n)
  have "map (\<lambda>k. unat (crc32_bits k c) div 2) [0..<Suc n] =
      unat c div 2 # map (\<lambda>k. unat (crc32_bits k (crc32_step c)) div 2) [0..<n]"
    by (simp add: upt_conv_Cons map_Suc_upt [symmetric] del: upt_Suc)
  moreover have "orbit (Suc n) (unat c) seen = orbit n (unat (crc32_step c)) (unat c div 2 # seen)"
    by (simp add: unat_crc32_step)
  ultimately show ?case by (simp add: Suc.IH del: upt_Suc orbit.simps)
qed simp

text \<open>The register \<open>k\<close> steps after a single bit.\<close>

abbreviation power_of_x :: "nat \<Rightarrow> u32" where
  "power_of_x k \<equiv> crc32_bits k 1"

lemma orbit_powers: "orbit n 0xEDB88320 [0] = rev (map (\<lambda>k. unat (power_of_x k) div 2) [0..<Suc n])"
proof -
  have "crc32_step 1 = 0xEDB88320" by (simp add: crc_eval)
  then have "map (\<lambda>k. unat (power_of_x k) div 2) [0..<Suc n] = 0 # map (\<lambda>k. unat (crc32_bits k 0xEDB88320) div 2) [0..<n]"
    by (simp add: upt_conv_Cons map_Suc_upt [symmetric] del: upt_Suc)
  then show ?thesis using orbit_crc32_bits [of n "0xEDB88320" "[0]"] by (simp del: upt_Suc)
qed

lemma power_of_x_halves:
  assumes "j \<le> 2223" and "k \<le> 2223" and "unat (power_of_x j) div 2 = unat (power_of_x k) div 2"
  shows "j = k"
proof -
  have "inj_on (\<lambda>k. unat (power_of_x k) div 2) (set [0..<Suc 2223])"
    using orbit_distinct unfolding orbit_powers distinct_rev distinct_map by (rule conjunct2)
  moreover have "j \<in> set [0..<Suc 2223]" "k \<in> set [0..<Suc 2223]" using assms(1,2) by (simp_all only: set_upt) simp_all
  ultimately show ?thesis using assms(3) by (auto dest: inj_onD simp del: set_upt)
qed

lemma half_xor_1: "unat (x XOR 1 :: u32) div 2 = unat x div 2"
proof -
  have "drop_bit 1 (x XOR 1) = drop_bit 1 x" by (rule bit_word_eqI) (auto simp: bit_simps)
  then show ?thesis by (metis unat_drop_bit_eq drop_bit_eq_div power_one_right)
qed

lemma crc32_bits_add: "crc32_bits (m + n) c = crc32_bits n (crc32_bits m c)"
  by (induction m arbitrary: c) simp_all

text \<open>No one, two or three different powers cancel.\<close>

lemma powers_differ:
  assumes "a < b" and "b \<le> 2223"
  shows "power_of_x a XOR power_of_x b \<noteq> 0"
proof
  assume "power_of_x a XOR power_of_x b = 0"
  then have "power_of_x a = power_of_x b" by (simp add: xor_eq_zero_iff)
  with power_of_x_halves [of a b] assms show False by simp
qed

lemma powers_cancel_min:
  assumes "a < b" and "a < c" and "b \<noteq> c" and "b \<le> 2223" and "c \<le> 2223"
  shows "power_of_x a XOR power_of_x b XOR power_of_x c \<noteq> 0"
proof
  assume sum: "power_of_x a XOR power_of_x b XOR power_of_x c = 0"
  have "power_of_x b = crc32_bits a (power_of_x (b - a))" "power_of_x c = crc32_bits a (power_of_x (c - a))"
    using assms(1,2) crc32_bits_add [of "b - a" a 1] crc32_bits_add [of "c - a" a 1] by simp_all
  with sum have "crc32_bits a (1 XOR power_of_x (b - a) XOR power_of_x (c - a)) = 0"
    by (simp add: crc32_bits_xor)
  then have "1 XOR power_of_x (b - a) XOR power_of_x (c - a) = 0" by (simp add: crc32_bits_eq_zero)
  then have "power_of_x (b - a) = power_of_x (c - a) XOR 1"
    by (metis xor.commute xor.assoc xor_eq_zero_iff)
  then have "unat (power_of_x (b - a)) div 2 = unat (power_of_x (c - a)) div 2"
    by (simp add: half_xor_1)
  moreover have "b - a \<le> 2223" "c - a \<le> 2223" using assms(4,5) by simp_all
  ultimately have "b - a = c - a" by (intro power_of_x_halves [of "b - a" "c - a"])
  with assms(1-3) show False by linarith
qed

lemma powers_cancel:
  assumes "a \<noteq> b" and "a \<noteq> c" and "b \<noteq> c" and "a \<le> 2223" and "b \<le> 2223" and "c \<le> 2223"
  shows "power_of_x a XOR power_of_x b XOR power_of_x c \<noteq> 0"
proof -
  consider "a < b" "a < c" | "b < a" "b < c" | "c < a" "c < b" using assms(1-3) by linarith
  then show ?thesis
  proof cases
    case 1
    then show ?thesis using powers_cancel_min [of a b c] assms by simp
  next
    case 2
    then show ?thesis using powers_cancel_min [of b a c] assms by (simp add: ac_simps)
  next
    case 3
    then show ?thesis using powers_cancel_min [of c a b] assms by (simp add: ac_simps)
  qed
qed

section \<open>Distance of bit strings\<close>

fun weight :: "bool list \<Rightarrow> nat" where
  "weight [] = 0"
| "weight (m # ms) = of_bool m + weight ms"

fun flips :: "bool list \<Rightarrow> bool list \<Rightarrow> bool list" where
  "flips (u # us) (v # vs) = (u \<noteq> v) # flips us vs"
| "flips _ _ = []"

definition hamming :: "bool list \<Rightarrow> bool list \<Rightarrow> nat" where
  "hamming us vs = weight (flips us vs)"

lemma length_flips: "length us = length vs \<Longrightarrow> length (flips us vs) = length us"
  by (induction us vs rule: list_induct2) simp_all

lemma hamming_append:
  "length us = length vs \<Longrightarrow> hamming (us @ us') (vs @ vs') = hamming us vs + hamming us' vs'"
  by (induction us vs rule: list_induct2) (simp_all add: hamming_def)

lemma hamming_zero: "length us = length vs \<Longrightarrow> hamming us vs = 0 \<longleftrightarrow> us = vs"
  by (induction us vs rule: list_induct2) (auto simp: hamming_def)

text \<open>The register as a linear function of the difference of two messages.\<close>

lemma crc_serial_start: "crc_serial c ms = crc32_bits (length ms) c XOR crc_serial 0 ms"
proof (induction ms arbitrary: c)
  case (Cons m ms)
  have "crc_serial c (m # ms) = crc32_bits (length ms) (crc32_step c XOR crc32_step (of_bool m)) XOR crc_serial 0 ms"
    unfolding crc_serial_Cons by (subst Cons.IH) (simp add: crc32_step_xor)
  also have "\<dots> = crc32_bits (length ms) (crc32_step c) XOR crc_serial (crc32_step (of_bool m)) ms"
    by (simp add: crc32_bits_xor xor.assoc Cons.IH [of "crc32_step (of_bool m)"])
  finally show ?case by (simp add: crc_serial_Cons del: crc_serial.simps)
qed simp

lemma crc_serial_difference:
  "length us = length vs \<Longrightarrow> crc_serial c us XOR crc_serial d vs = crc_serial (c XOR d) (flips us vs)"
proof (induction us vs arbitrary: c d rule: list_induct2)
  case (Cons u us v vs)
  have "of_bool u XOR of_bool v = (of_bool (u \<noteq> v) :: u32)" by (cases u; cases v) simp_all
  then have "crc32_step (c XOR of_bool u) XOR crc32_step (d XOR of_bool v) = crc32_step (c XOR d XOR of_bool (u \<noteq> v))"
    by (metis crc32_step_xor xor.assoc xor.left_commute)
  then show ?case using Cons.IH by (simp only: crc_serial_Cons flips.simps xor.assoc)
qed simp

lemma crc_serial_True: "crc_serial 0 (True # ms) = crc32_bits (Suc (length ms)) 1 XOR crc_serial 0 ms"
  unfolding crc_serial_Cons by (subst crc_serial_start) simp

lemma crc_serial_False: "crc_serial 0 (False # ms) = crc_serial 0 ms"
  by (simp add: crc_serial_Cons del: crc_serial.simps)

text \<open>
  The exponents of the flipped bits of a message, and the sum of the powers with given exponents. The
  bits of the checksum come first, so a message starts at exponent 32.
\<close>

fun exponents :: "bool list \<Rightarrow> nat list" where
  "exponents [] = []"
| "exponents (m # ms) = (if m then [32 + length ms] else []) @ exponents ms"

definition syndrome :: "nat list \<Rightarrow> u32" where
  "syndrome es = foldr (\<lambda>e s. power_of_x e XOR s) es 0"

lemma syndrome_simps [simp]: "syndrome [] = 0" "syndrome (e # es) = power_of_x e XOR syndrome es"
  by (simp_all add: syndrome_def)

lemma syndrome_append: "syndrome (es @ fs) = syndrome es XOR syndrome fs"
  by (induction es) (simp_all add: xor.assoc)

lemma syndrome_nonzero:
  assumes "distinct es" and "set es \<subseteq> {..2223}" and "es \<noteq> []" and "length es \<le> 3"
  shows "syndrome es \<noteq> 0"
proof -
  consider a where "es = [a]" | a b where "es = [a, b]" | a b c where "es = [a, b, c]"
    using assms(3,4) by (cases es rule: remdups_adj.cases; cases "tl (tl es)") auto
  then show ?thesis
  proof cases
    case 1
    then show ?thesis using crc32_bits_eq_zero [of a 1] by auto
  next
    case 2
    then show ?thesis using assms(1,2) powers_differ [of a b] powers_differ [of b a]
      by (cases a b rule: linorder_cases) (auto simp: xor.commute)
  next
    case 3
    then show ?thesis using assms(1,2) powers_cancel [of a b c] by auto
  qed
qed

lemma exponents_bounds: "set (exponents ms) \<subseteq> {32..<32 + length ms}"
  by (induction ms) auto

lemma exponents_distinct: "distinct (exponents ms)"
proof (induction ms)
  case (Cons m ms)
  have "32 + length ms \<notin> set (exponents ms)" using exponents_bounds [of ms] by auto
  with Cons show ?case by simp
qed simp

lemma length_exponents: "length (exponents ms) = weight ms"
  by (induction ms) simp_all

text \<open>Thirty-one steps after the message, its register is the sum of the powers of its flipped bits.\<close>

lemma crc_serial_syndrome: "crc32_bits 31 (crc_serial 0 ms) = syndrome (exponents ms)"
proof (induction ms)
  case (Cons m ms)
  have "crc32_bits 31 (crc32_bits (Suc (length ms)) 1) = power_of_x (32 + length ms)"
    by (simp only: crc32_bits_add [symmetric]) (simp add: add.commute)
  with Cons show ?case
    by (cases m) (simp_all only: crc_serial_True crc_serial_False crc32_bits_xor exponents.simps syndrome_append syndrome_simps
        if_True if_False append.simps xor.assoc)
qed simp

section \<open>The trailer\<close>

lemma byte_bits_shift: "byte_bits (ucast (drop_bit n c AND 0xFF :: u32)) = map (bit c) [n..<n + 8]"
  unfolding byte_bits_def and_0xFF
  by (intro nth_equalityI) (auto simp: bit_simps)

lemma message_bits_be32: "message_bits (be32 c) = map (bit c) ([24..<32] @ [16..<24] @ [8..<16] @ [0..<8])"
  using byte_bits_shift [of 24 c] byte_bits_shift [of 16 c] byte_bits_shift [of 8 c] byte_bits_shift [of 0 c]
  by (simp add: message_bits_def be32_def)

lemma hamming_map: "hamming (map f is) (map g is) = length (filter (\<lambda>i. f i \<noteq> g i) is)"
  by (induction "is") (simp_all add: hamming_def)

text \<open>Every register with one bit set runs into 1 without meeting the polynomial.\<close>

lemma crc32_bits_unit: "j < 32 \<Longrightarrow> crc32_bits j (push_bit j 1) = 1"
proof (induction j)
  case (Suc j)
  have "crc32_step (push_bit (Suc j) 1) = push_bit j 1"
    using Suc.prems
    by (intro bit_word_eqI) (auto simp: crc32_step_if bit_drop_Suc_0 bit_exp_iff simp del: push_bit_Suc power_Suc)
  with Suc show ?case by (simp del: push_bit_Suc power_Suc)
qed simp

lemma crc32_bits_31_unit: "j < 32 \<Longrightarrow> crc32_bits 31 (2 ^ j) = power_of_x (31 - j)"
  using crc32_bits_add [of j "31 - j" "2 ^ j"] crc32_bits_unit [of j] by simp

lemma syndrome_units:
  assumes "distinct js" and "set js \<subseteq> {..<32}" and "\<And>i. i < 32 \<Longrightarrow> bit w i \<longleftrightarrow> i \<in> set js"
  shows "crc32_bits 31 w = syndrome (map (\<lambda>j. 31 - j) js)"
  using assms
proof (induction js arbitrary: w)
  case Nil
  then have "w = 0" by (intro bit_word_eqI) simp
  then show ?case by (simp add: crc32_bits_zero)
next
  case (Cons j js)
  have "bit (w XOR 2 ^ j) i \<longleftrightarrow> i \<in> set js" if "i < 32" for i
    using Cons.prems that by (auto simp: bit_xor_iff bit_exp_iff)
  then have "crc32_bits 31 (w XOR 2 ^ j) = syndrome (map (\<lambda>j. 31 - j) js)"
    using Cons.prems by (intro Cons.IH) simp_all
  then have "syndrome (map (\<lambda>j. 31 - j) js) = crc32_bits 31 w XOR power_of_x (31 - j)"
    using Cons.prems(2) by (simp add: crc32_bits_xor crc32_bits_31_unit)
  then show ?case
    using xor.left_commute [of "power_of_x (31 - j)" "crc32_bits 31 w" "power_of_x (31 - j)"] by simp
qed

lemma trailer_exponents:
  obtains es where "distinct es" "set es \<subseteq> {..<32}" "crc32_bits 31 (c XOR d) = syndrome es"
    "length es = hamming (message_bits (be32 c)) (message_bits (be32 d))"
proof -
  let ?is = "[24..<32] @ [16..<24] @ [8..<16] @ [0..<8]"
  define js where "js = filter (\<lambda>i. bit c i \<noteq> bit d i) ?is"
  have "set ?is = {..<32}" by (simp only: set_append set_upt) auto
  then have js: "i \<in> set js \<longleftrightarrow> i < 32 \<and> bit c i \<noteq> bit d i" for i by (simp only: js_def set_filter) auto
  have distinct: "distinct js" unfolding js_def by (intro distinct_filter) simp
  have "inj_on (\<lambda>j. 31 - j) (set js)" by (rule inj_onI) (use js in fastforce)
  then have "distinct (map (\<lambda>j. 31 - j) js)" using distinct by (simp add: distinct_map)
  moreover have "set (map (\<lambda>j. 31 - j) js) \<subseteq> {..<32}" by auto
  moreover have "crc32_bits 31 (c XOR d) = syndrome (map (\<lambda>j. 31 - j) js)"
    by (rule syndrome_units [OF distinct]) (use js in \<open>auto simp: bit_xor_iff\<close>)
  moreover have "length (map (\<lambda>j. 31 - j) js) = hamming (message_bits (be32 c)) (message_bits (be32 d))"
    by (simp only: message_bits_be32 hamming_map js_def length_map)
  ultimately show thesis by (rule that)
qed

section \<open>Distance of frames\<close>

lemma length_byte_bits: "length (byte_bits b) = 8"
  by (simp add: byte_bits_def)

lemma length_message_bits: "length (message_bits bs) = 8 * length bs"
  by (induction bs) (simp_all add: message_bits_def length_byte_bits)

lemma message_bits_inj: "message_bits xs = message_bits ys \<Longrightarrow> xs = ys"
proof (induction xs arbitrary: ys)
  case Nil
  from arg_cong [OF this, of length] show ?case by (simp add: length_message_bits)
next
  case (Cons x xs)
  then obtain y zs where "ys = y # zs" using length_message_bits [of "x # xs"] length_message_bits [of ys] by (cases ys) auto
  with Cons show ?case
    by (auto simp: message_bits_def byte_bits_inj append_eq_append_conv length_byte_bits)
qed

lemma crc32_difference:
  "length xs = length ys \<Longrightarrow> crc32 xs XOR crc32 ys = crc_serial 0 (flips (message_bits xs) (message_bits ys))"
  using crc_serial_difference [of "message_bits xs" "message_bits ys" "0xFFFFFFFF" "0xFFFFFFFF"]
  by (simp add: crc32_def crc32_loop_serial length_message_bits)

lemma codewords_differ:
  assumes "length xs = length ys" and "length xs \<le> 274" and "xs \<noteq> ys"
  shows "4 \<le> hamming (message_bits xs) (message_bits ys) + hamming (message_bits (be32 (crc32 xs))) (message_bits (be32 (crc32 ys)))"
proof (rule ccontr)
  let ?d = "flips (message_bits xs) (message_bits ys)"
  assume few: "\<not> ?thesis"
  obtain es where es: "distinct es" "set es \<subseteq> {..<32}" "crc32_bits 31 (crc32 xs XOR crc32 ys) = syndrome es"
    "length es = hamming (message_bits (be32 (crc32 xs))) (message_bits (be32 (crc32 ys)))"
    by (rule trailer_exponents)
  have len: "length ?d \<le> 2192" using assms(1,2) by (simp add: length_flips length_message_bits)
  have body: "length (exponents ?d) = hamming (message_bits xs) (message_bits ys)"
    by (simp add: hamming_def length_exponents)
  then have "exponents ?d \<noteq> []"
    using assms(1,3) message_bits_inj [of xs ys] hamming_zero [of "message_bits xs" "message_bits ys"]
    by (auto simp: length_message_bits)
  moreover have "distinct (exponents ?d @ es)" "set (exponents ?d @ es) \<subseteq> {..2223}"
    using es(1,2) exponents_distinct [of ?d] exponents_bounds [of ?d] len by fastforce+
  moreover have "length (exponents ?d @ es) \<le> 3" using few body es(4) by simp
  ultimately have "syndrome (exponents ?d @ es) \<noteq> 0" by (intro syndrome_nonzero) simp_all
  moreover have "syndrome (exponents ?d) = syndrome es"
    using es(3) by (simp add: crc32_difference [OF assms(1)] crc_serial_syndrome)
  ultimately show False by (simp add: syndrome_append)
qed

lemma frames_differ:
  assumes "valid_frame f" and "valid_frame g" and "length (wire f) = length (wire g)" and "f \<noteq> g"
  shows "4 \<le> hamming (message_bits (wire f)) (message_bits (wire g))"
proof -
  have len: "length (wire_body f) = length (wire_body g)" using assms(3) by simp
  have "wire_body f \<noteq> wire_body g"
  proof
    assume "wire_body f = wire_body g"
    then have "wire f = wire g" by (simp add: wire_def)
    with assms(1,2,4) show False by (metis decoded_iff option.inject)
  qed
  moreover have "length (wire_body f) \<le> 274" using assms(1) by (simp add: valid_frame_def)
  ultimately show ?thesis
    using codewords_differ [OF len]
    by (simp add: wire_def message_bits_append hamming_append length_message_bits len del: length_wire_body)
qed

section \<open>Property\<close>

text \<open>
  C17. Up to three flipped bits are always detected, wherever they are: a byte string of the length of an
  encoded frame that differs from it in one, two or three bits of the header, the payload or the
  checksum is never accepted by the decoder.
\<close>

theorem decode_detects_three_bit_errors:
  assumes "encode f = \<lparr>enc_bytes = bytes, enc_error = CodecError_none\<rparr>" and "length bytes' = length bytes"
    and "bytes' \<noteq> bytes" and "hamming (message_bits bytes) (message_bits bytes') \<le> 3" and "decode bytes' = Some r"
  shows "\<not> dec_ok r \<and> dec_frame r = None"
proof -
  have f: "valid_frame f" "bytes = wire f"
    using assms(1) enc_ok_encode_iff [of f] by (simp_all add: enc_ok_def encode_wire)
  have "decoded bytes' \<noteq> Some g" for g
    using frames_differ [OF f(1), of g] f assms(2-4) by (cases "f = g") (auto simp: decoded_iff)
  then have "decoded bytes' = None" by blast
  with assms(5) show ?thesis
    by (cases bytes' rule: decode_cases) (auto simp: decoded_def dec_ok_def dec_fail_def)
qed

theorem decode_detects_three_bit_errors_witness:
  "\<exists>r. decode (0x48 # drop 1 (butlast vector_bytes) @ [0xFE]) = Some r \<and> \<not> dec_ok r"
proof -
  let ?bytes = "0x48 # drop 1 (butlast vector_bytes) @ [0xFE] :: byte list"
  obtain r where r: "decode ?bytes = Some r" by (simp only: decode_eq_spec)
  have "\<not> dec_ok r \<and> dec_frame r = None"
    by (rule decode_detects_three_bit_errors [OF encode_vector_frame _ _ _ r])
      (simp_all add: vector_bytes_def hamming_def message_bits_def byte_bits_def upt_rec bit_0)
  with r show ?thesis by blast
qed

end
