(* ===== verification/Memory_Map.thy ===== *)
theory Memory_Map
  imports Types
begin

text \<open>
  The simulated memory of \<open>include/imlp/memory_map.hpp\<close> and \<open>src/memory_map.cpp\<close>: 4096 bytes, a
  fixed access policy per address, bounded reads and all-or-nothing writes. The address arithmetic is
  done in the widths of the source (32-bit addresses, 64-bit sizes), and copying out of and into the
  array is a checked access; the results say that no range check wraps around, no access leaves the
  array, and what every branch returns and changes.
\<close>

section \<open>Definitions\<close>

definition memory_capacity :: size_t where
  "memory_capacity = 4096"

datatype Access = Access_read_only | Access_read_write | Access_denied

record MemoryResult =
  mem_status :: Status
  mem_data :: "byte list"

definition mem_ok :: "MemoryResult \<Rightarrow> bool" where
  "mem_ok r \<longleftrightarrow> mem_status r = Status_ok"

record MemoryMap =
  mm_bytes :: "byte list"

definition range_fits :: "u32 \<Rightarrow> size_t \<Rightarrow> bool" where
  "range_fits address len =
     (if len = 0 \<or> len > memory_capacity then False
      else let start = ucast address :: size_t
           in start < memory_capacity \<and> len \<le> memory_capacity - start)"

definition identity :: string where
  "identity = ''IMLP/1 synthetic memory simulator''"

text \<open>The constructor: the loop that stores the identity text, then the version byte.\<close>

fun store_identity :: "string \<Rightarrow> nat \<Rightarrow> byte list \<Rightarrow> byte list option" where
  "store_identity [] index bytes = Some bytes"
| "store_identity (c # cs) index bytes = do {
     bytes' \<leftarrow> store bytes index (of_char c);
     store_identity cs (Suc index) bytes'
   }"

definition MemoryMap_new :: "MemoryMap option" where
  "MemoryMap_new = do {
     bytes \<leftarrow> store_identity identity 0 (replicate (unat memory_capacity) 0);
     bytes \<leftarrow> store bytes 0x40 protocol_version;
     Some \<lparr>mm_bytes = bytes\<rparr>
   }"

definition access_for :: "u32 \<Rightarrow> Access" where
  "access_for address =
     (if address \<le> 0x00FF then Access_read_only
      else if address \<le> 0x07FF then Access_read_write
      else Access_denied)"

text \<open>
  The two policy loops differ in the condition that makes them return early. \<open>rejects bad start
  len offset\<close> is the loop from \<open>offset\<close> on.
\<close>

function rejects :: "(Access \<Rightarrow> bool) \<Rightarrow> size_t \<Rightarrow> size_t \<Rightarrow> size_t \<Rightarrow> bool" where
  "rejects bad start len offset =
     (if offset < len then
        (if bad (access_for (ucast (start + offset))) then True
         else rejects bad start len (offset + 1))
      else False)"
  by pat_completeness auto
termination
proof (relation "measure (\<lambda>(bad, start, len, offset). unat (len - offset))", goal_cases)
  case (2 bad start len offset)
  then have "len - offset \<noteq> 0" by auto
  then show ?case
    using measure_unat [of "len - offset"] by (simp add: diff_diff_eq)
qed simp

declare rejects.simps [simp del]

definition memory_read :: "MemoryMap \<Rightarrow> u32 \<Rightarrow> size_t \<Rightarrow> MemoryResult option" where
  "memory_read m address len =
     (if \<not> range_fits address len \<or> len > word_of_nat maximum_payload_size
        then Some \<lparr>mem_status = Status_out_of_range, mem_data = []\<rparr>
      else
        let start = ucast address :: size_t in
        if rejects (\<lambda>a. a = Access_denied) start len 0
          then Some \<lparr>mem_status = Status_access_denied, mem_data = []\<rparr>
        else do {
          data \<leftarrow> iter_range (mm_bytes m) (unat start) (unat (start + len));
          Some \<lparr>mem_status = Status_ok, mem_data = data\<rparr>
        })"

definition memory_write :: "MemoryMap \<Rightarrow> u32 \<Rightarrow> byte list \<Rightarrow> (Status \<times> MemoryMap) option" where
  "memory_write m address data =
     (if \<not> range_fits address (size_of data) \<or> size_of data > word_of_nat maximum_payload_size
        then Some (Status_out_of_range, m)
      else
        let start = ucast address :: size_t in
        if rejects (\<lambda>a. a \<noteq> Access_read_write) start (size_of data) 0
          then Some (Status_access_denied, m)
        else do {
          bytes \<leftarrow> std_copy data (mm_bytes m) (unat start);
          Some (Status_ok, m\<lparr>mm_bytes := bytes\<rparr>)
        })"

section \<open>Range check and policy\<close>

lemma range_fits_iff: "range_fits a n \<longleftrightarrow> 0 < unat n \<and> unat a + unat n \<le> 4096"
proof (cases "n = 0")
  case False
  have "unat (4096 - ucast a :: size_t) = 4096 - unat a" if "unat a < 4096"
    using that by (simp add: unat_sub_if_size word_le_nat_alt word_less_nat_alt)
  moreover have "0 < unat n" using False by (simp add: unat_gt_0)
  ultimately show ?thesis
    using False by (cases "unat a < 4096")
      (auto simp: range_fits_def memory_capacity_def Let_def word_less_nat_alt word_le_nat_alt)
qed (simp add: range_fits_def)

lemma access_for_iff:
  "access_for a = Access_denied \<longleftrightarrow> 0x800 \<le> unat a"
  "access_for a = Access_read_write \<longleftrightarrow> 0x100 \<le> unat a \<and> unat a < 0x800"
  "access_for a = Access_read_only \<longleftrightarrow> unat a < 0x100"
  by (auto simp: access_for_def word_le_nat_alt)

lemma rejects_iff:
  "rejects bad start n k \<longleftrightarrow> (\<exists>j. unat k \<le> j \<and> j < unat n \<and> bad (access_for (ucast (start + word_of_nat j))))"
proof (induction bad start n k rule: rejects.induct)
  case (1 bad start n k)
  show ?case
  proof (cases "k < n")
    case True
    then have "unat (k + 1) = unat k + 1"
      by (rule unat_plus_one)
    with True 1 show ?thesis
      by (subst rejects.simps) (auto simp: word_less_nat_alt Suc_le_eq intro: less_imp_le dest: le_neq_implies_less)
  next
    case False
    then show ?thesis by (subst rejects.simps) (auto simp: word_less_nat_alt)
  qed
qed

text \<open>
  Within the array, \<open>start + offset\<close> neither wraps around nor loses bits in the cast, so the loops
  quantify over the addresses of the interval.
\<close>

lemma unat_interval_address:
  fixes a :: u32
  assumes "unat a + j < 4096"
  shows "unat (ucast (ucast a + word_of_nat j :: size_t) :: u32) = unat a + j"
proof -
  have "unat (word_of_nat j :: size_t) = j"
    using assms by (simp add: unsigned_of_nat take_bit_nat_eq_self)
  then have "unat (ucast a + word_of_nat j :: size_t) = unat a + j"
    using assms by (simp add: unat_word_ariths)
  then show ?thesis
    using assms by (simp add: unsigned_ucast_eq take_bit_nat_eq_self)
qed

lemma rejects_interval:
  assumes "range_fits a n"
  shows "rejects bad (ucast a) n 0 \<longleftrightarrow>
    (\<exists>b. unat a \<le> unat b \<and> unat b < unat a + unat n \<and> bad (access_for b))"
proof
  assume "rejects bad (ucast a) n 0"
  then obtain j where j: "j < unat n" "bad (access_for (ucast (ucast a + word_of_nat j :: size_t)))"
    by (auto simp: rejects_iff)
  moreover have "unat (ucast (ucast a + word_of_nat j :: size_t) :: u32) = unat a + j"
    using assms j by (intro unat_interval_address) (auto simp: range_fits_iff)
  ultimately show "\<exists>b. unat a \<le> unat b \<and> unat b < unat a + unat n \<and> bad (access_for b)"
    by (metis le_add1 nat_add_left_cancel_less)
next
  assume "\<exists>b. unat a \<le> unat b \<and> unat b < unat a + unat n \<and> bad (access_for b)"
  then obtain b where b: "unat a \<le> unat b" "unat b < unat a + unat n" "bad (access_for b)" by blast
  have "unat (ucast (ucast a + word_of_nat (unat b - unat a) :: size_t) :: u32) = unat b"
    using assms b by (subst unat_interval_address) (auto simp: range_fits_iff)
  then have "ucast (ucast a + word_of_nat (unat b - unat a) :: size_t) = b"
    by (rule unsigned_word_eqI)
  then show "rejects bad (ucast a) n 0"
    using b by (auto simp: rejects_iff intro!: exI [of _ "unat b - unat a"])
qed

lemma rejects_read:
  assumes "range_fits a n"
  shows "rejects (\<lambda>x. x = Access_denied) (ucast a) n 0 \<longleftrightarrow> 0x800 < unat a + unat n"
proof -
  let ?last = "word_of_nat (unat a + unat n - 1) :: u32"
  have "unat ?last = unat a + unat n - 1"
    using assms by (intro unat_of_nat_u32) (auto simp: range_fits_iff)
  moreover have "0 < unat n" using assms by (simp add: range_fits_iff)
  ultimately have "rejects (\<lambda>x. x = Access_denied) (ucast a) n 0" if "0x800 < unat a + unat n"
    using that unfolding rejects_interval [OF assms] access_for_iff by (intro exI [of _ ?last]) auto
  then show ?thesis
    unfolding rejects_interval [OF assms] access_for_iff by fastforce
qed

lemma rejects_write:
  assumes "range_fits a n"
  shows "rejects (\<lambda>x. x \<noteq> Access_read_write) (ucast a) n 0 \<longleftrightarrow> unat a < 0x100 \<or> 0x800 < unat a + unat n"
proof -
  let ?last = "word_of_nat (unat a + unat n - 1) :: u32"
  have "unat ?last = unat a + unat n - 1"
    using assms by (intro unat_of_nat_u32) (auto simp: range_fits_iff)
  moreover have "0 < unat n" using assms by (simp add: range_fits_iff)
  ultimately have "rejects (\<lambda>x. x \<noteq> Access_read_write) (ucast a) n 0" if "0x800 < unat a + unat n"
    using that unfolding rejects_interval [OF assms] access_for_iff by (intro exI [of _ ?last]) auto
  moreover have "rejects (\<lambda>x. x \<noteq> Access_read_write) (ucast a) n 0" if "unat a < 0x100"
    using that \<open>0 < unat n\<close> unfolding rejects_interval [OF assms] access_for_iff by (intro exI [of _ a]) auto
  ultimately show ?thesis
    unfolding rejects_interval [OF assms] access_for_iff by fastforce
qed

section \<open>Operations in closed form\<close>

definition memory_inv :: "MemoryMap \<Rightarrow> bool" where
  "memory_inv m \<longleftrightarrow> length (mm_bytes m) = 4096"

text \<open>The branches of a read and a write, in unbounded arithmetic on the addresses.\<close>

lemma memory_read_eq:
  assumes "memory_inv m"
  shows "memory_read m a n = Some
    (if n = 0 \<or> 256 < unat n \<or> 4096 < unat a + unat n
       then \<lparr>mem_status = Status_out_of_range, mem_data = []\<rparr>
     else if 0x800 < unat a + unat n then \<lparr>mem_status = Status_access_denied, mem_data = []\<rparr>
     else \<lparr>mem_status = Status_ok, mem_data = take (unat n) (drop (unat a) (mm_bytes m))\<rparr>)"
proof (cases "range_fits a n \<and> unat n \<le> 256")
  case True
  then have fits: "range_fits a n" and "unat n \<le> 256" "0 < unat n" "unat a + unat n \<le> 4096"
    by (auto simp: range_fits_iff)
  then have "unat (ucast a + n) = unat a + unat n"
    by (simp add: unat_word_ariths)
  then have "iter_range (mm_bytes m) (unat (ucast a :: size_t)) (unat (ucast a + n)) =
      Some (take (unat n) (drop (unat a) (mm_bytes m)))"
    using assms \<open>unat a + unat n \<le> 4096\<close> by (simp add: iter_range_in memory_inv_def)
  then show ?thesis
    using True \<open>0 < unat n\<close> \<open>unat a + unat n \<le> 4096\<close>
    by (auto simp: memory_read_def Let_def rejects_read [OF fits] word_less_nat_alt)
next
  case False
  then have "n = 0 \<or> 256 < unat n \<or> 4096 < unat a + unat n"
    by (auto simp: range_fits_iff unat_gt_0)
  with False show ?thesis
    by (auto simp: memory_read_def Let_def word_less_nat_alt)
qed

lemma memory_write_eq:
  assumes "memory_inv m" and "length d < 2 ^ 64"
  shows "memory_write m a d = Some
    (if d = [] \<or> 256 < length d \<or> 4096 < unat a + length d then (Status_out_of_range, m)
     else if unat a < 0x100 \<or> 0x800 < unat a + length d then (Status_access_denied, m)
     else (Status_ok, m\<lparr>mm_bytes :=
       take (unat a) (mm_bytes m) @ d @ drop (unat a + length d) (mm_bytes m)\<rparr>))"
proof (cases "range_fits a (size_of d) \<and> length d \<le> 256")
  case True
  then have fits: "range_fits a (size_of d)" and "unat a + length d \<le> 4096" "0 < length d"
    using assms(2) by (auto simp: range_fits_iff unat_size_of)
  then have "std_copy d (mm_bytes m) (unat (ucast a :: size_t)) =
      Some (take (unat a) (mm_bytes m) @ d @ drop (unat a + length d) (mm_bytes m))"
    using assms(1) by (simp add: std_copy_in memory_inv_def)
  then show ?thesis
    using True \<open>0 < length d\<close> \<open>unat a + length d \<le> 4096\<close> assms(2)
    by (auto simp: memory_write_def Let_def rejects_write [OF fits] word_less_nat_alt unat_size_of)
next
  case False
  then have "d = [] \<or> 256 < length d \<or> 4096 < unat a + length d"
    using assms(2) by (auto simp: range_fits_iff unat_size_of)
  with False assms(2) show ?thesis
    by (auto simp: memory_write_def Let_def word_less_nat_alt unat_size_of)
qed

lemma memory_write_inv:
  assumes "memory_inv m" and "memory_write m a d = Some (s, m')" and "length d < 2 ^ 64"
  shows "memory_inv m'"
  using assms by (auto simp: memory_write_eq memory_inv_def split: if_splits)

section \<open>The initial memory\<close>

definition initial_bytes :: "byte list" where
  "initial_bytes = (map of_char identity @ replicate 4063 0)[0x40 := 1]"

lemma store_identity_eq:
  "index + length cs \<le> length bytes \<Longrightarrow> store_identity cs index bytes =
     Some (take index bytes @ map of_char cs @ drop (index + length cs) bytes)"
proof (induction cs arbitrary: index bytes)
  case (Cons c cs)
  then have "take (Suc index) (bytes[index := of_char c]) = take index bytes @ [of_char c]"
    by (simp add: take_Suc_conv_app_nth)
  with Cons show ?case by (simp add: store_in)
qed simp

lemma MemoryMap_new_eq: "MemoryMap_new = Some \<lparr>mm_bytes = initial_bytes\<rparr>"
proof -
  have len: "length identity = 33" by (simp add: identity_def)
  have "store_identity identity 0 (replicate 4096 0) = Some (map of_char identity @ replicate 4063 0)"
    by (simp add: store_identity_eq len)
  then show ?thesis
    by (simp add: MemoryMap_new_def memory_capacity_def store_in len initial_bytes_def protocol_version_def)
qed

lemma length_initial_bytes [simp]: "length initial_bytes = 4096"
  by (simp add: initial_bytes_def identity_def)

lemma initial_bytes_nth:
  "k < 4096 \<Longrightarrow> initial_bytes ! k = (if k < 33 then of_char (identity ! k) else if k = 0x40 then 1 else 0)"
  by (auto simp: initial_bytes_def nth_list_update nth_append) (simp_all add: identity_def)

lemma initial_bytes_prefix: "n \<le> 33 \<Longrightarrow> take n initial_bytes = map of_char (take n identity)"
  by (rule nth_equalityI) (auto simp: initial_bytes_nth, simp_all add: identity_def)

lemma memory_inv_initial: "memory_inv \<lparr>mm_bytes = initial_bytes\<rparr>"
  by (simp add: memory_inv_def)

section \<open>The memory as an interface\<close>

text \<open>
  What the server relies on: reads return the stored bytes of a readable interval, writes replace
  the bytes of a writable interval or change nothing. \<open>protected\<close> blanks the writable bytes and so
  shows only the rest.
\<close>

definition protected :: "(nat \<Rightarrow> bool) \<Rightarrow> byte list \<Rightarrow> byte list" where
  "protected writable cs = map (\<lambda>k. if writable k then 0 else cs ! k) [0..<length cs]"

locale byte_store =
  fixes invar :: "'m \<Rightarrow> bool" and cells :: "'m \<Rightarrow> byte list"
    and rd :: "'m \<Rightarrow> u32 \<Rightarrow> size_t \<Rightarrow> MemoryResult option"
    and wr :: "'m \<Rightarrow> u32 \<Rightarrow> byte list \<Rightarrow> (Status \<times> 'm) option"
    and readable writable :: "nat \<Rightarrow> bool"
  assumes rd_total: "invar m \<Longrightarrow> \<exists>r. rd m a n = Some r"
    and rd_ok: "invar m \<Longrightarrow> rd m a n = Some r \<Longrightarrow> mem_status r = Status_ok \<Longrightarrow>
      (\<forall>k < unat n. readable (unat a + k)) \<and> unat a + unat n \<le> length (cells m) \<and>
      mem_data r = take (unat n) (drop (unat a) (cells m))"
    and wr_total: "invar m \<Longrightarrow> length d < 2 ^ 64 \<Longrightarrow> \<exists>s m'. wr m a d = Some (s, m') \<and> invar m'"
    and wr_ok: "invar m \<Longrightarrow> length d < 2 ^ 64 \<Longrightarrow> wr m a d = Some (Status_ok, m') \<Longrightarrow>
      (\<forall>k < length d. writable (unat a + k)) \<and> unat a + length d \<le> length (cells m) \<and>
      cells m' = take (unat a) (cells m) @ d @ drop (unat a + length d) (cells m)"
    and wr_rejected: "invar m \<Longrightarrow> length d < 2 ^ 64 \<Longrightarrow> wr m a d = Some (s, m') \<Longrightarrow>
      s \<noteq> Status_ok \<Longrightarrow> m' = m"
begin

lemma read_back:
  assumes "invar m" and "length d < 2 ^ 64" and "wr m a d = Some (Status_ok, m')"
    and "rd m' a (size_of d) = Some r" and "mem_status r = Status_ok"
  shows "mem_data r = d"
proof -
  have "invar m'" using assms(1-3) wr_total [of m d a] by auto
  then have "mem_data r = take (length d) (drop (unat a) (cells m'))"
    using rd_ok [OF _ assms(4,5)] assms(2) by (simp add: unat_size_of)
  with wr_ok [OF assms(1-3)] show ?thesis by simp
qed

lemma wr_protected:
  assumes "invar m" and "length d < 2 ^ 64" and "wr m a d = Some (s, m')"
  shows "protected writable (cells m') = protected writable (cells m)"
proof (cases "s = Status_ok")
  case True
  then have ok: "wr m a d = Some (Status_ok, m')" using assms(3) by simp
  have w: "writable k" if "unat a \<le> k" "k < unat a + length d" for k
    using wr_ok [OF assms(1,2) ok] that by (metis add_diff_inverse_nat nat_add_left_cancel_less not_le)
  then have "cells m' ! k = cells m ! k" if "k < length (cells m)" "\<not> writable k" for k
    using wr_ok [OF assms(1,2) ok] that nth_patch [of "unat a" d "cells m" k] by auto
  moreover have "length (cells m') = length (cells m)"
    using wr_ok [OF assms(1,2) ok] by simp
  ultimately show ?thesis by (auto simp: protected_def)
next
  case False
  with assms show ?thesis using wr_rejected by blast
qed

end

sublocale byte_store \<subseteq> writes: framed_machine "\<lambda>m (a, d). wr m a d" invar "\<lambda>(a, d). length d < 2 ^ 64"
  "\<lambda>m. protected writable (cells m)"
proof unfold_locales
  show "\<exists>x s'. (case i of (a, d) \<Rightarrow> wr s a d) = Some (x, s') \<and> invar s'"
    if "invar s" and "case i of (a, d) \<Rightarrow> length d < 2 ^ 64" for s i
    using that by (cases i) (simp add: wr_total)
  show "protected writable (cells s') = protected writable (cells s)"
    if "invar s" and "case i of (a, d) \<Rightarrow> length d < 2 ^ 64"
      and "(case i of (a, d) \<Rightarrow> wr s a d) = Some (x, s')" for s i x s'
    using that by (cases i) (simp add: wr_protected)
qed

abbreviation readable_address :: "nat \<Rightarrow> bool" where
  "readable_address k \<equiv> k < 0x800"

abbreviation writable_address :: "nat \<Rightarrow> bool" where
  "writable_address k \<equiv> 0x100 \<le> k \<and> k < 0x800"

interpretation mem: byte_store memory_inv mm_bytes memory_read memory_write
  readable_address writable_address
proof (unfold_locales, goal_cases)
  case (1 m a n)
  then show ?case by (simp add: memory_read_eq)
next
  case (2 m a n r)
  then have "unat a + unat n \<le> 0x800" "r = \<lparr>mem_status = Status_ok, mem_data = take (unat n) (drop (unat a) (mm_bytes m))\<rparr>"
    by (auto simp: memory_read_eq split: if_splits)
  with 2 show ?case by (auto simp: memory_inv_def)
next
  case (3 m d a)
  then obtain s m' where "memory_write m a d = Some (s, m')"
    by (metis memory_write_eq prod.collapse)
  with 3 show ?case using memory_write_inv by blast
next
  case (4 m d a m')
  then have "0x100 \<le> unat a" "unat a + length d \<le> 0x800"
    "mm_bytes m' = take (unat a) (mm_bytes m) @ d @ drop (unat a + length d) (mm_bytes m)"
    by (auto simp: memory_write_eq split: if_splits)
  with 4 show ?case by (auto simp: memory_inv_def)
next
  case (5 m d a s m')
  then show ?case by (auto simp: memory_write_eq split: if_splits)
qed

section \<open>Properties\<close>

text \<open>
  C26. The range check is exact: an address and length pass if and only if the interval is non-empty
  and lies inside the 4096 bytes, for every 32-bit address and 64-bit length. No wrap-around of
  address plus length can make an interval outside the array pass.
\<close>

theorem range_fits_exact:
  "range_fits a n \<longleftrightarrow> 0 < unat n \<and> unat a + unat n \<le> unat memory_capacity"
  by (simp add: range_fits_iff memory_capacity_def)

text \<open>
  C27. A read never leaves the array; it returns the stored bytes when the interval has 1 to 256
  bytes and lies below \<open>0x800\<close>, is denied when it reaches into the denied region, and is out of range
  otherwise. A rejected read carries no data.
\<close>

theorem memory_read_outcome:
  assumes "length (mm_bytes m) = unat memory_capacity"
  shows "memory_read m a n = Some
    (if n = 0 \<or> 256 < unat n \<or> 4096 < unat a + unat n
       then \<lparr>mem_status = Status_out_of_range, mem_data = []\<rparr>
     else if 0x800 < unat a + unat n then \<lparr>mem_status = Status_access_denied, mem_data = []\<rparr>
     else \<lparr>mem_status = Status_ok, mem_data = take (unat n) (drop (unat a) (mm_bytes m))\<rparr>)"
  using assms by (intro memory_read_eq) (simp add: memory_inv_def memory_capacity_def)

theorem memory_read_outcome_witness:
  "memory_read \<lparr>mm_bytes = initial_bytes\<rparr> 0x7FF 2 = Some \<lparr>mem_status = Status_access_denied, mem_data = []\<rparr>"
  using memory_read_outcome [of "\<lparr>mm_bytes = initial_bytes\<rparr>" "0x7FF" 2] by (simp add: memory_capacity_def)

text \<open>
  C28. A write is all or nothing: it succeeds exactly when its 1 to 256 bytes lie inside
  \<open>0x100..0x7FF\<close> and then replaces exactly those bytes; every other write reports why it is rejected
  and leaves the memory as it was.
\<close>

theorem memory_write_outcome:
  assumes "length (mm_bytes m) = unat memory_capacity" and "length d < 2 ^ 64"
  shows "memory_write m a d = Some
    (if d = [] \<or> 256 < length d \<or> 4096 < unat a + length d then (Status_out_of_range, m)
     else if unat a < 0x100 \<or> 0x800 < unat a + length d then (Status_access_denied, m)
     else (Status_ok, m\<lparr>mm_bytes :=
       take (unat a) (mm_bytes m) @ d @ drop (unat a + length d) (mm_bytes m)\<rparr>))"
  using assms by (intro memory_write_eq) (simp_all add: memory_inv_def memory_capacity_def)

theorem memory_write_outcome_witness:
  "memory_write \<lparr>mm_bytes = initial_bytes\<rparr> 0x7FF [0x11, 0x22] =
     Some (Status_access_denied, \<lparr>mm_bytes = initial_bytes\<rparr>)"
  using memory_write_outcome [of "\<lparr>mm_bytes = initial_bytes\<rparr>" "[0x11, 0x22]" "0x7FF"]
  by (simp add: memory_capacity_def)

text \<open>
  Any sequence of writes to a new memory, whatever their addresses, sizes and data, runs without
  undefined behaviour, keeps the 4096 bytes, and leaves every byte of the read-only and of the denied
  region at its initial value.
\<close>

lemma write_sequences_keep_protected_regions:
  assumes "MemoryMap_new = Some m" and "list_all (\<lambda>(a, d). length d < 2 ^ 64) ops"
  shows "\<exists>statuses m'. run (\<lambda>m (a, d). memory_write m a d) m ops = Some (statuses, m') \<and>
    length statuses = length ops \<and> length (mm_bytes m') = 4096 \<and>
    take 0x100 (mm_bytes m') = take 0x100 (mm_bytes m) \<and> drop 0x800 (mm_bytes m') = drop 0x800 (mm_bytes m)"
proof -
  have inv: "memory_inv m"
    using assms(1) memory_inv_initial by (simp add: MemoryMap_new_eq)
  obtain statuses m' where run: "run (\<lambda>m (a, d). memory_write m a d) m ops = Some (statuses, m')"
    and inv': "memory_inv m'" and len: "length statuses = length ops"
    using mem.writes.run_total [OF inv assms(2)] by blast
  have prot: "protected writable_address (mm_bytes m') = protected writable_address (mm_bytes m)"
    using mem.writes.run_view [OF inv assms(2) run] .
  have "mm_bytes m' ! k = mm_bytes m ! k" if "k < 4096" "\<not> writable_address k" for k
    using arg_cong [OF prot, of "\<lambda>xs. xs ! k"] that inv inv' by (auto simp: protected_def memory_inv_def)
  then have "take 0x100 (mm_bytes m') = take 0x100 (mm_bytes m)" "drop 0x800 (mm_bytes m') = drop 0x800 (mm_bytes m)"
    using inv inv' by (auto simp: list_eq_iff_nth_eq memory_inv_def)
  with run len inv' show ?thesis by (auto simp: memory_inv_def)
qed

text \<open>
  Read after write: whenever a write succeeds, reading the same interval succeeds and returns the
  data that was written.
\<close>

lemma memory_read_after_write:
  assumes "length (mm_bytes m) = 4096" and "length d < 2 ^ 64" and "memory_write m a d = Some (Status_ok, m')"
  shows "memory_read m' a (size_of d) = Some \<lparr>mem_status = Status_ok, mem_data = d\<rparr>"
proof -
  have inv: "memory_inv m" using assms(1) by (simp add: memory_inv_def)
  then have inv': "memory_inv m'" using assms(2,3) memory_write_inv by blast
  obtain r where r: "memory_read m' a (size_of d) = Some r"
    using mem.rd_total [OF inv'] by blast
  have "d \<noteq> []" "length d \<le> 256" "unat a + length d \<le> 0x800"
    using assms(3) memory_write_eq [OF inv assms(2)] by (auto split: if_splits)
  then have "mem_status r = Status_ok"
    using r assms(2) by (auto simp: memory_read_eq [OF inv'] unat_size_of unat_0_iff [symmetric] simp del: unat_0_iff)
  moreover from this have "mem_data r = d"
    using mem.read_back [OF inv assms(2,3) r] by simp
  ultimately show ?thesis using r by simp
qed

end
