(* ===== verification/Server.thy ===== *)
theory Server
  imports Codec Memory_Map
begin

text \<open>
  The protocol simulator of \<open>include/imlp/server.hpp\<close> and \<open>src/server.cpp\<close>: it decodes one request,
  applies the write policy and the memory map, and encodes one correlated response. \<open>serve\<close> is its
  specification on frames; \<open>handle\<close> on bytes is shown to implement it, to answer every decodable
  request, and to change memory only as the policy allows.
\<close>

section \<open>Definitions\<close>

record ServerPolicy =
  writes_enabled :: bool
  write_allow_begin :: u32
  write_allow_end :: u32

definition ServerPolicy_default :: ServerPolicy where
  "ServerPolicy_default =
     \<lparr>writes_enabled = False, write_allow_begin = 0x0100, write_allow_end = 0x07FF\<rparr>"

record ServerEvent =
  event_request_decoded :: bool
  event_request_id :: u32
  event_status :: Status
  event_detail :: string

record HandleResult =
  handle_response :: "byte list"
  handle_event :: ServerEvent

record MemoryServer =
  server_policy :: ServerPolicy
  server_memory :: MemoryMap

definition MemoryServer_new :: "ServerPolicy \<Rightarrow> MemoryServer option" where
  "MemoryServer_new policy = do {
     memory \<leftarrow> MemoryMap_new;
     Some \<lparr>server_policy = policy, server_memory = memory\<rparr>
   }"

definition text_payload :: "string \<Rightarrow> byte list" where
  "text_payload str =
     (let n = min (length str) maximum_payload_size in map (\<lambda>index. of_char (str ! index)) [0..<n])"

definition write_is_allowed :: "ServerPolicy \<Rightarrow> u32 \<Rightarrow> size_t \<Rightarrow> bool" where
  "write_is_allowed policy address len =
     (if len = 0 \<or> address < write_allow_begin policy \<or> address > write_allow_end policy then False
      else let available = (ucast (write_allow_end policy) :: u64) - ucast address + 1
           in len \<le> available)"

definition make_response ::
    "Frame \<Rightarrow> Opcode \<Rightarrow> Status \<Rightarrow> byte list \<Rightarrow> string \<Rightarrow> HandleResult" where
  "make_response request opcode status payload detail =
     (let response = \<lparr>frame_version = protocol_version, frame_opcode = opcode,
            frame_flags = response_flag, frame_request_id = frame_request_id request,
            frame_address = frame_address request, frame_status = status, frame_payload = payload\<rparr>;
          result = encode response
      in if \<not> enc_ok result
         then \<lparr>handle_response = [],
               handle_event = \<lparr>event_request_decoded = True,
                 event_request_id = frame_request_id request,
                 event_status = Status_internal_error,
                 event_detail = ''response_encoding_failed''\<rparr>\<rparr>
         else \<lparr>handle_response = enc_bytes result,
               handle_event = \<lparr>event_request_decoded = True,
                 event_request_id = frame_request_id request,
                 event_status = status, event_detail = detail\<rparr>\<rparr>)"

definition handle :: "MemoryServer \<Rightarrow> byte list \<Rightarrow> (HandleResult \<times> MemoryServer) option" where
  "handle server request_bytes = do {
     result \<leftarrow> decode request_bytes;
     if \<not> dec_ok result \<or> dec_frame result = None
     then Some (\<lparr>handle_response = [],
                 handle_event = \<lparr>event_request_decoded = False, event_request_id = 0,
                   event_status = Status_bad_request,
                   event_detail = codec_error_name (dec_error result)\<rparr>\<rparr>, server)
     else do {
       request \<leftarrow> dec_frame result;
       if frame_opcode request = Opcode_read_request
       then do {
         high \<leftarrow> at (frame_payload request) 0;
         low \<leftarrow> at (frame_payload request) 1;
         let len = (push_bit 8 (ucast high) OR ucast low :: size_t);
         r \<leftarrow> memory_read (server_memory server) (frame_address request) len;
         if mem_ok r
         then Some (make_response request Opcode_data_response Status_ok (mem_data r) ''read_ok'', server)
         else Some (make_response request Opcode_error_response (mem_status r)
                (text_payload ''read_rejected'') ''read_rejected'', server)
       }
       else if frame_opcode request = Opcode_write_request
       then
         if \<not> writes_enabled (server_policy server)
         then Some (make_response request Opcode_error_response Status_write_disabled
                (text_payload ''write_disabled'') ''write_disabled'', server)
         else if \<not> write_is_allowed (server_policy server) (frame_address request)
                (size_of (frame_payload request))
         then Some (make_response request Opcode_error_response Status_access_denied
                (text_payload ''outside_write_allowlist'') ''outside_write_allowlist'', server)
         else do {
           (status, memory) \<leftarrow> memory_write (server_memory server) (frame_address request)
              (frame_payload request);
           let server' = server\<lparr>server_memory := memory\<rparr>;
           if status \<noteq> Status_ok
           then Some (make_response request Opcode_error_response status
                  (text_payload ''memory_write_rejected'') ''memory_write_rejected'', server')
           else Some (make_response request Opcode_write_acknowledgement Status_ok [] ''write_ok'', server')
         }
       else Some (make_response request Opcode_error_response Status_bad_request
              (text_payload ''request_opcode_required'') ''request_opcode_required'', server)
     }
   }"

section \<open>The write allowlist\<close>

lemma write_is_allowed_iff:
  "write_is_allowed p a n \<longleftrightarrow> 0 < unat n \<and> unat (write_allow_begin p) \<le> unat a \<and>
     unat a + unat n \<le> unat (write_allow_end p) + 1"
proof (cases "unat a \<le> unat (write_allow_end p)")
  case True
  then have "unat (ucast (write_allow_end p) - ucast a + 1 :: u64) = unat (write_allow_end p) - unat a + 1"
    using unsigned_less [of "write_allow_end p", where ?'a = nat]
    by (simp add: unat_word_ariths unat_sub_if_size word_le_nat_alt)
  with True show ?thesis
    by (auto simp: write_is_allowed_def Let_def word_less_nat_alt word_le_nat_alt unat_gt_0)
next
  case False
  then show ?thesis
    by (cases "unat n") (auto simp: write_is_allowed_def Let_def word_less_nat_alt unat_gt_0)
qed

section \<open>The specification on frames\<close>

definition response_frame :: "Frame \<Rightarrow> Opcode \<Rightarrow> Status \<Rightarrow> byte list \<Rightarrow> Frame" where
  "response_frame request opcode status payload =
     \<lparr>frame_version = 1, frame_opcode = opcode, frame_flags = 1,
      frame_request_id = frame_request_id request, frame_address = frame_address request,
      frame_status = status, frame_payload = payload\<rparr>"

definition reject :: "Frame \<Rightarrow> Status \<Rightarrow> string \<Rightarrow> Frame \<times> string" where
  "reject request status detail =
     (response_frame request Opcode_error_response status (map of_char detail), detail)"

definition in_allowlist :: "ServerPolicy \<Rightarrow> nat \<Rightarrow> nat \<Rightarrow> bool" where
  "in_allowlist p a n \<longleftrightarrow>
     unat (write_allow_begin p) \<le> a \<and> a + n \<le> unat (write_allow_end p) + 1"

text \<open>The response frame, the diagnostic and the next memory contents for one valid request.\<close>

definition serve :: "ServerPolicy \<Rightarrow> byte list \<Rightarrow> Frame \<Rightarrow> (Frame \<times> string) \<times> byte list" where
  "serve p mem request =
     (let a = unat (frame_address request); n = requested_length request;
          d = frame_payload request; len = length d
      in if frame_opcode request = Opcode_read_request then
           (if n = 0 \<or> 256 < n \<or> 4096 < a + n then reject request Status_out_of_range ''read_rejected''
            else if 0x800 < a + n then reject request Status_access_denied ''read_rejected''
            else (response_frame request Opcode_data_response Status_ok (take n (drop a mem)), ''read_ok''), mem)
         else if frame_opcode request = Opcode_write_request then
           if \<not> writes_enabled p then (reject request Status_write_disabled ''write_disabled'', mem)
           else if \<not> in_allowlist p a len
             then (reject request Status_access_denied ''outside_write_allowlist'', mem)
           else if 4096 < a + len then (reject request Status_out_of_range ''memory_write_rejected'', mem)
           else if a < 0x100 \<or> 0x800 < a + len
             then (reject request Status_access_denied ''memory_write_rejected'', mem)
           else ((response_frame request Opcode_write_acknowledgement Status_ok [], ''write_ok''),
                 take a mem @ d @ drop (a + len) mem)
         else (reject request Status_bad_request ''request_opcode_required'', mem))"

definition server_inv :: "MemoryServer \<Rightarrow> bool" where
  "server_inv s \<longleftrightarrow> memory_inv (server_memory s)"

definition success_event :: "Frame \<Rightarrow> Frame \<times> string \<Rightarrow> HandleResult" where
  "success_event request answer =
     \<lparr>handle_response = wire (fst answer),
      handle_event = \<lparr>event_request_decoded = True, event_request_id = frame_request_id request,
        event_status = frame_status (fst answer), event_detail = snd answer\<rparr>\<rparr>"

section \<open>Responses are always valid frames\<close>

lemma make_response_valid:
  assumes "valid_frame (response_frame request opcode status payload)"
  shows "make_response request opcode status payload detail =
    success_event request (response_frame request opcode status payload, detail)"
  using assms encode_wire [OF assms] enc_ok_encode_iff [of "response_frame request opcode status payload"]
  by (simp add: make_response_def success_event_def response_frame_def protocol_version_def
      response_flag_def)

lemma text_payload_eq:
  assumes "length str \<le> 256"
  shows "text_payload str = map of_char str"
proof -
  have "text_payload str = map of_char (map ((!) str) [0..<length str])"
    using assms by (simp add: text_payload_def min_absorb1)
  then show ?thesis by (simp only: map_nth)
qed

lemma valid_reject:
  "status \<noteq> Status_ok \<Longrightarrow> length detail \<le> 256 \<Longrightarrow> valid_frame (fst (reject request status detail))"
  by (simp add: reject_def response_frame_def valid_frame_def valid_semantics_def)

lemma make_response_reject:
  assumes "status \<noteq> Status_ok" and "length detail \<le> 256"
  shows "make_response request Opcode_error_response status (text_payload detail) detail =
    success_event request (reject request status detail)"
proof -
  have "valid_frame (response_frame request Opcode_error_response status (map of_char detail))"
    using valid_reject [OF assms, of request] by (simp add: reject_def)
  then show ?thesis
    unfolding reject_def text_payload_eq [OF assms(2)] by (rule make_response_valid)
qed

lemma valid_serve:
  assumes "length mem = 4096"
  shows "valid_frame (fst (fst (serve p mem request)))"
proof -
  have "valid_frame (response_frame request Opcode_data_response Status_ok (take n d))" if "\<not> 256 < n" for n d
    using that by (simp add: response_frame_def valid_frame_def valid_semantics_def)
  moreover have "valid_frame (response_frame request Opcode_write_acknowledgement Status_ok [])"
    by (simp add: response_frame_def valid_frame_def valid_semantics_def)
  ultimately show ?thesis by (auto simp: serve_def Let_def valid_reject)
qed

lemma length_serve: "length mem = 4096 \<Longrightarrow> length (snd (serve p mem request)) = 4096"
  by (auto simp: serve_def Let_def)

section \<open>Handling implements the specification\<close>

lemma handle_rejected:
  assumes "decoded bytes = None"
  shows "\<exists>r. decode bytes = Some r \<and> \<not> dec_ok r \<and>
    handle server bytes = Some (\<lparr>handle_response = [],
      handle_event = \<lparr>event_request_decoded = False, event_request_id = 0,
        event_status = Status_bad_request, event_detail = codec_error_name (dec_error r)\<rparr>\<rparr>, server)"
  using assms by (cases bytes rule: decode_cases) (auto simp: decoded_def dec_ok_def handle_def)


lemma serve_read:
  assumes "server_inv s" and "frame_opcode req = Opcode_read_request"
    and "frame_payload req = [h, l]" and "len = (push_bit 8 (ucast h) OR ucast l :: size_t)"
  obtains r where "memory_read (server_memory s) (frame_address req) len = Some r"
    and "success_event req (fst (serve (server_policy s) (mm_bytes (server_memory s)) req)) =
      (if mem_status r = Status_ok
       then make_response req Opcode_data_response Status_ok (mem_data r) ''read_ok''
       else make_response req Opcode_error_response (mem_status r) (text_payload ''read_rejected'') ''read_rejected'')"
proof -
  let ?n = "requested_length req" and ?a = "unat (frame_address req)"
  have n: "unat len = ?n" "len = 0 \<longleftrightarrow> ?n = 0"
    using assms(3,4) unat_two_bytes(2) [of h l] by (simp_all add: requested_length_def word_eq_iff_unsigned [where ?'a = nat])
  have data: "make_response req Opcode_data_response Status_ok (take ?n (drop ?a mem)) detail =
      success_event req (response_frame req Opcode_data_response Status_ok (take ?n (drop ?a mem)), detail)"
    if "\<not> 256 < ?n" for mem detail
    using that by (intro make_response_valid) (simp add: response_frame_def valid_frame_def valid_semantics_def)
  have rej: "make_response req Opcode_error_response st (text_payload ''read_rejected'') ''read_rejected'' =
      success_event req (reject req st ''read_rejected'')" if "st \<noteq> Status_ok" for st
    using that by (intro make_response_reject) simp_all
  show thesis
    using that assms(1,2) unfolding server_inv_def
    by (simp add: memory_read_eq n serve_def Let_def data rej)
qed

definition with_memory :: "MemoryServer \<Rightarrow> byte list \<Rightarrow> MemoryServer" where
  "with_memory s mem = s\<lparr>server_memory := (server_memory s)\<lparr>mm_bytes := mem\<rparr>\<rparr>"

lemma with_memory_simps [simp]:
  "with_memory s (mm_bytes (server_memory s)) = s" "server_policy (with_memory s mem) = server_policy s"
  "mm_bytes (server_memory (with_memory s mem)) = mem"
  by (simp_all add: with_memory_def)

lemma with_memory_write: "s\<lparr>server_memory := (server_memory s)\<lparr>mm_bytes := mem\<rparr>\<rparr> = with_memory s mem"
  by (simp add: with_memory_def)

lemma handle_wire_frame:
  assumes "valid_frame req"
  shows "handle s (wire req) =
    (if frame_opcode req = Opcode_read_request then do {
         high \<leftarrow> at (frame_payload req) 0;
         low \<leftarrow> at (frame_payload req) 1;
         r \<leftarrow> memory_read (server_memory s) (frame_address req) (push_bit 8 (ucast high) OR ucast low);
         if mem_status r = Status_ok
         then Some (make_response req Opcode_data_response Status_ok (mem_data r) ''read_ok'', s)
         else Some (make_response req Opcode_error_response (mem_status r)
                (text_payload ''read_rejected'') ''read_rejected'', s) }
     else if frame_opcode req = Opcode_write_request then
       if \<not> writes_enabled (server_policy s)
       then Some (success_event req (reject req Status_write_disabled ''write_disabled''), s)
       else if \<not> write_is_allowed (server_policy s) (frame_address req) (size_of (frame_payload req))
       then Some (success_event req (reject req Status_access_denied ''outside_write_allowlist''), s)
       else do {
         (status, memory) \<leftarrow> memory_write (server_memory s) (frame_address req) (frame_payload req);
         if status \<noteq> Status_ok
         then Some (success_event req (reject req status ''memory_write_rejected''), s\<lparr>server_memory := memory\<rparr>)
         else Some (success_event req (response_frame req Opcode_write_acknowledgement Status_ok [], ''write_ok''),
                s\<lparr>server_memory := memory\<rparr>) }
     else Some (success_event req (reject req Status_bad_request ''request_opcode_required''), s))"
proof -
  have ack: "make_response req Opcode_write_acknowledgement Status_ok [] ''write_ok'' =
      success_event req (response_frame req Opcode_write_acknowledgement Status_ok [], ''write_ok'')"
    by (intro make_response_valid) (simp add: response_frame_def valid_frame_def valid_semantics_def)
  show ?thesis
    using assms
    by (cases "memory_write (server_memory s) (frame_address req) (frame_payload req)")
      (simp_all add: handle_def mem_ok_def decode_wire dec_ok_def make_response_reject ack Let_def split_beta)
qed

lemma handle_serve:
  assumes "server_inv s" and "valid_frame req"
  defines "result \<equiv> serve (server_policy s) (mm_bytes (server_memory s)) req"
  shows "handle s (wire req) = Some (success_event req (fst result), with_memory s (snd result))"
proof -
  consider (read) "frame_opcode req = Opcode_read_request"
    | (wr) "frame_opcode req = Opcode_write_request"
    | (other) "frame_opcode req \<noteq> Opcode_read_request" "frame_opcode req \<noteq> Opcode_write_request"
    by blast
  then show ?thesis
  proof cases
    case read
    then obtain h l where hl: "frame_payload req = [h, l]"
      using assms(2) by (auto simp: valid_frame_def valid_semantics_def numeral_2_eq_2 length_Suc_conv)
    obtain r where "memory_read (server_memory s) (frame_address req) (push_bit 8 (ucast h) OR ucast l) = Some r"
      and "success_event req (fst result) =
        (if mem_status r = Status_ok
         then make_response req Opcode_data_response Status_ok (mem_data r) ''read_ok''
         else make_response req Opcode_error_response (mem_status r) (text_payload ''read_rejected'') ''read_rejected'')"
      unfolding result_def by (rule serve_read [OF assms(1) read hl refl])
    moreover have "snd result = mm_bytes (server_memory s)"
      using read by (simp add: result_def serve_def Let_def)
    ultimately show ?thesis
      using read hl by (simp add: handle_wire_frame [OF assms(2)] at_def)
  next
    case wr
    have len: "length (frame_payload req) \<le> 256" "frame_payload req \<noteq> []"
      using assms(2) wr by (auto simp: valid_frame_def valid_semantics_def)
    then have "write_is_allowed (server_policy s) (frame_address req) (size_of (frame_payload req)) \<longleftrightarrow>
        in_allowlist (server_policy s) (unat (frame_address req)) (length (frame_payload req))"
      by (simp add: write_is_allowed_iff in_allowlist_def unat_size_of)
    then show ?thesis
      using assms(1) len wr
      by (simp add: handle_wire_frame [OF assms(2)] memory_write_eq server_inv_def result_def serve_def Let_def
          with_memory_write)
  next
    case other
    then show ?thesis
      by (simp add: handle_wire_frame [OF assms(2)] result_def serve_def Let_def)
  qed
qed

section \<open>The server as an interface\<close>

text \<open>
  What a transport relies on: a handler is defined on every input, answers a decodable request with
  a valid frame that echoes its request ID and address, and stays silent and unchanged otherwise.
\<close>

locale request_handler =
  fixes invar :: "'s \<Rightarrow> bool" and serve_bytes :: "'s \<Rightarrow> byte list \<Rightarrow> (HandleResult \<times> 's) option"
  assumes handler_total: "invar s \<Longrightarrow> \<exists>r s'. serve_bytes s bytes = Some (r, s') \<and> invar s'"
    and handler_answers: "invar s \<Longrightarrow> decoded bytes = Some req \<Longrightarrow> serve_bytes s bytes = Some (r, s') \<Longrightarrow>
      \<exists>f. valid_frame f \<and> handle_response r = wire f \<and> frame_request_id f = frame_request_id req \<and>
        frame_address f = frame_address req \<and> frame_flags f = 1 \<and> event_request_decoded (handle_event r)"
    and handler_silent: "invar s \<Longrightarrow> decoded bytes = None \<Longrightarrow> serve_bytes s bytes = Some (r, s') \<Longrightarrow>
      handle_response r = [] \<and> s' = s \<and> \<not> event_request_decoded (handle_event r)"
begin

lemma response_shape:
  assumes "invar s" and "serve_bytes s bytes = Some (r, s')"
  shows "handle_response r = [] \<and> decoded bytes = None \<or>
    (\<exists>req f. decoded bytes = Some req \<and> decoded (handle_response r) = Some f \<and> handle_response r = wire f \<and>
      valid_frame f \<and> frame_request_id f = frame_request_id req \<and> frame_address f = frame_address req)"
proof (cases "decoded bytes")
  case None
  with handler_silent [OF assms(1) None assms(2)] show ?thesis by blast
next
  case (Some req)
  with handler_answers [OF assms(1) Some assms(2)] show ?thesis using decoded_iff by metis
qed

lemma response_empty_iff:
  "invar s \<Longrightarrow> serve_bytes s bytes = Some (r, s') \<Longrightarrow> handle_response r = [] \<longleftrightarrow> decoded bytes = None"
  using response_shape [of s bytes r s'] by auto

end

sublocale request_handler \<subseteq> requests: machine serve_bytes invar "\<lambda>_. True"
  by unfold_locales (use handler_total in blast)

definition writable_under :: "ServerPolicy \<Rightarrow> nat \<Rightarrow> bool" where
  "writable_under p k \<longleftrightarrow> writes_enabled p \<and> unat (write_allow_begin p) \<le> k \<and>
     k \<le> unat (write_allow_end p) \<and> 0x100 \<le> k \<and> k < 0x800"

lemma serve_protected:
  assumes "length mem = 4096"
  shows "protected (writable_under p) (snd (serve p mem req)) = protected (writable_under p) mem"
proof (cases "snd (serve p mem req) = mem")
  case False
  let ?a = "unat (frame_address req)" and ?d = "frame_payload req"
  from False have mem: "snd (serve p mem req) = take ?a mem @ ?d @ drop (?a + length ?d) mem"
    and allow: "writes_enabled p" "in_allowlist p ?a (length ?d)" "0x100 \<le> ?a" "?a + length ?d \<le> 0x800"
    by (auto simp: serve_def Let_def split: if_splits)
  then have "snd (serve p mem req) ! k = mem ! k" if "k < 4096" "\<not> writable_under p k" for k
    using that assms nth_patch [of ?a ?d mem k] by (auto simp: writable_under_def in_allowlist_def)
  then show ?thesis
    using assms length_serve [OF assms, of p req] by (auto simp: protected_def)
qed simp

lemma frame_of_serve:
  "frame_request_id (fst (fst (serve p mem req))) = frame_request_id req"
  "frame_address (fst (fst (serve p mem req))) = frame_address req"
  "frame_flags (fst (fst (serve p mem req))) = 1"
  "frame_status (fst (fst (serve p mem req))) < Status_internal_error"
  by (auto simp: serve_def Let_def reject_def response_frame_def less_Status_def status_defs)

lemma handle_cases:
  assumes "server_inv s"
  obtains (answered) req where "decoded bytes = Some req" "valid_frame req" "bytes = wire req"
      "handle s bytes =
        Some (success_event req (fst (serve (server_policy s) (mm_bytes (server_memory s)) req)),
          with_memory s (snd (serve (server_policy s) (mm_bytes (server_memory s)) req)))"
  | (silent) r where "decoded bytes = None" "decode bytes = Some r" "\<not> dec_ok r"
      "handle s bytes = Some (\<lparr>handle_response = [],
        handle_event = \<lparr>event_request_decoded = False, event_request_id = 0,
          event_status = Status_bad_request, event_detail = codec_error_name (dec_error r)\<rparr>\<rparr>, s)"
proof (cases "decoded bytes")
  case None
  then show thesis using silent handle_rejected [OF None, of s] by blast
next
  case (Some req)
  then have "valid_frame req" "bytes = wire req" by (simp_all add: decoded_iff)
  then show thesis using answered [OF Some] handle_serve [OF assms] by blast
qed

interpretation srv: request_handler server_inv handle
proof (unfold_locales, goal_cases)
  case (1 s bytes)
  from \<open>server_inv s\<close> show ?case
    by (cases rule: handle_cases [OF \<open>server_inv s\<close>, of bytes]) (auto simp: server_inv_def memory_inv_def length_serve)
next
  case (2 s bytes req r s')
  then have "length (mm_bytes (server_memory s)) = 4096" by (simp add: server_inv_def memory_inv_def)
  then have "valid_frame (fst (fst (serve (server_policy s) (mm_bytes (server_memory s)) req)))"
    by (rule valid_serve)
  with 2 show ?case
    by (cases rule: handle_cases [OF \<open>server_inv s\<close>, of bytes]) (auto simp: success_event_def frame_of_serve)
next
  case (3 s bytes r s')
  then show ?case by (cases rule: handle_cases [OF \<open>server_inv s\<close>, of bytes]) auto
qed

interpretation srv_guard: framed_machine handle server_inv "\<lambda>_. True"
  "\<lambda>s. (server_policy s, protected (writable_under (server_policy s)) (mm_bytes (server_memory s)))"
proof (unfold_locales, goal_cases)
  case (1 s bytes x s')
  then show ?case
    by (cases rule: handle_cases [OF \<open>server_inv s\<close>, of bytes])
      (auto simp: server_inv_def memory_inv_def serve_protected)
qed

section \<open>Properties\<close>

definition fresh_server :: "ServerPolicy \<Rightarrow> MemoryServer" where
  "fresh_server p = \<lparr>server_policy = p, server_memory = \<lparr>mm_bytes = initial_bytes\<rparr>\<rparr>"

lemma MemoryServer_new_eq: "MemoryServer_new p = Some (fresh_server p)"
  by (simp add: MemoryServer_new_def MemoryMap_new_eq fresh_server_def)

lemma server_inv_fresh [simp]: "server_inv (fresh_server p)"
  by (simp add: server_inv_def fresh_server_def memory_inv_initial)

lemma fresh_server_simps [simp]:
  "server_policy (fresh_server p) = p" "mm_bytes (server_memory (fresh_server p)) = initial_bytes"
  by (simp_all add: fresh_server_def)

text \<open>The request of the test vector reads four bytes; any server that was just built answers it.\<close>

definition vector_response :: Frame where
  "vector_response = response_frame vector_frame Opcode_data_response Status_ok (take 4 (drop 0x100 initial_bytes))"

lemma serve_vector_frame: "serve p initial_bytes vector_frame = ((vector_response, ''read_ok''), initial_bytes)"
  by (simp add: serve_def vector_frame_def Frame_default_def requested_length_def vector_response_def)

lemma valid_vector_response: "valid_frame vector_response"
  by (simp add: vector_response_def response_frame_def valid_frame_def valid_semantics_def)

lemma handle_vector_bytes:
  "handle (fresh_server p) vector_bytes =
     Some (success_event vector_frame (vector_response, ''read_ok''), fresh_server p)"
  using handle_serve [OF server_inv_fresh valid_vector_frame, of p] with_memory_simps(1) [of "fresh_server p"]
  by (simp add: serve_vector_frame wire_vector_frame)

text \<open>
  C9. \<open>MemoryServer::handle\<close> implements the specification on frames: for the bytes of any request the
  codec can encode, the response bytes are the wire form of the frame \<open>serve\<close> gives, the event carries
  its status and diagnostic, and the memory becomes the one \<open>serve\<close> gives; the policy is unchanged.
\<close>

theorem handle_refines_serve:
  assumes "length (mm_bytes (server_memory s)) = 4096" and "encode req = \<lparr>enc_bytes = bytes, enc_error = CodecError_none\<rparr>"
    and "serve (server_policy s) (mm_bytes (server_memory s)) req = ((response, detail), mem)"
  shows "\<exists>result s'. handle s bytes = Some (result, s') \<and> handle_response result = wire response \<and>
    handle_event result = \<lparr>event_request_decoded = True, event_request_id = frame_request_id req,
      event_status = frame_status response, event_detail = detail\<rparr> \<and>
    mm_bytes (server_memory s') = mem \<and> server_policy s' = server_policy s"
proof -
  have "valid_frame req" "bytes = wire req"
    using assms(2) enc_ok_encode_iff [of req] by (auto simp: enc_ok_def encode_wire)
  moreover have "server_inv s" using assms(1) by (simp add: server_inv_def memory_inv_def)
  ultimately show ?thesis
    using handle_serve [of s req] assms(3) by (simp add: success_event_def)
qed

theorem handle_refines_serve_witness:
  "\<exists>result s'. handle (fresh_server ServerPolicy_default) vector_bytes = Some (result, s') \<and>
     event_detail (handle_event result) = ''read_ok'' \<and> mm_bytes (server_memory s') = initial_bytes"
  using handle_refines_serve [OF _ encode_vector_frame, of "fresh_server ServerPolicy_default"]
    serve_vector_frame [of ServerPolicy_default] by fastforce

text \<open>
  C20. Every request that decodes is answered: the response is a non-empty frame that decodes, carries
  the request ID and the address of the request and the response flag, and a status below
  \<open>internal_error\<close>. The branch \<open>response_encoding_failed\<close> is never taken.
\<close>

theorem handle_answers_every_request:
  assumes "length (mm_bytes (server_memory s)) = 4096" and "decode bytes = Some r" and "dec_frame r = Some req"
    and "handle s bytes = Some (result, s')"
  shows "\<exists>r' f. decode (handle_response result) = Some r' \<and> dec_ok r' \<and> dec_frame r' = Some f \<and>
    frame_request_id f = frame_request_id req \<and> frame_address f = frame_address req \<and>
    frame_flags f = response_flag \<and> frame_status f < Status_internal_error \<and>
    event_status (handle_event result) = frame_status f \<and> event_request_decoded (handle_event result)"
proof -
  have inv: "server_inv s" using assms(1) by (simp add: server_inv_def memory_inv_def)
  have dec: "decoded bytes = Some req"
    using assms(2,3) decode_ok_frame [OF assms(2)] by (simp add: decoded_def)
  let ?f = "fst (fst (serve (server_policy s) (mm_bytes (server_memory s)) req))"
  have "result = success_event req (fst (serve (server_policy s) (mm_bytes (server_memory s)) req))"
    using dec assms(4) by (cases rule: handle_cases [OF inv, of bytes]) auto
  moreover have "decode (wire ?f) =
      Some \<lparr>dec_frame = Some ?f, dec_error = CodecError_none, dec_consumed = length (wire ?f)\<rparr>"
    using valid_serve [OF assms(1)] by (rule decode_wire)
  ultimately show ?thesis
    by (simp add: success_event_def frame_of_serve response_flag_def dec_ok_def)
qed

theorem handle_answers_every_request_witness:
  "\<exists>result s' r' f. handle (fresh_server ServerPolicy_default) vector_bytes = Some (result, s') \<and>
     decode (handle_response result) = Some r' \<and> dec_frame r' = Some f \<and> frame_request_id f = 1 \<and> frame_address f = 0x100"
proof -
  note h = handle_vector_bytes [of ServerPolicy_default]
  have d: "decode vector_bytes =
      Some \<lparr>dec_frame = Some vector_frame, dec_error = CodecError_none, dec_consumed = length (wire vector_frame)\<rparr>"
    using decode_wire [OF valid_vector_frame] by (simp only: wire_vector_frame)
  from handle_answers_every_request [OF _ d _ h, of vector_frame] h show ?thesis
    by (fastforce simp: vector_frame_def)
qed

text \<open>A write of two bytes at \<open>0x120\<close>, and what a new server with a matching allowlist does with it.\<close>

definition vector_write :: Frame where
  "vector_write = Frame_default\<lparr>frame_opcode := Opcode_write_request, frame_request_id := 2,
     frame_address := 0x120, frame_payload := [0xAB, 0xCD]\<rparr>"

lemma handle_vector_write:
  defines "s \<equiv> fresh_server \<lparr>writes_enabled = True, write_allow_begin = 0x120, write_allow_end = 0x12F\<rparr>"
  shows "handle s (wire vector_write) = Some (success_event vector_write
    (response_frame vector_write Opcode_write_acknowledgement Status_ok [], ''write_ok''),
    with_memory s (take 0x120 initial_bytes @ [0xAB, 0xCD] @ drop 0x122 initial_bytes))"
proof -
  have "valid_frame vector_write"
    by (simp add: vector_write_def Frame_default_def valid_frame_def valid_semantics_def protocol_version_def)
  moreover have "serve (server_policy s) (mm_bytes (server_memory s)) vector_write =
      ((response_frame vector_write Opcode_write_acknowledgement Status_ok [], ''write_ok''),
       take 0x120 initial_bytes @ [0xAB, 0xCD] @ drop 0x122 initial_bytes)"
    by (simp add: s_def serve_def in_allowlist_def Let_def) (simp add: vector_write_def)
  ultimately show ?thesis using handle_serve [of s vector_write] by (simp add: s_def)
qed

lemma handle_Nil:
  "handle s [] = Some (\<lparr>handle_response = [], handle_event = \<lparr>event_request_decoded = False, event_request_id = 0,
     event_status = Status_bad_request, event_detail = ''truncated''\<rparr>\<rparr>, s)"
  by (simp add: handle_def decode_def dec_fail_def dec_ok_def)

text \<open>
  C6. Defence in depth over whole sessions: whatever sequence of byte strings a server receives, it
  never has undefined behaviour, its policy never changes, and a memory byte can only change if writes
  are enabled and the byte lies both in the server's allowlist and in the read/write region.
\<close>

theorem handle_sequences_respect_write_policy:
  assumes "length (mm_bytes (server_memory s)) = 4096"
  shows "\<exists>results s'. run handle s inputs = Some (results, s') \<and> server_policy s' = server_policy s \<and>
    length (mm_bytes (server_memory s')) = 4096 \<and>
    (\<forall>k < 4096. mm_bytes (server_memory s') ! k \<noteq> mm_bytes (server_memory s) ! k \<longrightarrow>
      writes_enabled (server_policy s) \<and> unat (write_allow_begin (server_policy s)) \<le> k \<and>
      k \<le> unat (write_allow_end (server_policy s)) \<and> 0x100 \<le> k \<and> k \<le> 0x7FF)"
proof -
  let ?w = "writable_under (server_policy s)"
  have inv: "server_inv s" using assms by (simp add: server_inv_def memory_inv_def)
  obtain results s' where run: "run handle s inputs = Some (results, s')" and inv': "server_inv s'"
    using srv.requests.run_total [OF inv, of inputs] by (auto simp: list_all_iff)
  have view: "server_policy s' = server_policy s"
    "protected ?w (mm_bytes (server_memory s')) = protected ?w (mm_bytes (server_memory s))"
    using srv_guard.run_view [OF inv _ run] by (auto simp: list_all_iff)
  have len: "length (mm_bytes (server_memory s')) = 4096"
    using inv' by (simp add: server_inv_def memory_inv_def)
  have "mm_bytes (server_memory s') ! k = mm_bytes (server_memory s) ! k" if "k < 4096" "\<not> ?w k" for k
    using arg_cong [OF view(2), of "\<lambda>xs. xs ! k"] that assms len by (simp add: protected_def)
  then have "?w k" if "k < 4096" "mm_bytes (server_memory s') ! k \<noteq> mm_bytes (server_memory s) ! k" for k
    using that by blast
  with run view(1) len show ?thesis by (fastforce simp: writable_under_def)
qed

theorem handle_sequences_respect_write_policy_witness:
  "\<exists>results s'. run handle (fresh_server \<lparr>writes_enabled = True, write_allow_begin = 0x120, write_allow_end = 0x12F\<rparr>)
     [vector_bytes, [], wire vector_write] = Some (results, s') \<and>
     mm_bytes (server_memory s') ! 0x120 = 0xAB \<and> mm_bytes (server_memory s') ! 0x130 = initial_bytes ! 0x130"
proof -
  define s where "s = fresh_server \<lparr>writes_enabled = True, write_allow_begin = 0x120, write_allow_end = 0x12F\<rparr>"
  have "length (mm_bytes (server_memory s)) = 4096" by (simp add: s_def)
  then obtain results s' where run: "run handle s [vector_bytes, [], wire vector_write] = Some (results, s')"
    and kept: "\<forall>k < 4096. mm_bytes (server_memory s') ! k \<noteq> mm_bytes (server_memory s) ! k \<longrightarrow>
      k \<le> unat (write_allow_end (server_policy s))"
    using handle_sequences_respect_write_policy [of s "[vector_bytes, [], wire vector_write]"] by blast
  have "mm_bytes (server_memory s') ! 0x130 = mm_bytes (server_memory s) ! 0x130"
    using spec [OF kept, of "0x130"] by (auto simp: s_def)
  moreover have "mm_bytes (server_memory s') = take 0x120 initial_bytes @ [0xAB, 0xCD] @ drop 0x122 initial_bytes"
    using run handle_vector_write unfolding s_def by (simp add: handle_vector_bytes handle_Nil) auto
  ultimately show ?thesis using run unfolding s_def by (simp add: nth_append)
qed

text \<open>
  The bound that the codec leaves open is checked here: a read request for no bytes or for more than 256
  is decoded, answered with \<open>out_of_range\<close>, and changes nothing.
\<close>

lemma unbounded_read_is_out_of_range:
  assumes "server_inv s" and "frame_version req = 1" and "unbounded_read req"
  shows "handle s (wire req) = Some (success_event req (reject req Status_out_of_range ''read_rejected''), s)"
  using assms handle_serve [of s req] by (auto simp: valid_frame_table serve_def unbounded_read_def Let_def)

lemma default_server_is_read_only:
  assumes "MemoryServer_new ServerPolicy_default = Some s" and "run handle s inputs = Some (results, s')"
  shows "s' = s"
proof -
  have s: "s = fresh_server ServerPolicy_default" using assms(1) by (simp add: MemoryServer_new_eq)
  have "writable_under ServerPolicy_default = (\<lambda>_. False)"
    by (auto simp: writable_under_def ServerPolicy_default_def)
  then have view: "server_policy s' = server_policy s"
    "protected (\<lambda>_. False) (mm_bytes (server_memory s')) = protected (\<lambda>_. False) (mm_bytes (server_memory s))"
    using srv_guard.run_view [of s inputs results s'] assms(2) by (auto simp: s list_all_iff)
  then have "mm_bytes (server_memory s') = mm_bytes (server_memory s)"
    by (simp add: protected_def map_nth)
  with view(1) show ?thesis
    by (metis MemoryMap.surjective MemoryServer.surjective old.unit.exhaust)
qed

end
