(* ===== verification/Transport.thy ===== *)
theory Transport
  imports Server
begin

text \<open>
  The transport boundary of \<open>include/imlp/transport.hpp\<close> and \<open>src/transport.cpp\<close>: the abstract class
  \<open>ITransport\<close> as a record of its virtual functions over a state type, and the in-process loopback
  with its fault script and its packet trace. The loopback holds a reference to its server: the
  server's state is a component of the loopback's state, as one client uses it; several loopbacks on
  one server are the subject of theory \<open>Shared\<close>.
\<close>

section \<open>Definitions\<close>

datatype TransportError =
  TransportError_none | TransportError_not_connected | TransportError_timeout | TransportError_disconnected

datatype TransportFault =
  TransportFault_timeout | TransportFault_disconnect | TransportFault_truncate_response
  | TransportFault_corrupt_response | TransportFault_wrong_request_id

record TransportReply =
  reply_error :: TransportError
  reply_bytes :: "byte list"

definition reply_ok :: "TransportReply \<Rightarrow> bool" where
  "reply_ok reply \<longleftrightarrow> reply_error reply = TransportError_none"

record TraceRecord =
  trace_sequence :: u64
  trace_direction :: string
  trace_outcome :: string
  trace_bytes :: "byte list"

record 't ITransport =
  transport_connect :: "'t \<Rightarrow> bool \<times> 't"
  transport_close :: "'t \<Rightarrow> 't"
  transport_connected :: "'t \<Rightarrow> bool"
  transport_exchange :: "'t \<Rightarrow> byte list \<Rightarrow> milliseconds \<Rightarrow> (TransportReply \<times> 't) option"

record LoopbackTransport =
  loop_server :: MemoryServer
  loop_connected :: bool
  loop_faults :: "TransportFault list"
  loop_trace :: "TraceRecord list"
  loop_next_sequence :: u64

definition LoopbackTransport_new :: "MemoryServer \<Rightarrow> LoopbackTransport" where
  "LoopbackTransport_new server =
     \<lparr>loop_server = server, loop_connected = False, loop_faults = [], loop_trace = [],
      loop_next_sequence = 1\<rparr>"

definition loopback_connect :: "LoopbackTransport \<Rightarrow> bool \<times> LoopbackTransport" where
  "loopback_connect t = (True, t\<lparr>loop_connected := True\<rparr>)"

definition loopback_close :: "LoopbackTransport \<Rightarrow> LoopbackTransport" where
  "loopback_close t = t\<lparr>loop_connected := False\<rparr>"

definition loopback_connected :: "LoopbackTransport \<Rightarrow> bool" where
  "loopback_connected t = loop_connected t"

definition record_packet :: "string \<Rightarrow> string \<Rightarrow> byte list \<Rightarrow> LoopbackTransport \<Rightarrow> LoopbackTransport" where
  "record_packet direction outcome bytes t =
     t\<lparr>loop_trace := loop_trace t @ [\<lparr>trace_sequence = loop_next_sequence t,
          trace_direction = direction, trace_outcome = outcome, trace_bytes = bytes\<rparr>],
       loop_next_sequence := loop_next_sequence t + 1\<rparr>"

text \<open>
  The three faults that alter a response. \<open>pop_back\<close> and \<open>back\<close> are only called on a response that is
  not empty; a frame that decodes but does not encode again leaves the response as it is.
\<close>

definition alter_response :: "bool \<Rightarrow> TransportFault \<Rightarrow> byte list \<Rightarrow> byte list option" where
  "alter_response has_fault fault response =
     (if has_fault \<and> fault = TransportFault_truncate_response \<and> response \<noteq> []
      then Some (butlast response)
      else if has_fault \<and> fault = TransportFault_corrupt_response \<and> response \<noteq> []
      then Some (response[length response - 1 := last response XOR 0x01])
      else if has_fault \<and> fault = TransportFault_wrong_request_id
      then do {
        result \<leftarrow> decode response;
        if dec_ok result \<and> dec_frame result \<noteq> None
        then do {
          frame \<leftarrow> dec_frame result;
          let changed = encode (frame\<lparr>frame_request_id := frame_request_id frame + 1\<rparr>);
          Some (if enc_ok changed then enc_bytes changed else response)
        }
        else Some response
      }
      else Some response)"

definition loopback_exchange ::
    "LoopbackTransport \<Rightarrow> byte list \<Rightarrow> milliseconds \<Rightarrow> (TransportReply \<times> LoopbackTransport) option" where
  "loopback_exchange t request deadline =
     (if \<not> loop_connected t
      then Some (\<lparr>reply_error = TransportError_not_connected, reply_bytes = []\<rparr>, t)
      else let t = record_packet ''client_to_server'' ''sent'' request t in
      if deadline \<le> 0
      then Some (\<lparr>reply_error = TransportError_timeout, reply_bytes = []\<rparr>,
             record_packet ''server_to_client'' ''deadline_expired'' [] t)
      else let has_fault = loop_faults t \<noteq> [];
               fault = (if has_fault then hd (loop_faults t) else TransportFault_timeout);
               t = (if has_fault then t\<lparr>loop_faults := tl (loop_faults t)\<rparr> else t) in
      if has_fault \<and> fault = TransportFault_timeout
      then Some (\<lparr>reply_error = TransportError_timeout, reply_bytes = []\<rparr>,
             record_packet ''server_to_client'' ''timeout'' [] t)
      else if has_fault \<and> fault = TransportFault_disconnect
      then Some (\<lparr>reply_error = TransportError_disconnected, reply_bytes = []\<rparr>,
             record_packet ''server_to_client'' ''disconnected'' [] (t\<lparr>loop_connected := False\<rparr>))
      else do {
        (handled, server) \<leftarrow> handle (loop_server t) request;
        let t = t\<lparr>loop_server := server\<rparr>;
        response \<leftarrow> alter_response has_fault fault (handle_response handled);
        let outcome = (if event_request_decoded (handle_event handled)
                       then event_detail (handle_event handled) else ''rejected'');
        Some (\<lparr>reply_error = TransportError_none, reply_bytes = response\<rparr>,
              record_packet ''server_to_client'' outcome response t)
      })"

definition push_fault :: "TransportFault \<Rightarrow> LoopbackTransport \<Rightarrow> LoopbackTransport" where
  "push_fault fault t = t\<lparr>loop_faults := loop_faults t @ [fault]\<rparr>"

definition trace :: "LoopbackTransport \<Rightarrow> TraceRecord list" where
  "trace t = loop_trace t"

definition clear_trace :: "LoopbackTransport \<Rightarrow> LoopbackTransport" where
  "clear_trace t = t\<lparr>loop_trace := []\<rparr>"

fun transport_error_name :: "TransportError \<Rightarrow> string" where
  "transport_error_name TransportError_none = ''none''"
| "transport_error_name TransportError_not_connected = ''not_connected''"
| "transport_error_name TransportError_timeout = ''timeout''"
| "transport_error_name TransportError_disconnected = ''disconnected''"

text \<open>The overriding members of the loopback.\<close>

definition loopback :: "LoopbackTransport ITransport" where
  "loopback = \<lparr>transport_connect = loopback_connect, transport_close = loopback_close,
     transport_connected = loopback_connected, transport_exchange = loopback_exchange\<rparr>"

lemma loopback_simps [simp]:
  "transport_connect loopback = loopback_connect" "transport_close loopback = loopback_close"
  "transport_connected loopback = loopback_connected" "transport_exchange loopback = loopback_exchange"
  by (simp_all add: loopback_def)

lemma server_unchanged [simp]:
  "loop_server (LoopbackTransport_new s) = s" "loop_faults (LoopbackTransport_new s) = []"
  "loop_server (snd (loopback_connect t)) = loop_server t"
  "loop_server (loopback_close t) = loop_server t" "loop_server (push_fault f t) = loop_server t"
  "loop_server (clear_trace t) = loop_server t"
  by (simp_all add: LoopbackTransport_new_def loopback_connect_def loopback_close_def push_fault_def clear_trace_def)

section \<open>The altering faults\<close>

lemma alter_response_Nil [simp]: "alter_response h f [] = Some []"
  by (simp add: alter_response_def decode_def dec_fail_def dec_ok_def)

lemma alter_response_none [simp]: "alter_response False f response = Some response"
  by (simp add: alter_response_def)

text \<open>What each fault makes of the response frame \<open>f\<close>.\<close>

definition wrong_id :: "Frame \<Rightarrow> Frame" where
  "wrong_id f = f\<lparr>frame_request_id := frame_request_id f + 1\<rparr>"

lemma valid_wrong_id [simp]: "valid_frame (wrong_id f) = valid_frame f"
  by (simp add: valid_frame_def valid_semantics_def wrong_id_def)

lemma payload_wrong_id [simp]: "frame_payload (wrong_id f) = frame_payload f"
  by (simp add: wrong_id_def)

fun altered :: "TransportFault \<Rightarrow> Frame \<Rightarrow> byte list" where
  "altered TransportFault_truncate_response f = butlast (wire f)"
| "altered TransportFault_corrupt_response f = (wire f)[length (wire f) - 1 := last (wire f) XOR 1]"
| "altered TransportFault_wrong_request_id f = wire (wrong_id f)"
| "altered _ f = wire f"

lemma alter_response_wire: "valid_frame f \<Longrightarrow> alter_response True fault (wire f) = Some (altered fault f)"
  by (cases fault)
    (auto simp: alter_response_def decode_wire dec_ok_def encode_wire enc_ok_def wrong_id_def [symmetric])

lemma byte_xor_1_neq: "b XOR 1 \<noteq> (b :: byte)"
  using xor_left_cancel [of b 1 0] by (auto simp del: xor_left_cancel)

lemma decode_altered:
  assumes "valid_frame f"
  shows "decode (altered TransportFault_truncate_response f) = Some (dec_fail CodecError_truncated 0)"
    and "decode (altered TransportFault_corrupt_response f) =
      Some (dec_fail CodecError_checksum_mismatch (length (wire f)))"
    and "decode (altered TransportFault_wrong_request_id f) =
      Some \<lparr>dec_frame = Some (wrong_id f), dec_error = CodecError_none, dec_consumed = length (wire f)\<rparr>"
proof -
  show "decode (altered TransportFault_truncate_response f) = Some (dec_fail CodecError_truncated 0)"
    using decode_truncated [OF assms, of "length (wire f) - 1"] by (simp add: butlast_conv_take)
  show "decode (altered TransportFault_wrong_request_id f) =
      Some \<lparr>dec_frame = Some (wrong_id f), dec_error = CodecError_none, dec_consumed = length (wire f)\<rparr>"
    using assms decode_wire [of "wrong_id f"] by simp
  obtain a b c d where crc: "be32 (crc32 (wire_body f)) = [a, b, c, d]"
    by (simp add: be32_def)
  then have "altered TransportFault_corrupt_response f = wire_body f @ [a, b, c, d XOR 1]"
    by (simp add: wire_def list_update_append)
  then have alt: "altered TransportFault_corrupt_response f = wire_body f @ be32 (u32_of a b c (d XOR 1))"
    by (simp add: be32_u32_of)
  moreover have "u32_of a b c (d XOR 1) \<noteq> crc32 (wire_body f)"
    using crc byte_xor_1_neq [of d] be32_u32_of [of a b c "d XOR 1"] by auto
  ultimately show "decode (altered TransportFault_corrupt_response f) =
      Some (dec_fail CodecError_checksum_mismatch (length (wire f)))"
    using decode_bad_trailer [OF assms] by simp
qed

section \<open>One exchange\<close>

definition log_exchange :: "string \<Rightarrow> byte list \<Rightarrow> byte list \<Rightarrow> LoopbackTransport \<Rightarrow> LoopbackTransport" where
  "log_exchange outcome request response t =
     record_packet ''server_to_client'' outcome response (record_packet ''client_to_server'' ''sent'' request t)"

lemma log_exchange_simps [simp]:
  "loop_server (log_exchange out q r t) = loop_server t"
  "loop_connected (log_exchange out q r t) = loop_connected t"
  "loop_faults (log_exchange out q r t) = loop_faults t"
  "loop_next_sequence (log_exchange out q r t) = loop_next_sequence t + 2"
  "loop_trace (log_exchange out q r t) = loop_trace t @
     [\<lparr>trace_sequence = loop_next_sequence t, trace_direction = ''client_to_server'',
       trace_outcome = ''sent'', trace_bytes = q\<rparr>,
      \<lparr>trace_sequence = loop_next_sequence t + 1, trace_direction = ''server_to_client'',
       trace_outcome = out, trace_bytes = r\<rparr>]"
  by (simp_all add: log_exchange_def record_packet_def add.assoc)

abbreviation (input) failed_reply :: "TransportError \<Rightarrow> TransportReply" where
  "failed_reply e \<equiv> \<lparr>reply_error = e, reply_bytes = []\<rparr>"

text \<open>The fault that the next exchange meets, if the script has one.\<close>

definition next_fault :: "LoopbackTransport \<Rightarrow> TransportFault option" where
  "next_fault t = (case loop_faults t of [] \<Rightarrow> None | f # _ \<Rightarrow> Some f)"

definition outcome_of :: "HandleResult \<Rightarrow> string" where
  "outcome_of h = (if event_request_decoded (handle_event h) then event_detail (handle_event h) else ''rejected'')"

lemma exchange_failures:
  "\<not> loop_connected t \<Longrightarrow> loopback_exchange t q d = Some (failed_reply TransportError_not_connected, t)"
  "loop_connected t \<Longrightarrow> d \<le> 0 \<Longrightarrow> loopback_exchange t q d =
     Some (failed_reply TransportError_timeout, log_exchange ''deadline_expired'' q [] t)"
  "loop_connected t \<Longrightarrow> 0 < d \<Longrightarrow> next_fault t = Some TransportFault_timeout \<Longrightarrow> loopback_exchange t q d =
     Some (failed_reply TransportError_timeout,
       log_exchange ''timeout'' q [] (t\<lparr>loop_faults := tl (loop_faults t)\<rparr>))"
  "loop_connected t \<Longrightarrow> 0 < d \<Longrightarrow> next_fault t = Some TransportFault_disconnect \<Longrightarrow> loopback_exchange t q d =
     Some (failed_reply TransportError_disconnected,
       log_exchange ''disconnected'' q [] (t\<lparr>loop_faults := tl (loop_faults t), loop_connected := False\<rparr>))"
  by (auto simp: loopback_exchange_def log_exchange_def record_packet_def next_fault_def Let_def
      split: list.splits)

text \<open>An exchange that reaches the server: no fault, or one of the three that alter the response.\<close>

definition delivers :: "LoopbackTransport \<Rightarrow> bool" where
  "delivers t \<longleftrightarrow> next_fault t \<notin> {Some TransportFault_timeout, Some TransportFault_disconnect}"

definition received :: "LoopbackTransport \<Rightarrow> byte list \<Rightarrow> byte list option" where
  "received t response = alter_response (next_fault t \<noteq> None) (case next_fault t of None \<Rightarrow> TransportFault_timeout | Some f \<Rightarrow> f) response"

lemma received_simps [simp]:
  "received t [] = Some []"
  "next_fault t = None \<Longrightarrow> received t response = Some response"
  "next_fault t = Some fault \<Longrightarrow> valid_frame f \<Longrightarrow> received t (wire f) = Some (altered fault f)"
  by (simp_all add: received_def alter_response_wire)

lemma exchange_delivered:
  assumes "loop_connected t" and "0 < d" and "delivers t"
    and "handle (loop_server t) q = Some (h, s')" and "received t (handle_response h) = Some r"
  shows "loopback_exchange t q d = Some (\<lparr>reply_error = TransportError_none, reply_bytes = r\<rparr>,
    log_exchange (outcome_of h) q r (t\<lparr>loop_faults := tl (loop_faults t), loop_server := s'\<rparr>))"
  using assms
  by (auto simp: loopback_exchange_def log_exchange_def record_packet_def next_fault_def delivers_def
      received_def outcome_of_def Let_def split: list.splits)

text \<open>
  The state of a transport is good when its server's is and the trace is: packets come in pairs of a
  request and a reply, numbered consecutively up to the next number (which wraps like the 64-bit
  counter it is).
\<close>

fun paired :: "TraceRecord list \<Rightarrow> bool" where
  "paired [] \<longleftrightarrow> True"
| "paired [_] \<longleftrightarrow> False"
| "paired (q # r # rs) \<longleftrightarrow> trace_direction q = ''client_to_server'' \<and> trace_outcome q = ''sent'' \<and>
     trace_direction r = ''server_to_client'' \<and> paired rs"

fun numbered :: "u64 \<Rightarrow> TraceRecord list \<Rightarrow> u64 \<Rightarrow> bool" where
  "numbered k [] next \<longleftrightarrow> k = next"
| "numbered k (r # rs) next \<longleftrightarrow> trace_sequence r = k \<and> numbered (k + 1) rs next"

lemma paired_append: "paired xs \<Longrightarrow> paired ys \<Longrightarrow> paired (xs @ ys)"
  by (induction xs rule: paired.induct) auto

lemma numbered_append: "numbered k (xs @ ys) next \<longleftrightarrow> (\<exists>m. numbered k xs m \<and> numbered m ys next)"
  by (induction xs arbitrary: k) auto

definition trace_wf :: "LoopbackTransport \<Rightarrow> bool" where
  "trace_wf t \<longleftrightarrow> paired (loop_trace t) \<and>
     numbered (loop_next_sequence t - word_of_nat (length (loop_trace t))) (loop_trace t) (loop_next_sequence t)"

definition loop_inv :: "LoopbackTransport \<Rightarrow> bool" where
  "loop_inv t \<longleftrightarrow> server_inv (loop_server t) \<and> trace_wf t"

lemma trace_wf_log: "trace_wf t \<Longrightarrow> trace_wf (log_exchange out q r t)"
  by (auto simp: trace_wf_def numbered_append paired_append)

lemma trace_wf_update [simp]:
  "trace_wf (t\<lparr>loop_server := s\<rparr>) = trace_wf t" "trace_wf (t\<lparr>loop_connected := b\<rparr>) = trace_wf t"
  "trace_wf (t\<lparr>loop_faults := fs\<rparr>) = trace_wf t"
  by (simp_all add: trace_wf_def)

lemma loop_inv_new [simp]: "server_inv s \<Longrightarrow> loop_inv (LoopbackTransport_new s)"
  by (simp add: loop_inv_def LoopbackTransport_new_def trace_wf_def)

lemma loop_inv_clear_trace: "loop_inv t \<Longrightarrow> loop_inv (clear_trace t)"
  by (simp add: loop_inv_def clear_trace_def trace_wf_def)

lemma loop_inv_push_fault: "loop_inv t \<Longrightarrow> loop_inv (push_fault f t)"
  by (simp add: loop_inv_def push_fault_def)

lemma loop_inv_connect: "loop_inv t \<Longrightarrow> loop_inv (snd (loopback_connect t))"
  by (simp add: loop_inv_def loopback_connect_def)

lemma loop_inv_close: "loop_inv t \<Longrightarrow> loop_inv (loopback_close t)"
  by (simp add: loop_inv_def loopback_close_def)

lemmas loop_inv_keep = loop_inv_clear_trace loop_inv_push_fault loop_inv_connect loop_inv_close

lemma received_total:
  assumes "server_inv s" and "handle s q = Some (h, s')"
  obtains r where "received t (handle_response h) = Some r"
proof (cases "next_fault t")
  case (Some fault)
  with that show thesis using srv.response_shape [OF assms] by fastforce
qed (use that in simp)

lemma exchange_cases:
  assumes inv: "server_inv (loop_server t)"
  obtains (offline) "\<not> loop_connected t"
      "loopback_exchange t q d = Some (failed_reply TransportError_not_connected, t)"
  | (expired) "loop_connected t" "d \<le> 0"
      "loopback_exchange t q d = Some (failed_reply TransportError_timeout, log_exchange ''deadline_expired'' q [] t)"
  | (timed_out) "loop_connected t" "0 < d" "next_fault t = Some TransportFault_timeout"
      "loopback_exchange t q d = Some (failed_reply TransportError_timeout,
        log_exchange ''timeout'' q [] (t\<lparr>loop_faults := tl (loop_faults t)\<rparr>))"
  | (dropped) "loop_connected t" "0 < d" "next_fault t = Some TransportFault_disconnect"
      "loopback_exchange t q d = Some (failed_reply TransportError_disconnected,
        log_exchange ''disconnected'' q [] (t\<lparr>loop_faults := tl (loop_faults t), loop_connected := False\<rparr>))"
  | (delivered) h s' r where "loop_connected t" "0 < d" "delivers t" "server_inv s'"
      "handle (loop_server t) q = Some (h, s')" "received t (handle_response h) = Some r"
      "loopback_exchange t q d = Some (\<lparr>reply_error = TransportError_none, reply_bytes = r\<rparr>,
        log_exchange (outcome_of h) q r (t\<lparr>loop_faults := tl (loop_faults t), loop_server := s'\<rparr>))"
proof -
  obtain h s' where h: "handle (loop_server t) q = Some (h, s')" "server_inv s'"
    using srv.handler_total [OF inv] by blast
  obtain r where r: "received t (handle_response h) = Some r"
    using received_total [OF inv h(1)] .
  show thesis
    using that(1) [OF _ exchange_failures(1)]
      that(2) [OF _ _ exchange_failures(2)] that(3) [OF _ _ _ exchange_failures(3)]
      that(4) [OF _ _ _ exchange_failures(4)] that(5) [OF _ _ _ h(2,1) r exchange_delivered [OF _ _ _ h(1) r]]
    by (auto simp: delivers_def not_le [symmetric])
qed

section \<open>The transport as an interface\<close>

text \<open>
  What the client relies on. \<open>sent\<close> observes the requests handed over for transmission: one per
  exchange on a connected transport, none by connecting or closing. A reply of a connected transport
  is never \<open>not_connected\<close>.
\<close>

locale transport_service =
  fixes tr :: "'t ITransport" and tinv :: "'t \<Rightarrow> bool" and sent :: "'t \<Rightarrow> byte list list"
  assumes connect_law: "tinv t \<Longrightarrow> transport_connect tr t = (ok, t') \<Longrightarrow>
      tinv t' \<and> sent t' = sent t \<and> (ok \<longrightarrow> transport_connected tr t')"
    and close_law: "tinv t \<Longrightarrow> tinv (transport_close tr t) \<and> sent (transport_close tr t) = sent t \<and>
      \<not> transport_connected tr (transport_close tr t)"
    and exchange_total: "tinv t \<Longrightarrow> \<exists>reply t'. transport_exchange tr t q d = Some (reply, t') \<and> tinv t'"
    and exchange_sent: "tinv t \<Longrightarrow> transport_connected tr t \<Longrightarrow>
      transport_exchange tr t q d = Some (reply, t') \<Longrightarrow>
      sent t' = sent t @ [q] \<and> reply_error reply \<noteq> TransportError_not_connected"
begin

lemma exchange_inv: "tinv t \<Longrightarrow> transport_exchange tr t q d = Some (reply, t') \<Longrightarrow> tinv t'"
  using exchange_total [of t q d] by auto

end

definition sent_requests :: "LoopbackTransport \<Rightarrow> byte list list" where
  "sent_requests t = map trace_bytes (filter (\<lambda>r. trace_direction r = ''client_to_server'') (loop_trace t))"

lemma sent_requests_simps [simp]:
  "sent_requests (log_exchange out q r t) = sent_requests t @ [q]"
  "sent_requests (t\<lparr>loop_server := s\<rparr>) = sent_requests t"
  "sent_requests (t\<lparr>loop_connected := b\<rparr>) = sent_requests t"
  "sent_requests (t\<lparr>loop_faults := fs\<rparr>) = sent_requests t"
  by (simp_all add: sent_requests_def)

lemma loopback_exchange_inv: "loop_inv t \<Longrightarrow> loopback_exchange t q d = Some (reply, t') \<Longrightarrow> loop_inv t'"
  by (cases rule: exchange_cases [of t q d]) (auto simp: loop_inv_def trace_wf_log)

interpretation loop: transport_service loopback loop_inv sent_requests
proof (unfold_locales, goal_cases)
  case (1 t ok t')
  then show ?case
    using loop_inv_connect [of t] by (auto simp: loopback_connect_def loopback_connected_def)
next
  case (2 t)
  then show ?case
    using loop_inv_close [of t] by (auto simp: loopback_close_def loopback_connected_def)
next
  case (3 t q d)
  then have "server_inv (loop_server t)" by (simp add: loop_inv_def)
  then obtain reply t' where "loopback_exchange t q d = Some (reply, t')"
    by (cases rule: exchange_cases [of t q d]) auto
  with 3 loopback_exchange_inv show ?case by auto
next
  case (4 t q d reply t')
  then have "server_inv (loop_server t)" by (simp add: loop_inv_def)
  then show ?case
    using 4 by (cases rule: exchange_cases [of t q d]) (auto simp: loopback_connected_def)
qed

text \<open>The contract holds with any further invariant that connections and exchanges keep.\<close>

lemma loopback_service_with:
  assumes "\<And>t b. Q t \<Longrightarrow> Q (t\<lparr>loop_connected := b\<rparr>)"
    and "\<And>t q d reply t'. loop_inv t \<Longrightarrow> Q t \<Longrightarrow> loopback_exchange t q d = Some (reply, t') \<Longrightarrow> Q t'"
  shows "transport_service loopback (\<lambda>t. loop_inv t \<and> Q t) sent_requests"
proof (unfold_locales, goal_cases)
  case (1 t ok t')
  then show ?case using loop.connect_law [of t ok t'] assms(1) by (auto simp: loopback_connect_def)
next
  case (2 t)
  then show ?case using loop.close_law [of t] assms(1) by (auto simp: loopback_close_def)
next
  case (3 t q d)
  then obtain reply t' where "transport_exchange loopback t q d = Some (reply, t')" "loop_inv t'"
    using loop.exchange_total [of t q d] by blast
  with 3 assms(2) [of t q d reply t'] show ?case by auto
next
  case (4 t q d reply t')
  then show ?case using loop.exchange_sent [of t q d reply t'] by blast
qed

section \<open>Properties\<close>

text \<open>
  C24. Every exchange of the loopback returns, whatever the bytes, the deadline and the fault script: no
  undefined behaviour in any branch. It consumes exactly one scripted fault when it is connected and
  the deadline is positive and none otherwise, loses the connection exactly on a \<open>disconnect\<close> fault,
  and keeps the memory size and the write policy.
\<close>

theorem exchange_consumes_one_fault:
  assumes "length (mm_bytes (server_memory (loop_server t))) = 4096"
  shows "\<exists>reply t'. loopback_exchange t q d = Some (reply, t') \<and>
    loop_faults t' = (if loop_connected t \<and> 0 < d then tl (loop_faults t) else loop_faults t) \<and>
    loop_connected t' = (loop_connected t \<and> \<not> (0 < d \<and> loop_faults t \<noteq> [] \<and>
      hd (loop_faults t) = TransportFault_disconnect)) \<and>
    length (mm_bytes (server_memory (loop_server t'))) = 4096 \<and>
    server_policy (loop_server t') = server_policy (loop_server t)"
proof -
  have inv: "server_inv (loop_server t)" using assms by (simp add: server_inv_def memory_inv_def)
  then show ?thesis
  proof (cases rule: exchange_cases [of t q d])
    case (delivered h s' r)
    then have "server_policy s' = server_policy (loop_server t)"
      using srv_guard.step_view [OF inv] by auto
    with delivered show ?thesis
      by (auto simp: delivers_def next_fault_def server_inv_def memory_inv_def split: list.splits)
  qed (use assms in \<open>auto simp: next_fault_def split: list.splits\<close>)
qed

theorem exchange_consumes_one_fault_witness:
  "\<exists>reply t'. loopback_exchange ((LoopbackTransport_new (fresh_server ServerPolicy_default))
      \<lparr>loop_connected := True, loop_faults := [TransportFault_disconnect, TransportFault_timeout]\<rparr>) vector_bytes 10 =
      Some (reply, t') \<and> loop_faults t' = [TransportFault_timeout] \<and> \<not> loop_connected t'"
  using exchange_consumes_one_fault
    [of "(LoopbackTransport_new (fresh_server ServerPolicy_default))
      \<lparr>loop_connected := True, loop_faults := [TransportFault_disconnect, TransportFault_timeout]\<rparr>" vector_bytes 10]
  by (auto simp: LoopbackTransport_new_def)

text \<open>
  A transport error means the request did not reach the server: the reply carries no bytes and the
  server, memory included, is exactly as before, so a caller that repeats the request repeats no effect.
\<close>

lemma failed_exchange_leaves_server:
  assumes "loopback_exchange t q d = Some (reply, t')" and "\<not> reply_ok reply"
  shows "loop_server t' = loop_server t \<and> reply_bytes reply = []"
  using assms
  by (auto simp: loopback_exchange_def reply_ok_def record_packet_def Let_def bind_eq_Some_conv split: if_splits)

text \<open>
  C19. The response faults, end to end through the codec. For a request that decodes, the server acts as
  it would without the fault, and the damaged response is always recognisable: a truncated one decodes
  to \<open>truncated\<close>, a corrupted one to \<open>checksum_mismatch\<close>, and a misdirected one to the server's own
  response with the request ID increased by one (modulo \<open>2^32\<close>) and nothing else changed.
\<close>

theorem response_faults_are_recognisable:
  assumes "length (mm_bytes (server_memory (loop_server t))) = 4096" and "loop_connected t" and "0 < d"
    and "loop_faults t = fault # rest" and "fault \<notin> {TransportFault_timeout, TransportFault_disconnect}"
    and "decode q = Some dq" and "dec_ok dq"
    and "handle (loop_server t) q = Some (h, s')" and "decode (handle_response h) = Some dr" and "dec_frame dr = Some f"
  shows "\<exists>bytes t' r. loopback_exchange t q d = Some (\<lparr>reply_error = TransportError_none, reply_bytes = bytes\<rparr>, t') \<and>
    loop_server t' = s' \<and> decode bytes = Some r \<and>
    dec_error r = (case fault of TransportFault_truncate_response \<Rightarrow> CodecError_truncated
      | TransportFault_corrupt_response \<Rightarrow> CodecError_checksum_mismatch | _ \<Rightarrow> CodecError_none) \<and>
    dec_frame r = (if fault = TransportFault_wrong_request_id
      then Some (f\<lparr>frame_request_id := frame_request_id f + 1\<rparr>) else None)"
proof -
  have f: "valid_frame f" "handle_response h = wire f"
    using decode_accepts_iff [of "handle_response h" f] assms(9,10) by auto
  have fault: "next_fault t = Some fault" "delivers t"
    using assms(4,5) by (simp_all add: next_fault_def delivers_def)
  then have "received t (handle_response h) = Some (altered fault f)"
    using f by simp
  from exchange_delivered [OF assms(2,3) fault(2) assms(8) this] show ?thesis
    using assms(5) decode_altered [OF f(1)]
    by (cases fault) (auto simp: wrong_id_def dec_fail_def)
qed

theorem response_faults_are_recognisable_witness:
  "\<exists>bytes t' r. loopback_exchange ((LoopbackTransport_new (fresh_server ServerPolicy_default))
      \<lparr>loop_connected := True, loop_faults := [TransportFault_corrupt_response]\<rparr>) vector_bytes 10 =
      Some (\<lparr>reply_error = TransportError_none, reply_bytes = bytes\<rparr>, t') \<and>
     loop_server t' = fresh_server ServerPolicy_default \<and> decode bytes = Some r \<and>
     dec_error r = CodecError_checksum_mismatch"
proof -
  let ?t = "(LoopbackTransport_new (fresh_server ServerPolicy_default))
      \<lparr>loop_connected := True, loop_faults := [TransportFault_corrupt_response]\<rparr>"
  have q: "decode vector_bytes = Some \<lparr>dec_frame = Some vector_frame, dec_error = CodecError_none,
      dec_consumed = length (wire vector_frame)\<rparr>"
    using decode_wire [OF valid_vector_frame] by (simp only: wire_vector_frame)
  have h: "handle (loop_server ?t) vector_bytes =
      Some (success_event vector_frame (vector_response, ''read_ok''), fresh_server ServerPolicy_default)"
    by (simp add: handle_vector_bytes LoopbackTransport_new_def)
  have r: "decode (handle_response (success_event vector_frame (vector_response, ''read_ok''))) =
      Some \<lparr>dec_frame = Some vector_response, dec_error = CodecError_none, dec_consumed = length (wire vector_response)\<rparr>"
    using decode_wire [OF valid_vector_response] by (simp add: success_event_def)
  from response_faults_are_recognisable
      [OF _ _ _ _ _ q _ h r, of 10 TransportFault_corrupt_response "[]" vector_response]
  show ?thesis by (auto simp: LoopbackTransport_new_def dec_ok_def)
qed

text \<open>
  Packet trace: an exchange on a connected transport appends exactly two records, the request bytes
  as given and then exactly the bytes handed back to the caller, with consecutive sequence numbers
  taken from the transport's counter; an exchange on a closed transport appends none.
\<close>

lemma exchange_is_traced:
  assumes "loopback_exchange t q d = Some (reply, t')"
  shows "if loop_connected t
    then \<exists>outcome. trace t' = trace t @
      [\<lparr>trace_sequence = loop_next_sequence t, trace_direction = ''client_to_server'',
        trace_outcome = ''sent'', trace_bytes = q\<rparr>,
       \<lparr>trace_sequence = loop_next_sequence t + 1, trace_direction = ''server_to_client'',
        trace_outcome = outcome, trace_bytes = reply_bytes reply\<rparr>] \<and>
      loop_next_sequence t' = loop_next_sequence t + 2
    else trace t' = trace t \<and> loop_next_sequence t' = loop_next_sequence t"
  using assms
  by (auto simp: loopback_exchange_def trace_def record_packet_def Let_def bind_eq_Some_conv add.assoc
      split: if_splits)

end
