(* ===== verification/Client.thy ===== *)
theory Client
  imports Transport
begin

text \<open>
  The client of \<open>include/imlp/client.hpp\<close> and \<open>src/client.cpp\<close>: request IDs, bounded retries of
  reads, single-attempt writes, response correlation and metrics. The client holds a reference to an
  \<open>ITransport\<close>: the virtual functions are the argument \<open>tr\<close> of its operations, and the state of the
  object they act on is the field \<open>client_transport\<close>.
\<close>

section \<open>Definitions\<close>

datatype ClientError =
  ClientError_none | ClientError_invalid_argument | ClientError_connect_failed | ClientError_timeout
  | ClientError_disconnected | ClientError_encoding_failed | ClientError_malformed_response
  | ClientError_correlation_mismatch | ClientError_unexpected_response | ClientError_remote_error

record ClientOptions =
  maximum_read_attempts :: size_t

definition ClientOptions_default :: ClientOptions where
  "ClientOptions_default = \<lparr>maximum_read_attempts = 2\<rparr>"

record ClientMetrics =
  operations :: u64
  transport_attempts :: u64
  reconnects :: u64
  retries :: u64
  timeouts :: u64
  protocol_errors :: u64

definition ClientMetrics_default :: ClientMetrics where
  "ClientMetrics_default = \<lparr>operations = 0, transport_attempts = 0, reconnects = 0, retries = 0,
     timeouts = 0, protocol_errors = 0\<rparr>"

record OperationResult =
  op_error :: ClientError
  op_remote_status :: Status
  op_request_id :: u32
  op_attempts :: size_t
  op_data :: "byte list"
  op_detail :: string

definition OperationResult_default :: OperationResult where
  "OperationResult_default = \<lparr>op_error = ClientError_none, op_remote_status = Status_ok,
     op_request_id = 0, op_attempts = 0, op_data = [], op_detail = []\<rparr>"

definition op_ok :: "OperationResult \<Rightarrow> bool" where
  "op_ok result \<longleftrightarrow> op_error result = ClientError_none"

record 't Client =
  client_transport :: 't
  client_options :: ClientOptions
  client_metrics :: ClientMetrics
  next_request_id :: u32

definition Client_new :: "'t \<Rightarrow> ClientOptions \<Rightarrow> 't Client" where
  "Client_new transport options =
     \<lparr>client_transport = transport,
      client_options = options\<lparr>maximum_read_attempts := max 1 (maximum_read_attempts options)\<rparr>,
      client_metrics = ClientMetrics_default, next_request_id = 1\<rparr>"

text \<open>\<open>++metrics_.field\<close>: the counter is named by its update function.\<close>

definition bump :: "((u64 \<Rightarrow> u64) \<Rightarrow> ClientMetrics \<Rightarrow> ClientMetrics) \<Rightarrow> 't Client \<Rightarrow> 't Client" where
  "bump field c = c\<lparr>client_metrics := field (\<lambda>n. n + 1) (client_metrics c)\<rparr>"

definition metrics :: "'t Client \<Rightarrow> ClientMetrics" where
  "metrics c = client_metrics c"

definition allocate_request_id :: "'t Client \<Rightarrow> u32 \<times> 't Client" where
  "allocate_request_id c =
     (let allocated = next_request_id c; next = allocated + 1
      in (allocated, c\<lparr>next_request_id := (if next = 0 then 1 else next)\<rparr>))"

definition ensure_connected :: "'t ITransport \<Rightarrow> 't Client \<Rightarrow> bool \<times> 't Client" where
  "ensure_connected tr c =
     (if transport_connected tr (client_transport c) then (True, c)
      else let c = bump reconnects_update c; (ok, t) = transport_connect tr (client_transport c)
           in (ok, c\<lparr>client_transport := t\<rparr>))"

definition validate_response ::
    "Frame \<Rightarrow> byte list \<Rightarrow> Opcode \<Rightarrow> size_t \<Rightarrow> size_t \<Rightarrow> 't Client \<Rightarrow> (OperationResult \<times> 't Client) option" where
  "validate_response request response expected_opcode expected_length attempts c = do {
     result \<leftarrow> decode response;
     if \<not> dec_ok result \<or> dec_frame result = None
     then Some (OperationResult_default\<lparr>op_error := ClientError_malformed_response,
                  op_request_id := frame_request_id request, op_attempts := attempts,
                  op_detail := codec_error_name (dec_error result)\<rparr>, bump protocol_errors_update c)
     else do {
       frame \<leftarrow> dec_frame result;
       if frame_request_id frame \<noteq> frame_request_id request \<or> frame_address frame \<noteq> frame_address request
       then Some (OperationResult_default\<lparr>op_error := ClientError_correlation_mismatch,
                    op_remote_status := frame_status frame, op_request_id := frame_request_id request,
                    op_attempts := attempts,
                    op_detail := ''response request ID or address did not match''\<rparr>,
                  bump protocol_errors_update c)
       else if frame_opcode frame = Opcode_error_response
       then Some (OperationResult_default\<lparr>op_error := ClientError_remote_error,
                    op_remote_status := frame_status frame, op_request_id := frame_request_id request,
                    op_attempts := attempts, op_data := frame_payload frame,
                    op_detail := ''remote request rejected''\<rparr>, c)
       else if frame_opcode frame \<noteq> expected_opcode \<or> size_of (frame_payload frame) \<noteq> expected_length
       then Some (OperationResult_default\<lparr>op_error := ClientError_unexpected_response,
                    op_remote_status := frame_status frame, op_request_id := frame_request_id request,
                    op_attempts := attempts,
                    op_detail := ''response opcode or payload length did not match''\<rparr>,
                  bump protocol_errors_update c)
       else Some (OperationResult_default\<lparr>op_error := ClientError_none,
                    op_remote_status := frame_status frame, op_request_id := frame_request_id request,
                    op_attempts := attempts, op_data := frame_payload frame, op_detail := ''ok''\<rparr>, c)
     }
   }"

text \<open>
  The retry loop of \<open>execute_read\<close> at the head of its test. \<open>attempt\<close> is a \<open>std::size_t\<close>: the
  increment cannot pass the maximum, so the loop ends even for \<open>maximum_read_attempts = SIZE_MAX\<close>,
  where its test alone never fails.
\<close>

lemma ensure_connected_options:
  "(ok, c') = ensure_connected tr c \<Longrightarrow> client_options c' = client_options c"
  by (auto simp: ensure_connected_def bump_def split_beta Let_def split: if_splits)

function (sequential) read_loop ::
    "'t ITransport \<Rightarrow> Frame \<Rightarrow> byte list \<Rightarrow> size_t \<Rightarrow> milliseconds \<Rightarrow> size_t \<Rightarrow> 't Client \<Rightarrow>
     (OperationResult \<times> 't Client) option" where
  "read_loop tr request encoded_bytes expected_length deadline attempt c =
     (if attempt \<le> maximum_read_attempts (client_options c)
      then let (is_connected, c1) = ensure_connected tr c in
        if \<not> is_connected
        then Some (OperationResult_default\<lparr>op_error := ClientError_connect_failed,
                     op_request_id := frame_request_id request, op_attempts := attempt,
                     op_detail := ''transport connect failed''\<rparr>, c1)
        else let c2 = bump transport_attempts_update c1 in
          case transport_exchange tr (client_transport c2) encoded_bytes deadline of
            None \<Rightarrow> None
          | Some (reply, t) \<Rightarrow> let c3 = c2\<lparr>client_transport := t\<rparr> in
              if reply_ok reply
              then validate_response request (reply_bytes reply) Opcode_data_response expected_length attempt c3
              else
                let c4 = (if reply_error reply = TransportError_timeout then bump timeouts_update c3 else c3);
                    can_retry = (attempt < maximum_read_attempts (client_options c) \<and>
                      (reply_error reply = TransportError_timeout \<or> reply_error reply = TransportError_disconnected \<or>
                       reply_error reply = TransportError_not_connected));
                    c5 = c4\<lparr>client_transport := transport_close tr (client_transport c4)\<rparr>
                in if can_retry
                   then read_loop tr request encoded_bytes expected_length deadline (attempt + 1)
                          (bump retries_update c5)
                   else Some (OperationResult_default\<lparr>op_error :=
                            (if reply_error reply = TransportError_timeout then ClientError_timeout
                             else ClientError_disconnected),
                          op_request_id := frame_request_id request, op_attempts := attempt,
                          op_detail := transport_error_name (reply_error reply)\<rparr>, c5)
      else Some (OperationResult_default\<lparr>op_error := ClientError_disconnected,
                   op_request_id := frame_request_id request,
                   op_attempts := maximum_read_attempts (client_options c),
                   op_detail := ''read attempts exhausted''\<rparr>, c))"
  by pat_completeness auto

termination
proof (relation "measure (\<lambda>(tr, request, encoded_bytes, expected_length, deadline, attempt, c).
    unat (maximum_read_attempts (client_options c)) - unat attempt)", goal_cases)
  case 2
  then show ?case
    by (auto simp: bump_def intro: loop_measure dest!: ensure_connected_options)
qed simp

declare read_loop.simps [simp del]

definition execute_read ::
    "'t ITransport \<Rightarrow> Frame \<Rightarrow> size_t \<Rightarrow> milliseconds \<Rightarrow> 't Client \<Rightarrow> (OperationResult \<times> 't Client) option" where
  "execute_read tr request expected_length deadline c =
     (let encoded = encode request in
      if \<not> enc_ok encoded
      then Some (OperationResult_default\<lparr>op_error := ClientError_encoding_failed,
                   op_request_id := frame_request_id request,
                   op_detail := codec_error_name (enc_error encoded)\<rparr>, c)
      else read_loop tr request (enc_bytes encoded) expected_length deadline 1 c)"

definition execute_write ::
    "'t ITransport \<Rightarrow> Frame \<Rightarrow> milliseconds \<Rightarrow> 't Client \<Rightarrow> (OperationResult \<times> 't Client) option" where
  "execute_write tr request deadline c =
     (let encoded = encode request in
      if \<not> enc_ok encoded
      then Some (OperationResult_default\<lparr>op_error := ClientError_encoding_failed,
                   op_request_id := frame_request_id request,
                   op_detail := codec_error_name (enc_error encoded)\<rparr>, c)
      else let (is_connected, c1) = ensure_connected tr c in
        if \<not> is_connected
        then Some (OperationResult_default\<lparr>op_error := ClientError_connect_failed,
                     op_request_id := frame_request_id request, op_attempts := 1,
                     op_detail := ''transport connect failed''\<rparr>, c1)
        else let c2 = bump transport_attempts_update c1 in do {
          (reply, t) \<leftarrow> transport_exchange tr (client_transport c2) (enc_bytes encoded) deadline;
          let c3 = c2\<lparr>client_transport := t\<rparr>;
          if \<not> reply_ok reply
          then
            let c4 = (if reply_error reply = TransportError_timeout then bump timeouts_update c3 else c3);
                c5 = c4\<lparr>client_transport := transport_close tr (client_transport c4)\<rparr>
            in Some (OperationResult_default\<lparr>op_error :=
                   (if reply_error reply = TransportError_timeout then ClientError_timeout
                    else ClientError_disconnected),
                 op_request_id := frame_request_id request, op_attempts := 1,
                 op_detail := ''write not retried: '' @ transport_error_name (reply_error reply)\<rparr>, c5)
          else validate_response request (reply_bytes reply) Opcode_write_acknowledgement 0 1 c3
        })"

definition client_read ::
    "'t ITransport \<Rightarrow> u32 \<Rightarrow> size_t \<Rightarrow> milliseconds \<Rightarrow> 't Client \<Rightarrow> (OperationResult \<times> 't Client) option" where
  "client_read tr address len deadline c =
     (let c = bump operations_update c; (request_id, c) = allocate_request_id c in
      if len = 0 \<or> len > word_of_nat maximum_payload_size \<or> deadline \<le> 0
      then Some (OperationResult_default\<lparr>op_error := ClientError_invalid_argument,
                   op_request_id := request_id,
                   op_detail := ''read length and deadline must be positive and bounded''\<rparr>, c)
      else let wire_length = (ucast len :: u16);
               request = Frame_default\<lparr>frame_opcode := Opcode_read_request,
                 frame_request_id := request_id, frame_address := address,
                 frame_payload := [ucast (drop_bit 8 wire_length AND 0xFF), ucast (wire_length AND 0xFF)]\<rparr>
           in execute_read tr request len deadline c)"

definition client_write ::
    "'t ITransport \<Rightarrow> u32 \<Rightarrow> byte list \<Rightarrow> milliseconds \<Rightarrow> 't Client \<Rightarrow> (OperationResult \<times> 't Client) option" where
  "client_write tr address data deadline c =
     (let c = bump operations_update c; (request_id, c) = allocate_request_id c in
      if data = [] \<or> length data > maximum_payload_size \<or> deadline \<le> 0
      then Some (OperationResult_default\<lparr>op_error := ClientError_invalid_argument,
                   op_request_id := request_id,
                   op_detail := ''write payload and deadline must be positive and bounded''\<rparr>, c)
      else let request = Frame_default\<lparr>frame_opcode := Opcode_write_request,
                 frame_request_id := request_id, frame_address := address, frame_payload := data\<rparr>
           in execute_write tr request deadline c)"

fun client_error_name :: "ClientError \<Rightarrow> string" where
  "client_error_name ClientError_none = ''none''"
| "client_error_name ClientError_invalid_argument = ''invalid_argument''"
| "client_error_name ClientError_connect_failed = ''connect_failed''"
| "client_error_name ClientError_timeout = ''timeout''"
| "client_error_name ClientError_disconnected = ''disconnected''"
| "client_error_name ClientError_encoding_failed = ''encoding_failed''"
| "client_error_name ClientError_malformed_response = ''malformed_response''"
| "client_error_name ClientError_correlation_mismatch = ''correlation_mismatch''"
| "client_error_name ClientError_unexpected_response = ''unexpected_response''"
| "client_error_name ClientError_remote_error = ''remote_error''"

section \<open>Requests\<close>

text \<open>The frames the client sends, and its state once an operation has taken its request ID.\<close>

definition read_frame :: "u32 \<Rightarrow> u32 \<Rightarrow> size_t \<Rightarrow> Frame" where
  "read_frame i a n = \<lparr>frame_version = 1, frame_opcode = Opcode_read_request, frame_flags = 0,
     frame_request_id = i, frame_address = a, frame_status = Status_ok, frame_payload = be16 (ucast n)\<rparr>"

definition write_frame :: "u32 \<Rightarrow> u32 \<Rightarrow> byte list \<Rightarrow> Frame" where
  "write_frame i a data = \<lparr>frame_version = 1, frame_opcode = Opcode_write_request, frame_flags = 0,
     frame_request_id = i, frame_address = a, frame_status = Status_ok, frame_payload = data\<rparr>"

lemma request_frame_simps [simp]:
  "frame_request_id (read_frame i a n) = i" "frame_address (read_frame i a n) = a"
  "frame_opcode (read_frame i a n) = Opcode_read_request" "frame_payload (read_frame i a n) = be16 (ucast n)"
  "frame_request_id (write_frame i a data) = i" "frame_address (write_frame i a data) = a"
  "frame_opcode (write_frame i a data) = Opcode_write_request" "frame_payload (write_frame i a data) = data"
  by (simp_all add: read_frame_def write_frame_def)

lemma valid_read_frame [simp]: "valid_frame (read_frame i a n)"
  by (simp add: read_frame_def valid_frame_def valid_semantics_def)

lemma valid_write_frame: "data \<noteq> [] \<Longrightarrow> length data \<le> 256 \<Longrightarrow> valid_frame (write_frame i a data)"
  by (simp add: write_frame_def valid_frame_def valid_semantics_def)

lemma requested_length_read_frame: "unat n \<le> 256 \<Longrightarrow> requested_length (read_frame i a n) = unat n"
proof -
  assume "unat n \<le> 256"
  then have n: "unat (ucast n :: u16) = unat n"
    by (simp add: unsigned_ucast_eq take_bit_nat_eq_self)
  obtain h l where hl: "be16 (ucast n) = [h, l]" by (simp add: be16_def)
  then have "ucast n = u16_of h l" by (simp add: be16_eq_iff)
  then have "unat (ucast n :: u16) = 256 * unat h + unat l" by (simp only: u16_of_def unat_two_bytes)
  with n hl show ?thesis by (simp add: requested_length_def)
qed

definition started :: "'t Client \<Rightarrow> 't Client" where
  "started c = snd (allocate_request_id (bump operations_update c))"

definition readable_args :: "size_t \<Rightarrow> milliseconds \<Rightarrow> bool" where
  "readable_args n d \<longleftrightarrow> 0 < unat n \<and> unat n \<le> 256 \<and> 0 < d"

definition writable_args :: "byte list \<Rightarrow> milliseconds \<Rightarrow> bool" where
  "writable_args data d \<longleftrightarrow> data \<noteq> [] \<and> length data \<le> 256 \<and> 0 < d"

lemma bump_simps [simp]:
  "client_transport (bump f c) = client_transport c" "client_options (bump f c) = client_options c"
  "next_request_id (bump f c) = next_request_id c"
  "client_metrics (bump f c) = f (\<lambda>n. n + 1) (client_metrics c)"
  by (simp_all add: bump_def)

lemma started_simps [simp]:
  "client_transport (started c) = client_transport c" "client_options (started c) = client_options c"
  "client_metrics (started c) = operations_update (\<lambda>n. n + 1) (client_metrics c)"
  "next_request_id (started c) = (if next_request_id c + 1 = 0 then 1 else next_request_id c + 1)"
  by (simp_all add: started_def allocate_request_id_def Let_def)

lemma client_read_eq:
  "client_read tr a n d c =
     (if readable_args n d
      then read_loop tr (read_frame (next_request_id c) a n) (wire (read_frame (next_request_id c) a n)) n d 1 (started c)
      else Some (OperationResult_default\<lparr>op_error := ClientError_invalid_argument,
        op_request_id := next_request_id c,
        op_detail := ''read length and deadline must be positive and bounded''\<rparr>, started c))"
proof -
  have args: "(n = 0 \<or> n > word_of_nat maximum_payload_size \<or> d \<le> 0) \<longleftrightarrow> \<not> readable_args n d"
    by (auto simp: readable_args_def word_less_nat_alt unat_gt_0)
  have frame: "Frame_default\<lparr>frame_opcode := Opcode_read_request, frame_request_id := i, frame_address := a,
      frame_payload := [ucast (drop_bit 8 (ucast n :: u16) AND 0xFF), ucast ((ucast n :: u16) AND 0xFF)]\<rparr> = read_frame i a n" for i
    by (simp add: read_frame_def Frame_default_def protocol_version_def be16_def)
  show ?thesis
    unfolding client_read_def execute_read_def Let_def args split_beta
    by (simp only: frame) (simp add: encode_wire enc_ok_def allocate_request_id_def started_def Let_def)
qed

lemma client_write_eq:
  "client_write tr a data d c =
     (if writable_args data d then execute_write tr (write_frame (next_request_id c) a data) d (started c)
      else Some (OperationResult_default\<lparr>op_error := ClientError_invalid_argument,
        op_request_id := next_request_id c,
        op_detail := ''write payload and deadline must be positive and bounded''\<rparr>, started c))"
  by (auto simp: client_write_def writable_args_def write_frame_def Frame_default_def protocol_version_def
      allocate_request_id_def started_def Let_def)

section \<open>Validation of a response\<close>

text \<open>The error a response leads to, in the order the code tests.\<close>

definition verdict :: "Frame \<Rightarrow> Opcode \<Rightarrow> size_t \<Rightarrow> byte list \<Rightarrow> ClientError" where
  "verdict request opcode n response =
     (case decoded response of
        None \<Rightarrow> ClientError_malformed_response
      | Some f \<Rightarrow>
          if frame_request_id f \<noteq> frame_request_id request \<or> frame_address f \<noteq> frame_address request
          then ClientError_correlation_mismatch
          else if frame_opcode f = Opcode_error_response then ClientError_remote_error
          else if frame_opcode f \<noteq> opcode \<or> size_of (frame_payload f) \<noteq> n then ClientError_unexpected_response
          else ClientError_none)"

definition counted_errors :: "ClientError set" where
  "counted_errors =
     {ClientError_malformed_response, ClientError_correlation_mismatch, ClientError_unexpected_response}"

text \<open>The result as a function of the response; the client's state only matters for the counter.\<close>

definition validated :: "Frame \<Rightarrow> byte list \<Rightarrow> Opcode \<Rightarrow> size_t \<Rightarrow> size_t \<Rightarrow> OperationResult" where
  "validated request response opcode n attempts =
     (let e = verdict request opcode n response in
      OperationResult_default\<lparr>op_error := e,
        op_remote_status := (case decoded response of None \<Rightarrow> Status_ok | Some f \<Rightarrow> frame_status f),
        op_request_id := frame_request_id request, op_attempts := attempts,
        op_data := (case decoded response of None \<Rightarrow> []
          | Some f \<Rightarrow> if e \<in> {ClientError_none, ClientError_remote_error} then frame_payload f else []),
        op_detail := (case e of
            ClientError_malformed_response \<Rightarrow> codec_error_name (dec_error (the (decode response)))
          | ClientError_correlation_mismatch \<Rightarrow> ''response request ID or address did not match''
          | ClientError_remote_error \<Rightarrow> ''remote request rejected''
          | ClientError_unexpected_response \<Rightarrow> ''response opcode or payload length did not match''
          | _ \<Rightarrow> ''ok'')\<rparr>)"

lemma validated_simps [simp]:
  "op_error (validated request response opcode n attempts) = verdict request opcode n response"
  "op_request_id (validated request response opcode n attempts) = frame_request_id request"
  "op_attempts (validated request response opcode n attempts) = attempts"
  "op_data (validated request response opcode n attempts) = (case decoded response of None \<Rightarrow> []
     | Some f \<Rightarrow> if verdict request opcode n response \<in> {ClientError_none, ClientError_remote_error}
       then frame_payload f else [])"
  "op_remote_status (validated request response opcode n attempts) =
     (case decoded response of None \<Rightarrow> Status_ok | Some f \<Rightarrow> frame_status f)"
  by (simp_all add: validated_def Let_def)

lemma validate_response_eq:
  "validate_response request response opcode n attempts c =
     Some (validated request response opcode n attempts,
       if verdict request opcode n response \<in> counted_errors then bump protocol_errors_update c else c)"
proof (cases response rule: decode_cases)
  case (accepted f)
  then have "decoded response = Some f" by (simp add: decoded_iff)
  with accepted show ?thesis
    by (simp add: validate_response_def validated_def verdict_def counted_errors_def dec_ok_def
        OperationResult_default_def Let_def)
next
  case (rejected e k)
  then have "decoded response = None" by (simp add: decoded_def dec_ok_def)
  with rejected show ?thesis
    by (simp add: validate_response_def validated_def verdict_def counted_errors_def dec_ok_def
        OperationResult_default_def Let_def)
qed

lemma verdict_not_transport:
  "verdict request opcode n response \<notin> {ClientError_invalid_argument, ClientError_connect_failed,
     ClientError_encoding_failed, ClientError_timeout, ClientError_disconnected}"
  by (simp add: verdict_def split: option.split)

section \<open>The client over any transport\<close>

text \<open>
  The part of the client's state that a transport interaction does not touch, and the counters it
  moves. The lemmas hold for every implementation of \<open>ITransport\<close> that keeps the contract.
\<close>

definition settings :: "'t Client \<Rightarrow> ClientOptions \<times> u32 \<times> u64" where
  "settings c = (client_options c, next_request_id c, operations (client_metrics c))"

lemma settings_update [simp]:
  "settings (c\<lparr>client_transport := t\<rparr>) = settings c"
  "settings (bump transport_attempts_update c) = settings c" "settings (bump reconnects_update c) = settings c"
  "settings (bump retries_update c) = settings c" "settings (bump timeouts_update c) = settings c"
  "settings (bump protocol_errors_update c) = settings c"
  by (simp_all add: settings_def)

definition attempted :: "'t Client \<Rightarrow> u64 \<times> u64" where
  "attempted c = (transport_attempts (client_metrics c), retries (client_metrics c))"

lemma attempted_update [simp]:
  "attempted (c\<lparr>client_transport := t\<rparr>) = attempted c"
  "attempted (bump transport_attempts_update c) = (fst (attempted c) + 1, snd (attempted c))"
  "attempted (bump retries_update c) = (fst (attempted c), snd (attempted c) + 1)"
  "attempted (bump reconnects_update c) = attempted c" "attempted (bump timeouts_update c) = attempted c"
  "attempted (bump protocol_errors_update c) = attempted c"
  by (simp_all add: attempted_def)

definition faulted :: "'t Client \<Rightarrow> u64" where
  "faulted c = protocol_errors (client_metrics c)"

lemma faulted_update [simp]:
  "faulted (c\<lparr>client_transport := t\<rparr>) = faulted c" "faulted (bump protocol_errors_update c) = faulted c + 1"
  "faulted (bump transport_attempts_update c) = faulted c" "faulted (bump retries_update c) = faulted c"
  "faulted (bump reconnects_update c) = faulted c" "faulted (bump timeouts_update c) = faulted c"
  by (simp_all add: faulted_def)

text \<open>The client after an exchange, and after it has given up on a failed one.\<close>

definition contacted :: "'t \<Rightarrow> 't Client \<Rightarrow> 't Client" where
  "contacted t c = (bump transport_attempts_update c)\<lparr>client_transport := t\<rparr>"

definition hung_up :: "'t ITransport \<Rightarrow> TransportReply \<Rightarrow> 't Client \<Rightarrow> 't Client" where
  "hung_up tr reply c =
     (if reply_error reply = TransportError_timeout then bump timeouts_update c else c)
       \<lparr>client_transport := transport_close tr (client_transport c)\<rparr>"

definition failure :: "TransportReply \<Rightarrow> ClientError" where
  "failure reply = (if reply_error reply = TransportError_timeout then ClientError_timeout else ClientError_disconnected)"

lemma contacted_simps [simp]:
  "client_transport (contacted t c) = t" "settings (contacted t c) = settings c"
  "attempted (contacted t c) = (fst (attempted c) + 1, snd (attempted c))" "faulted (contacted t c) = faulted c"
  by (simp_all add: contacted_def)

lemma hung_up_simps [simp]:
  "client_transport (hung_up tr reply c) = transport_close tr (client_transport c)"
  "settings (hung_up tr reply c) = settings c" "attempted (hung_up tr reply c) = attempted c"
  "faulted (hung_up tr reply c) = faulted c"
  by (simp_all add: hung_up_def)

lemma read_loop_no_link:
  assumes "attempt \<le> maximum_read_attempts (client_options c)" and "ensure_connected tr c = (False, c')"
  shows "read_loop tr q bytes n d attempt c =
    Some (OperationResult_default\<lparr>op_error := ClientError_connect_failed, op_request_id := frame_request_id q,
      op_attempts := attempt, op_detail := ''transport connect failed''\<rparr>, c')"
  using assms by (subst read_loop.simps) simp

lemma read_loop_contact:
  assumes "attempt \<le> maximum_read_attempts (client_options c)" and "ensure_connected tr c = (True, c')"
    and "transport_exchange tr (client_transport c') bytes d = Some (reply, t)"
    and "reply_error reply \<noteq> TransportError_not_connected"
  shows "read_loop tr q bytes n d attempt c =
    (if reply_ok reply
     then validate_response q (reply_bytes reply) Opcode_data_response n attempt (contacted t c')
     else if attempt < maximum_read_attempts (client_options c)
     then read_loop tr q bytes n d (attempt + 1) (bump retries_update (hung_up tr reply (contacted t c')))
     else Some (OperationResult_default\<lparr>op_error := failure reply, op_request_id := frame_request_id q,
       op_attempts := attempt, op_detail := transport_error_name (reply_error reply)\<rparr>,
       hung_up tr reply (contacted t c')))"
proof -
  have "reply_ok reply \<or> reply_error reply = TransportError_timeout \<or> reply_error reply = TransportError_disconnected"
    using assms(4) by (cases "reply_error reply") (auto simp: reply_ok_def)
  then show ?thesis
    using assms(1-3) by (subst read_loop.simps) (auto simp: contacted_def hung_up_def failure_def Let_def)
qed

lemma execute_write_contact:
  assumes "ensure_connected tr c = (True, c')"
    and "transport_exchange tr (client_transport c') (wire q) d = Some (reply, t)" and "valid_frame q"
  shows "execute_write tr q d c =
    (if reply_ok reply then validate_response q (reply_bytes reply) Opcode_write_acknowledgement 0 1 (contacted t c')
     else Some (OperationResult_default\<lparr>op_error := failure reply, op_request_id := frame_request_id q,
       op_attempts := 1, op_detail := ''write not retried: '' @ transport_error_name (reply_error reply)\<rparr>,
       hung_up tr reply (contacted t c')))"
  using assms by (simp add: execute_write_def encode_wire enc_ok_def contacted_def hung_up_def failure_def Let_def)

text \<open>
  What an operation that contacted the transport \<open>k\<close> times leaves behind, with \<open>first\<close> the number of
  its first attempt: every contact but the last was a retry, unless connecting failed in the end.
\<close>

definition after_contacts :: "('t \<Rightarrow> byte list list) \<Rightarrow> byte list \<Rightarrow> nat \<Rightarrow> nat \<Rightarrow> OperationResult \<Rightarrow>
    't Client \<Rightarrow> 't Client \<Rightarrow> bool" where
  "after_contacts sent bytes k first r c c' \<longleftrightarrow>
     sent (client_transport c') = sent (client_transport c) @ replicate k bytes \<and> settings c' = settings c \<and>
     faulted c' = faulted c + of_bool (op_error r \<in> counted_errors) \<and>
     (if op_error r = ClientError_connect_failed
      then unat (op_attempts r) = first + k \<and>
        attempted c' = (fst (attempted c) + word_of_nat k, snd (attempted c) + word_of_nat k)
      else 0 < k \<and> unat (op_attempts r) = first + k - 1 \<and>
        attempted c' = (fst (attempted c) + word_of_nat k, snd (attempted c) + word_of_nat (k - 1)))"

context transport_service
begin

lemma ensure_connected_cases:
  assumes "tinv (client_transport c)"
  obtains ok c' where "ensure_connected tr c = (ok, c')" "tinv (client_transport c')"
    "sent (client_transport c') = sent (client_transport c)" "settings c' = settings c"
    "attempted c' = attempted c" "faulted c' = faulted c" "ok \<longrightarrow> transport_connected tr (client_transport c')"
  using assms connect_law [OF assms surjective_pairing]
  by (intro that [of "fst (ensure_connected tr c)" "snd (ensure_connected tr c)"])
    (auto simp: ensure_connected_def split_beta Let_def)

text \<open>One contact with the transport: connect if necessary, exchange, close after a failure.\<close>

lemma contact_cases:
  assumes "tinv (client_transport c)"
  obtains (no_link) c' where "ensure_connected tr c = (False, c')" "tinv (client_transport c')"
      "sent (client_transport c') = sent (client_transport c)" "settings c' = settings c" "attempted c' = attempted c"
      "faulted c' = faulted c"
  | (contact) c' reply t where "ensure_connected tr c = (True, c')" "settings c' = settings c"
      "transport_exchange tr (client_transport c') bytes d = Some (reply, t)" "tinv t"
      "sent t = sent (client_transport c) @ [bytes]" "reply_error reply \<noteq> TransportError_not_connected"
      "attempted c' = attempted c" "faulted c' = faulted c"
proof -
  obtain ok c' where c': "ensure_connected tr c = (ok, c')" "tinv (client_transport c')"
    "sent (client_transport c') = sent (client_transport c)" "settings c' = settings c"
    "attempted c' = attempted c" "faulted c' = faulted c" "ok \<longrightarrow> transport_connected tr (client_transport c')"
    using ensure_connected_cases [OF assms] .
  obtain reply t where "transport_exchange tr (client_transport c') bytes d = Some (reply, t)" "tinv t"
    using exchange_total [OF c'(2)] by blast
  with c' that show thesis
    using exchange_sent [OF c'(2)] by (cases ok) auto
qed

lemma validate_inv:
  assumes "tinv (client_transport c)" and "settings c = settings c0"
    and "sent (client_transport c) = sent (client_transport c0) @ [bytes]"
    and "attempted c = (fst (attempted c0) + 1, snd (attempted c0))"
    and "faulted c = faulted c0"
  obtains r c' where "validate_response q response opcode n attempts c = Some (r, c')"
    "tinv (client_transport c')" "op_request_id r = frame_request_id q"
    "op_error r = verdict q opcode n response" "op_attempts r = attempts"
    "after_contacts sent bytes 1 (unat attempts) r c0 c'"
proof -
  let ?r = "validated q response opcode n attempts"
  have "op_error ?r \<noteq> ClientError_connect_failed"
    using verdict_not_transport [of q opcode n response] by simp
  with assms show thesis
    by (intro that [OF validate_response_eq]) (auto simp: after_contacts_def)
qed

lemma after_retry:
  assumes "after_contacts sent bytes k (unat (attempt + 1)) r c1 c'" and "attempt < m"
    and "sent (client_transport c1) = sent (client_transport c) @ [bytes]" and "settings c1 = settings c"
    and "attempted c1 = (fst (attempted c) + 1, snd (attempted c) + 1)" and "faulted c1 = faulted c"
  shows "after_contacts sent bytes (Suc k) (unat attempt) r c c'"
  using assms unat_plus_one [OF assms(2)]
  by (cases k) (auto simp: after_contacts_def add.assoc split: if_splits)

text \<open>One iteration: it ends the operation, or closes the transport and goes on with the next attempt.\<close>

lemma read_loop_iteration:
  assumes "tinv (client_transport c)" and "attempt \<le> maximum_read_attempts (client_options c)"
  obtains (finished) r c' k where "read_loop tr q bytes n d attempt c = Some (r, c')" "tinv (client_transport c')"
      "op_request_id r = frame_request_id q" "op_attempts r = attempt"
      "op_error r \<notin> {ClientError_invalid_argument, ClientError_encoding_failed}"
      "after_contacts sent bytes k (unat attempt) r c c'"
  | (again) c1 where "attempt < maximum_read_attempts (client_options c)"
      "read_loop tr q bytes n d attempt c = read_loop tr q bytes n d (attempt + 1) c1" "tinv (client_transport c1)"
      "sent (client_transport c1) = sent (client_transport c) @ [bytes]" "settings c1 = settings c"
      "attempted c1 = (fst (attempted c) + 1, snd (attempted c) + 1)" "faulted c1 = faulted c"
  using assms(1)
proof (cases rule: contact_cases [where bytes = bytes and d = d])
  case (no_link c')
  then show thesis
    using assms(2) by (intro finished [of _ _ 0]) (auto simp: read_loop_no_link after_contacts_def counted_errors_def OperationResult_default_def)
next
  case (contact c' reply t)
  note loop = read_loop_contact [OF assms(2) contact(1,3,6), of q n]
  let ?hung = "hung_up tr reply (contacted t c')"
  have hung: "tinv (client_transport ?hung)" "sent (client_transport ?hung) = sent (client_transport c) @ [bytes]"
    "settings ?hung = settings c" "attempted ?hung = (fst (attempted c) + 1, snd (attempted c))"
    "faulted ?hung = faulted c"
    using contact close_law [OF contact(4)] by simp_all
  show thesis
  proof (cases "reply_ok reply")
    case True
    obtain r c2 where "validate_response q (reply_bytes reply) Opcode_data_response n attempt (contacted t c') = Some (r, c2)"
      "tinv (client_transport c2)" "op_request_id r = frame_request_id q"
      "op_error r = verdict q Opcode_data_response n (reply_bytes reply)" "op_attempts r = attempt"
      "after_contacts sent bytes 1 (unat attempt) r c c2"
      by (rule validate_inv [of "contacted t c'" c bytes q "reply_bytes reply" Opcode_data_response n attempt])
        (use contact in auto)
    with True loop verdict_not_transport [of q Opcode_data_response n "reply_bytes reply"] show thesis
      by (intro finished [of r c2 1]) simp_all
  next
    case False
    then show thesis
      using loop hung again [of "bump retries_update ?hung"] finished [of _ ?hung 1]
      by (cases "attempt < maximum_read_attempts (client_options c)")
        (auto simp: after_contacts_def failure_def counted_errors_def OperationResult_default_def)
  qed
qed

lemma read_loop_outcome:
  assumes "tinv (client_transport c)" and "attempt \<le> maximum_read_attempts (client_options c)"
  shows "\<exists>r c' k. read_loop tr q bytes n d attempt c = Some (r, c') \<and> tinv (client_transport c') \<and>
    op_request_id r = frame_request_id q \<and> op_error r \<notin> {ClientError_invalid_argument, ClientError_encoding_failed} \<and>
    op_attempts r \<le> maximum_read_attempts (client_options c) \<and> after_contacts sent bytes k (unat attempt) r c c'"
  using assms
proof (induction "unat (maximum_read_attempts (client_options c)) - unat attempt" arbitrary: attempt c rule: less_induct)
  case less
  from less.prems show ?case
  proof (cases rule: read_loop_iteration [where q = q and bytes = bytes and n = n and d = d])
    case (finished r c' k)
    then show ?thesis using less.prems(2) by blast
  next
    case (again c1)
    have opt: "client_options c1 = client_options c" using again(5) by (simp add: settings_def)
    have "attempt + 1 \<le> maximum_read_attempts (client_options c)"
      using again(1) unat_plus_one [OF again(1)] by (simp add: word_le_nat_alt word_less_nat_alt)
    then obtain r c2 k where r: "read_loop tr q bytes n d (attempt + 1) c1 = Some (r, c2)"
      "tinv (client_transport c2)" "op_request_id r = frame_request_id q"
      "op_error r \<notin> {ClientError_invalid_argument, ClientError_encoding_failed}"
      "op_attempts r \<le> maximum_read_attempts (client_options c)"
      and after: "after_contacts sent bytes k (unat (attempt + 1)) r c1 c2"
      using less.hyps [of c1 "attempt + 1"] loop_measure [OF again(1)] again(3) opt by auto
    have "after_contacts sent bytes (Suc k) (unat attempt) r c c2"
      by (rule after_retry [OF after again(1,4,5,6,7)])
    with again(2) r show ?thesis by auto
  qed
qed

lemma execute_write_outcome:
  assumes "tinv (client_transport c)" and "valid_frame q"
  shows "\<exists>r c'. execute_write tr q d c = Some (r, c') \<and> tinv (client_transport c') \<and>
    op_request_id r = frame_request_id q \<and> op_error r \<notin> {ClientError_invalid_argument, ClientError_encoding_failed} \<and>
    op_attempts r = 1 \<and>
    after_contacts sent (wire q) (if op_error r = ClientError_connect_failed then 0 else 1) 1 r c c'"
  using assms(1)
proof (cases rule: contact_cases [where bytes = "wire q" and d = d])
  case (no_link c')
  then show ?thesis
    using assms(2) by (auto simp: execute_write_def encode_wire enc_ok_def after_contacts_def counted_errors_def OperationResult_default_def)
next
  case (contact c' reply t)
  note run = execute_write_contact [OF contact(1,3) assms(2)]
  show ?thesis
  proof (cases "reply_ok reply")
    case True
    obtain r c2 where "validate_response q (reply_bytes reply) Opcode_write_acknowledgement 0 1 (contacted t c') = Some (r, c2)"
      "tinv (client_transport c2)" "op_request_id r = frame_request_id q"
      "op_error r = verdict q Opcode_write_acknowledgement 0 (reply_bytes reply)" "op_attempts r = 1"
      "after_contacts sent (wire q) 1 (unat (1 :: size_t)) r c c2"
      by (rule validate_inv [of "contacted t c'" c "wire q" q "reply_bytes reply" Opcode_write_acknowledgement 0 1])
        (use contact in auto)
    with True run verdict_not_transport [of q Opcode_write_acknowledgement 0 "reply_bytes reply"] show ?thesis
      by simp
  next
    case False
    then show ?thesis
      using run contact close_law [OF contact(4)]
      by (auto simp: after_contacts_def failure_def counted_errors_def OperationResult_default_def)
  qed
qed

text \<open>The public operations, whatever their arguments.\<close>

lemma client_read_outcome:
  assumes "tinv (client_transport c)" and "1 \<le> maximum_read_attempts (client_options c)"
  obtains r c' k where "client_read tr a n d c = Some (r, c')" "tinv (client_transport c')"
    "op_request_id r = next_request_id c" "settings c' = settings (started c)"
    "op_error r = ClientError_invalid_argument \<longleftrightarrow> \<not> readable_args n d"
    "op_error r \<noteq> ClientError_encoding_failed"
    "sent (client_transport c') = sent (client_transport c) @ replicate k (wire (read_frame (next_request_id c) a n))"
    "op_attempts r \<le> maximum_read_attempts (client_options c)"
    "unat (op_attempts r) = (if op_error r = ClientError_connect_failed then k + 1 else k)"
    "attempted c' = (fst (attempted c) + word_of_nat k,
      snd (attempted c) + word_of_nat (if op_error r = ClientError_connect_failed then k else k - 1))"
    "k = 0 \<longrightarrow> op_error r \<in> {ClientError_invalid_argument, ClientError_connect_failed}"
    "faulted c' = faulted c + of_bool (op_error r \<in> counted_errors)"
proof (cases "readable_args n d")
  case True
  let ?q = "read_frame (next_request_id c) a n"
  obtain r c' k where r: "read_loop tr ?q (wire ?q) n d 1 (started c) = Some (r, c')" "tinv (client_transport c')"
    "op_request_id r = frame_request_id ?q"
    "op_error r \<notin> {ClientError_invalid_argument, ClientError_encoding_failed}"
    "op_attempts r \<le> maximum_read_attempts (client_options (started c))"
    and after: "after_contacts sent (wire ?q) k (unat (1 :: size_t)) r (started c) c'"
    using read_loop_outcome [of "started c" 1 ?q "wire ?q" n d] assms by auto
  from after have "attempted c' = (fst (attempted c) + word_of_nat k,
      snd (attempted c) + word_of_nat (if op_error r = ClientError_connect_failed then k else k - 1))"
    by (auto simp: after_contacts_def attempted_def split: if_splits)
  with True r after show thesis
    by (intro that [of r c' k]) (auto simp: client_read_eq after_contacts_def faulted_def split: if_splits)
next
  case False
  with assms show thesis
    by (intro that [of _ "started c" 0]) (auto simp: client_read_eq OperationResult_default_def attempted_def faulted_def counted_errors_def)
qed

lemma client_write_outcome:
  assumes "tinv (client_transport c)"
  obtains r c' where "client_write tr a data d c = Some (r, c')" "tinv (client_transport c')"
    "op_request_id r = next_request_id c" "settings c' = settings (started c)"
    "op_error r = ClientError_invalid_argument \<longleftrightarrow> \<not> writable_args data d"
    "op_error r \<noteq> ClientError_encoding_failed"
    "sent (client_transport c') = sent (client_transport c) @
      (if op_error r \<in> {ClientError_invalid_argument, ClientError_connect_failed} then []
       else [wire (write_frame (next_request_id c) a data)])"
    "op_attempts r = (if op_error r = ClientError_invalid_argument then 0 else 1)"
    "attempted c' = (fst (attempted c) +
      (if op_error r \<in> {ClientError_invalid_argument, ClientError_connect_failed} then 0 else 1), snd (attempted c))"
    "faulted c' = faulted c + of_bool (op_error r \<in> counted_errors)"
proof (cases "writable_args data d")
  case True
  let ?q = "write_frame (next_request_id c) a data"
  have "valid_frame ?q" using True by (simp add: writable_args_def valid_write_frame)
  then obtain r c' where r: "execute_write tr ?q d (started c) = Some (r, c')" "tinv (client_transport c')"
    "op_request_id r = frame_request_id ?q"
    "op_error r \<notin> {ClientError_invalid_argument, ClientError_encoding_failed}" "op_attempts r = 1"
    and after: "after_contacts sent (wire ?q) (if op_error r = ClientError_connect_failed then 0 else 1) 1 r (started c) c'"
    using execute_write_outcome [of "started c" ?q d] assms by auto
  with True show thesis
    by (intro that [of r c']) (auto simp: client_write_eq after_contacts_def attempted_def faulted_def split: if_splits)
next
  case False
  with assms show thesis
    by (intro that [of _ "started c"]) (auto simp: client_write_eq OperationResult_default_def attempted_def faulted_def counted_errors_def)
qed

end

section \<open>Sessions\<close>

text \<open>A program that uses a client calls its two operations in some order.\<close>

datatype client_call = Read u32 size_t milliseconds | Write u32 "byte list" milliseconds

fun client_step :: "'t ITransport \<Rightarrow> 't Client \<Rightarrow> client_call \<Rightarrow> (OperationResult \<times> 't Client) option" where
  "client_step tr c (Read a n d) = client_read tr a n d c"
| "client_step tr c (Write a data d) = client_write tr a data d c"

text \<open>Calls whose arguments the protocol cannot carry or whose deadline is not positive.\<close>

fun bad_call :: "client_call \<Rightarrow> bool" where
  "bad_call (Read a n d) \<longleftrightarrow> unat n = 0 \<or> 256 < unat n \<or> d \<le> 0"
| "bad_call (Write a data d) \<longleftrightarrow> length data = 0 \<or> 256 < length data \<or> d \<le> 0"

definition next_id :: "u32 \<Rightarrow> u32" where
  "next_id i = (if i + 1 = 0 then 1 else i + 1)"

text \<open>
  The books of a session that produced the results \<open>rs\<close>: the counters move (modulo \<open>2 ^ 64\<close>) by the
  calls made, the requests handed to the transport, the attempts after the first of each call and
  the responses that were rejected.
\<close>

definition accounted :: "('t \<Rightarrow> byte list list) \<Rightarrow> 't Client \<Rightarrow> OperationResult list \<Rightarrow> 't Client \<Rightarrow> bool" where
  "accounted sent c rs c' \<longleftrightarrow>
     (\<exists>packets. sent (client_transport c') = sent (client_transport c) @ packets \<and>
       transport_attempts (client_metrics c') = transport_attempts (client_metrics c) + word_of_nat (length packets)) \<and>
     operations (client_metrics c') = operations (client_metrics c) + word_of_nat (length rs) \<and>
     retries (client_metrics c') = retries (client_metrics c) + word_of_nat (\<Sum>r\<leftarrow>rs. unat (op_attempts r) - 1) \<and>
     protocol_errors (client_metrics c') = protocol_errors (client_metrics c) +
       word_of_nat (length (filter (\<lambda>r. op_error r \<in> counted_errors) rs))"

lemma accounted_Nil: "accounted sent c [] c"
  by (simp add: accounted_def)

lemma accounted_Cons:
  "accounted sent c [r] c1 \<Longrightarrow> accounted sent c1 rs c' \<Longrightarrow> accounted sent c (r # rs) c'"
  unfolding accounted_def by (elim conjE exE) (simp add: add.assoc)

context transport_service
begin

definition client_inv :: "'t Client \<Rightarrow> bool" where
  "client_inv c \<longleftrightarrow> tinv (client_transport c) \<and> 1 \<le> maximum_read_attempts (client_options c)"

lemma client_step_outcome:
  assumes "client_inv c"
  obtains r c' where "client_step tr c call = Some (r, c')" "client_inv c'"
    "op_request_id r = next_request_id c" "next_request_id c' = next_id (next_request_id c)"
    "accounted sent c [r] c'"
proof -
  have inv: "tinv (client_transport c)" "1 \<le> maximum_read_attempts (client_options c)"
    using assms by (simp_all add: client_inv_def)
  have "\<exists>r c'. client_step tr c call = Some (r, c') \<and> tinv (client_transport c') \<and>
    op_request_id r = next_request_id c \<and> settings c' = settings (started c) \<and> accounted sent c [r] c'"
  proof (cases call)
    case (Read a n d)
    show ?thesis
      unfolding Read client_step.simps
      by (rule client_read_outcome [OF inv, of a n d])
        (auto simp: accounted_def settings_def attempted_def faulted_def of_bool_def)
  next
    case (Write a data d)
    show ?thesis
      unfolding Write client_step.simps
      by (rule client_write_outcome [OF inv(1), of a data d])
        (auto simp: accounted_def settings_def attempted_def faulted_def of_bool_def)
  qed
  then obtain r c' where "client_step tr c call = Some (r, c')" "tinv (client_transport c')"
    "op_request_id r = next_request_id c" "settings c' = settings (started c)" "accounted sent c [r] c'" by blast
  with inv that show thesis by (simp add: client_inv_def settings_def next_id_def)
qed

lemma session_ids:
  assumes "client_inv c" and "run (client_step tr) c calls = Some (rs, c')"
  shows "map op_request_id rs = map (\<lambda>i. (next_id ^^ i) (next_request_id c)) [0..<length calls]"
  using assms
proof (induction calls arbitrary: c rs)
  case Nil
  then show ?case by simp
next
  case (Cons call calls)
  obtain r c1 where r: "client_step tr c call = Some (r, c1)" "client_inv c1"
    "op_request_id r = next_request_id c" "next_request_id c1 = next_id (next_request_id c)"
    by (rule client_step_outcome [OF Cons.prems(1)])
  with Cons.prems(2) obtain rs' where rs: "rs = r # rs'" "run (client_step tr) c1 calls = Some (rs', c')"
    by (auto simp: bind_eq_Some_conv)
  have "[0..<length (call # calls)] = 0 # map Suc [0..<length calls]"
    by (simp add: upt_conv_Cons map_Suc_upt del: upt_Suc)
  with r rs Cons.IH [OF r(2) rs(2)] show ?case
    by (simp add: funpow_swap1 del: upt_Suc)
qed

end

sublocale transport_service \<subseteq> sessions: machine "client_step tr" client_inv "\<lambda>_. True"
  by unfold_locales (meson client_step_outcome)

context transport_service
begin

lemma session_accounted:
  assumes "client_inv c" and "run (client_step tr) c calls = Some (rs, c')"
  shows "accounted sent c rs c'"
  using assms
proof (induction calls arbitrary: c rs)
  case Nil
  then show ?case by (simp add: accounted_Nil)
next
  case (Cons call calls)
  obtain r c1 where r: "client_step tr c call = Some (r, c1)" "client_inv c1" "accounted sent c [r] c1"
    by (rule client_step_outcome [OF Cons.prems(1)])
  with Cons.prems(2) obtain rs' where "rs = r # rs'" "run (client_step tr) c1 calls = Some (rs', c')"
    by (auto simp: bind_eq_Some_conv)
  with r Cons.IH show ?case by (blast intro: accounted_Cons)
qed

end

context transport_service
begin

lemma session_total:
  assumes "client_inv c"
  obtains rs c' where "run (client_step tr) c calls = Some (rs, c')" "length rs = length calls" "client_inv c'"
  using sessions.run_total [OF assms, of calls] by (auto simp: list_all_iff)

end

text \<open>The IDs run through 1 to \<open>2 ^ 32 - 1\<close> in order and start again.\<close>

lemma unat_next_id: "unat (next_id i) = (if unat i = 4294967295 then 1 else unat i + 1)"
proof -
  have "unat i < 4294967296" using unsigned_less [of i, where ?'a = nat] by simp
  moreover have "unat (i + 1) = (unat i + 1) mod 4294967296" by (simp add: unat_word_ariths)
  moreover have "i + 1 = 0 \<longleftrightarrow> unat (i + 1) = 0" by (simp only: unat_eq_0)
  ultimately show ?thesis by (auto simp: next_id_def)
qed

lemma next_id_funpow:
  assumes "i \<noteq> 0"
  shows "unat ((next_id ^^ k) i) = (unat i - 1 + k) mod 4294967295 + 1"
proof (induction k)
  case 0
  have "unat i < 4294967296" using unsigned_less [of i, where ?'a = nat] by simp
  moreover have "0 < unat i" using assms by (simp add: unat_gt_0)
  ultimately show ?case by simp
next
  case (Suc k)
  then show ?case by (simp add: unat_next_id mod_Suc)
qed

section \<open>Properties\<close>

text \<open>A client with default options over a new loopback to a new server.\<close>

definition fresh_client :: "ServerPolicy \<Rightarrow> LoopbackTransport Client" where
  "fresh_client p = Client_new (LoopbackTransport_new (fresh_server p)) ClientOptions_default"

lemma fresh_client_simps [simp]:
  "client_transport (fresh_client p) = LoopbackTransport_new (fresh_server p)"
  "maximum_read_attempts (client_options (fresh_client p)) = 2" "next_request_id (fresh_client p) = 1"
  "sent_requests (LoopbackTransport_new s) = []"
  by (simp_all add: fresh_client_def Client_new_def ClientOptions_default_def max_def sent_requests_def
      LoopbackTransport_new_def)

text \<open>
  C4. A write is sent at most once, over any transport that keeps the contract: it always returns, it
  hands the transport exactly one copy of its encoded request unless its arguments are invalid or
  connecting fails (then none), it reports no more than one attempt and never counts a retry.
\<close>

theorem write_is_sent_at_most_once:
  assumes "transport_service tr tinv sent" and "tinv (client_transport c)"
  shows "\<exists>r c'. client_write tr a data d c = Some (r, c') \<and>
    sent (client_transport c') = sent (client_transport c) @
      (if op_error r \<in> {ClientError_invalid_argument, ClientError_connect_failed} then []
       else [wire (write_frame (next_request_id c) a data)]) \<and>
    op_attempts r \<le> 1 \<and> retries (metrics c') = retries (metrics c) \<and> tinv (client_transport c')"
  by (rule transport_service.client_write_outcome [OF assms, of a data d])
    (auto simp: metrics_def attempted_def)

theorem write_is_sent_at_most_once_witness:
  "\<exists>r c'. client_write loopback 0x100 [0xAB] 10 (fresh_client ServerPolicy_default) = Some (r, c') \<and>
    length (sent_requests (client_transport c')) \<le> 1 \<and> op_attempts r \<le> 1"
  using write_is_sent_at_most_once [OF loop.transport_service_axioms, of "fresh_client ServerPolicy_default" "0x100" "[0xAB]" 10]
  by (auto split: if_splits)

text \<open>
  C10. Reads retry within their bound, over any transport that keeps the contract and for every
  maximum, \<open>SIZE_MAX\<close> included: a read always returns, after handing the transport some number of
  identical copies of one encoded request that never exceeds the configured maximum; the reported
  attempts and the attempt and retry counters (modulo \<open>2^64\<close>) agree with that number.
\<close>

theorem read_retries_are_bounded:
  assumes "transport_service tr tinv sent" and "tinv (client_transport c)"
    and "1 \<le> maximum_read_attempts (client_options c)"
  shows "\<exists>r c' k. client_read tr a n d c = Some (r, c') \<and> tinv (client_transport c') \<and>
    sent (client_transport c') = sent (client_transport c) @
      replicate k (wire (read_frame (next_request_id c) a n)) \<and>
    k \<le> unat (maximum_read_attempts (client_options c)) \<and>
    unat (op_attempts r) = (if op_error r = ClientError_connect_failed then k + 1 else k) \<and>
    op_attempts r \<le> maximum_read_attempts (client_options c) \<and>
    transport_attempts (metrics c') = transport_attempts (metrics c) + word_of_nat k \<and>
    retries (metrics c') = retries (metrics c) +
      word_of_nat (if op_error r = ClientError_connect_failed then k else k - 1)"
proof (rule transport_service.client_read_outcome [OF assms, of a n d], goal_cases)
  case (1 r c' k)
  then show ?case
    by (intro exI [of _ r] exI [of _ c'] exI [of _ k])
      (auto simp: metrics_def attempted_def word_le_nat_alt split: if_splits)
qed

theorem read_retries_are_bounded_witness:
  "\<exists>r c'. client_read loopback 0 16 10 (fresh_client ServerPolicy_default) = Some (r, c') \<and>
    length (sent_requests (client_transport c')) \<le> 2"
  using read_retries_are_bounded [OF loop.transport_service_axioms, of "fresh_client ServerPolicy_default" 0 16 10]
  by auto

text \<open>
  C14. Exactly the responses that answer the request are accepted: \<open>validate_response\<close> reports success
  with some data precisely when the bytes are the encoding of a frame with the request's ID and
  address, the expected opcode (no error response) and the expected payload length, and the data is
  that frame's payload.
\<close>

theorem validate_response_accepts_exactly:
  "(\<exists>r c'. validate_response request response opcode n attempts c = Some (r, c') \<and> op_ok r \<and> op_data r = data) \<longleftrightarrow>
   (\<exists>f. encode f = \<lparr>enc_bytes = response, enc_error = CodecError_none\<rparr> \<and>
     frame_request_id f = frame_request_id request \<and> frame_address f = frame_address request \<and>
     frame_opcode f = opcode \<and> opcode \<noteq> Opcode_error_response \<and> size_of (frame_payload f) = n \<and>
     frame_payload f = data)"
proof -
  have enc: "encode f = \<lparr>enc_bytes = response, enc_error = CodecError_none\<rparr> \<longleftrightarrow> decoded response = Some f" for f
    using enc_ok_encode_iff [of f] by (auto simp: decoded_iff enc_ok_def encode_wire)
  show ?thesis
    unfolding enc validate_response_eq by (cases "decoded response") (auto simp: op_ok_def verdict_def)
qed

text \<open>
  C25. Bad arguments are stopped in the client: an empty or oversized transfer or a deadline that is not
  positive is reported as \<open>invalid_argument\<close> for reads and writes alike, with no attempt and without
  touching the transport; such a call still takes a request ID and counts as an operation.
\<close>

theorem invalid_arguments_never_reach_transport:
  assumes "bad_call call"
  shows "\<exists>r c'. client_step tr c call = Some (r, c') \<and>
    op_error r = ClientError_invalid_argument \<and> op_attempts r = 0 \<and> op_request_id r = next_request_id c \<and>
    client_transport c' = client_transport c \<and> next_request_id c' = next_id (next_request_id c) \<and>
    metrics c' = (metrics c)\<lparr>operations := operations (metrics c) + 1\<rparr>"
  using assms
  by (cases call) (auto simp: client_read_eq client_write_eq readable_args_def writable_args_def
      OperationResult_default_def next_id_def metrics_def)

theorem invalid_arguments_never_reach_transport_witness:
  "\<exists>r c'. client_write loopback 0x100 [] 10 (fresh_client ServerPolicy_default) = Some (r, c') \<and>
     op_error r = ClientError_invalid_argument \<and>
     client_transport c' = LoopbackTransport_new (fresh_server ServerPolicy_default)"
  using invalid_arguments_never_reach_transport
    [of "Write 0x100 [] 10" loopback "fresh_client ServerPolicy_default"] by auto

text \<open>
  C21. Request IDs: in every session of reads and writes over any transport that keeps the contract,
  every call returns and the results carry the IDs 1, 2, 3 and so on up to \<open>2^32 - 1\<close>, then 1
  again. Zero, the ID of an event that belongs to no request, is never used.
\<close>

theorem session_request_ids_are_sequential:
  assumes "transport_service tr tinv sent" and "tinv t" and "c = Client_new t options"
  shows "\<exists>rs c'. run (client_step tr) c calls = Some (rs, c') \<and> length rs = length calls \<and>
    (\<forall>i < length calls. unat (op_request_id (rs ! i)) = i mod (2 ^ 32 - 1) + 1)"
proof -
  have inv: "transport_service.client_inv tinv c" and id: "next_request_id c = 1"
    using assms(2,3) by (simp_all add: transport_service.client_inv_def [OF assms(1)] Client_new_def)
  obtain rs c' where rs: "run (client_step tr) c calls = Some (rs, c')" "length rs = length calls"
    by (rule transport_service.session_total [OF assms(1) inv])
  have "op_request_id (rs ! i) = (next_id ^^ i) 1" if "i < length calls" for i
    using arg_cong [OF transport_service.session_ids [OF assms(1) inv rs(1)], of "\<lambda>xs. xs ! i"] that rs(2) id by simp
  then have "unat (op_request_id (rs ! i)) = i mod (2 ^ 32 - 1) + 1" if "i < length calls" for i
    using that next_id_funpow [of 1 i] by simp
  with rs show ?thesis by blast
qed

theorem session_request_ids_are_sequential_witness:
  "\<exists>rs c'. run (client_step loopback) (fresh_client ServerPolicy_default) [Read 0 4 10, Write 0x100 [1] 10, Read 0 0 10] =
      Some (rs, c') \<and> map (unat \<circ> op_request_id) rs = [1, 2, 3]"
proof -
  let ?calls = "[Read 0 4 10, Write 0x100 [1] 10, Read 0 0 10]"
  obtain rs c' where r: "run (client_step loopback) (fresh_client ServerPolicy_default) ?calls = Some (rs, c')"
    and ids: "length rs = 3" "\<forall>i < 3. unat (op_request_id (rs ! i)) = i mod (2 ^ 32 - 1) + 1"
    using session_request_ids_are_sequential [OF loop.transport_service_axioms, of "LoopbackTransport_new (fresh_server ServerPolicy_default)" _ ClientOptions_default ?calls]
    by (auto simp: fresh_client_def [symmetric] simp del: run.simps)
  from ids have "map (unat \<circ> op_request_id) rs = [1, 2, 3]"
    by (auto simp: list_eq_iff_nth_eq numeral_3_eq_3 less_Suc_eq)
  with r show ?thesis by (intro exI conjI)
qed

text \<open>
  C22. The metrics tell the truth: after any session of a new client over any transport that keeps the
  contract, \<open>operations\<close> is the number of calls, \<open>transport_attempts\<close> the number of requests handed to
  the transport, \<open>retries\<close> the number of attempts beyond the first of each call, and
  \<open>protocol_errors\<close> the number of results that report a malformed, misdirected or unexpected
  response, each modulo \<open>2^64\<close>.
\<close>

theorem session_metrics_are_accurate:
  assumes "transport_service tr tinv sent" and "tinv t" and "sent t = []" and "c = Client_new t options"
  shows "\<exists>rs c'. run (client_step tr) c calls = Some (rs, c') \<and>
    operations (metrics c') = word_of_nat (length calls) \<and>
    transport_attempts (metrics c') = word_of_nat (length (sent (client_transport c'))) \<and>
    retries (metrics c') = word_of_nat (\<Sum>r\<leftarrow>rs. unat (op_attempts r) - 1) \<and>
    protocol_errors (metrics c') = word_of_nat (length (filter (\<lambda>r. op_error r \<in>
      {ClientError_malformed_response, ClientError_correlation_mismatch, ClientError_unexpected_response}) rs))"
proof -
  have inv: "transport_service.client_inv tinv c"
    using assms(2,4) by (simp add: transport_service.client_inv_def [OF assms(1)] Client_new_def)
  obtain rs c' where rs: "run (client_step tr) c calls = Some (rs, c')" "length rs = length calls"
    by (rule transport_service.session_total [OF assms(1) inv])
  have "accounted sent c rs c'" by (rule transport_service.session_accounted [OF assms(1) inv rs(1)])
  with rs assms(3,4) show ?thesis
    by (auto simp: accounted_def metrics_def Client_new_def ClientMetrics_default_def counted_errors_def)
qed

theorem session_metrics_are_accurate_witness:
  "\<exists>rs c'. run (client_step loopback) (fresh_client ServerPolicy_default) [Read 0 4 10, Read 0 0 10] = Some (rs, c') \<and>
    operations (metrics c') = 2 \<and>
    transport_attempts (metrics c') = word_of_nat (length (sent_requests (client_transport c')))"
  using session_metrics_are_accurate [OF loop.transport_service_axioms _ fresh_client_simps(4) refl,
      of "fresh_server ServerPolicy_default" ClientOptions_default "[Read 0 4 10, Read 0 0 10]"]
  by (auto simp: fresh_client_def [symmetric] simp del: run.simps)

end
