(* ===== verification/Fault_Scripts.thy ===== *)
theory Fault_Scripts
  imports Client
begin

text \<open>
  A client over the loopback under any fault script: what a read and a write return and the exact
  state they leave, with the packets in the trace and the counters.
\<close>

section \<open>Fault scripts\<close>

text \<open>Faults that lose the exchange, and the client error of the exchange that decides an operation.\<close>

fun loses :: "TransportFault \<Rightarrow> bool" where
  "loses TransportFault_timeout \<longleftrightarrow> True"
| "loses TransportFault_disconnect \<longleftrightarrow> True"
| "loses _ \<longleftrightarrow> False"

fun fault_error :: "TransportFault option \<Rightarrow> ClientError \<Rightarrow> ClientError" where
  "fault_error None e = e"
| "fault_error (Some TransportFault_timeout) e = ClientError_timeout"
| "fault_error (Some TransportFault_disconnect) e = ClientError_disconnected"
| "fault_error (Some TransportFault_truncate_response) e = ClientError_malformed_response"
| "fault_error (Some TransportFault_corrupt_response) e = ClientError_malformed_response"
| "fault_error (Some TransportFault_wrong_request_id) e = ClientError_correlation_mismatch"

text \<open>The transport error of a lost exchange.\<close>

fun lost_error :: "TransportFault \<Rightarrow> TransportError" where
  "lost_error TransportFault_timeout = TransportError_timeout"
| "lost_error _ = TransportError_disconnected"

lemma fault_error_none:
  "fault_error x e = ClientError_none \<longleftrightarrow> x = None \<and> e = ClientError_none"
  "ClientError_none = fault_error x e \<longleftrightarrow> x = None \<and> e = ClientError_none"
  by (cases "(x, e)" rule: fault_error.cases; auto)+

text \<open>
  A read with \<open>m\<close> attempts left works through a script: it goes on while the exchange is lost and
  attempts remain. The result is the number of exchanges, the fault the last one met and what is left
  of the script.
\<close>

fun read_script :: "nat \<Rightarrow> TransportFault list \<Rightarrow> nat \<times> TransportFault option \<times> TransportFault list" where
  "read_script m [] = (1, None, [])"
| "read_script m (f # fs) =
     (if loses f \<and> 1 < m then let (k, x, rest) = read_script (m - 1) fs in (k + 1, x, rest)
      else (1, Some f, fs))"

lemma read_script_recovers:
  assumes "list_all loses fs" and "length fs < m"
  shows "read_script m (fs @ rest) =
    (let (k, x, left) = read_script (m - length fs) rest in (length fs + k, x, left))"
  using assms by (induction fs arbitrary: m) (auto simp: split_beta Let_def)

lemma read_script_exhausted:
  assumes "list_all loses fs" and "length fs = m" and "0 < m"
  shows "read_script m (fs @ rest) = (m, Some (last fs), rest)"
  using assms by (induction fs arbitrary: m) (auto simp: split_beta Let_def)

lemma read_script_lost:
  assumes "read_script m (f # fs) = (k, x, rest)" and "loses f" and "1 < m"
  obtains k' where "read_script (m - 1) fs = (k', x, rest)" "k = k' + 1"
  using assms that by (auto simp: split_beta prod_eq_iff)

lemma read_script_pos: "read_script m fs = (k, x, rest) \<Longrightarrow> 0 < k"
  by (cases fs) (auto simp: split_beta Let_def split: if_splits)

lemma read_script_bound: "0 < m \<Longrightarrow> fst (read_script m fs) \<le> m"
proof (induction m fs rule: read_script.induct)
  case (2 m f fs)
  then show ?case by (cases "loses f \<and> 1 < m") (auto simp: split_beta Let_def)
qed simp

section \<open>One exchange of a client request\<close>

definition answer :: "TransportFault option \<Rightarrow> Frame \<Rightarrow> byte list" where
  "answer fault f = (case fault of None \<Rightarrow> wire f | Some x \<Rightarrow> altered x f)"

lemma decoded_answer:
  assumes "valid_frame f"
  shows "decoded (answer None f) = Some f"
    and "decoded (answer (Some TransportFault_truncate_response) f) = None"
    and "decoded (answer (Some TransportFault_corrupt_response) f) = None"
    and "decoded (answer (Some TransportFault_wrong_request_id) f) = Some (wrong_id f)"
  using assms decode_altered [OF assms]
  by (simp_all add: answer_def decoded_iff) (simp_all add: decoded_def dec_fail_def dec_ok_def)

lemma verdict_answer:
  assumes "valid_frame f" and "frame_request_id f = frame_request_id q" and "\<not> (\<exists>x. fault = Some x \<and> loses x)"
  shows "verdict q opcode n (answer fault f) = fault_error fault (verdict q opcode n (wire f))"
proof (cases fault)
  case None
  then show ?thesis by (simp add: answer_def)
next
  case (Some x)
  then show ?thesis
    using assms by (cases x) (simp_all add: verdict_def decoded_answer wrong_id_def)
qed

text \<open>The server's answer to a request, as the specification of the server gives it.\<close>

definition served :: "MemoryServer \<Rightarrow> Frame \<Rightarrow> Frame" where
  "served s q = fst (fst (serve (server_policy s) (mm_bytes (server_memory s)) q))"

definition after_request :: "MemoryServer \<Rightarrow> Frame \<Rightarrow> MemoryServer" where
  "after_request s q = with_memory s (snd (serve (server_policy s) (mm_bytes (server_memory s)) q))"

lemma served_simps:
  assumes "server_inv s"
  shows "valid_frame (served s q)" "frame_request_id (served s q) = frame_request_id q"
    "frame_address (served s q) = frame_address q"
  using assms by (simp_all add: served_def valid_serve frame_of_serve server_inv_def memory_inv_def)

text \<open>The fields of the loopback that a client operation is described by.\<close>

abbreviation client_server :: "LoopbackTransport Client \<Rightarrow> MemoryServer" where
  "client_server c \<equiv> loop_server (client_transport c)"

abbreviation client_faults :: "LoopbackTransport Client \<Rightarrow> TransportFault list" where
  "client_faults c \<equiv> loop_faults (client_transport c)"

abbreviation client_fault :: "LoopbackTransport Client \<Rightarrow> TransportFault option" where
  "client_fault c \<equiv> next_fault (client_transport c)"

lemma next_fault_Cons:
  "next_fault t = Some x \<Longrightarrow> loop_faults t = x # tl (loop_faults t)"
  "next_fault t = None \<longleftrightarrow> loop_faults t = []"
  by (auto simp: next_fault_def split: list.splits)

lemma next_fault_connected [simp]: "next_fault (t\<lparr>loop_connected := b\<rparr>) = next_fault t"
  by (simp add: next_fault_def)

definition lost :: "TransportFault option \<Rightarrow> bool" where
  "lost fault \<longleftrightarrow> (\<exists>x. fault = Some x \<and> loses x)"

lemma lost_simps [simp]: "\<not> lost None" "lost (Some x) = loses x"
  by (simp_all add: lost_def)

text \<open>What the trace says of an exchange that meets \<open>fault\<close>: the outcome and the reply bytes.\<close>

definition exchange_detail :: "TransportFault option \<Rightarrow> MemoryServer \<Rightarrow> Frame \<Rightarrow> string" where
  "exchange_detail fault s q = (if lost fault then transport_error_name (lost_error (the fault))
     else snd (fst (serve (server_policy s) (mm_bytes (server_memory s)) q)))"

definition exchange_bytes :: "TransportFault option \<Rightarrow> MemoryServer \<Rightarrow> Frame \<Rightarrow> byte list" where
  "exchange_bytes fault s q = (if lost fault then [] else answer fault (served s q))"

text \<open>
  The transport after a contact: the exchange of a connected transport, and the client's hanging up
  when it was lost.
\<close>

definition contact_transport :: "Frame \<Rightarrow> LoopbackTransport \<Rightarrow> LoopbackTransport" where
  "contact_transport q t = (let fault = next_fault t; s = loop_server t in
     log_exchange (exchange_detail fault s q) (wire q) (exchange_bytes fault s q)
       (t\<lparr>loop_faults := tl (loop_faults t), loop_server := (if lost fault then s else after_request s q),
          loop_connected := \<not> lost fault\<rparr>))"

lemma loopback_contact:
  assumes "loop_inv t" and "0 < d" and "valid_frame q"
  obtains reply t' where "loopback_exchange (t\<lparr>loop_connected := True\<rparr>) (wire q) d = Some (reply, t')"
    "reply_error reply = (if lost (next_fault t) then lost_error (the (next_fault t)) else TransportError_none)"
    "reply_bytes reply = exchange_bytes (next_fault t) (loop_server t) q"
    "contact_transport q t = (if lost (next_fault t) then loopback_close t' else t')"
proof -
  let ?t = "t\<lparr>loop_connected := True\<rparr>" and ?s = "loop_server t"
  show thesis
  proof (cases "lost (next_fault t)")
    case True
    then obtain x where "next_fault t = Some x" "loses x" by (auto simp: lost_def)
    with exchange_failures(3,4) [of ?t d "wire q"] assms(2) show thesis
      by (cases x) (auto intro!: that simp: contact_transport_def exchange_detail_def exchange_bytes_def
          loopback_close_def log_exchange_def record_packet_def)
  next
    case False
    then have "delivers ?t" by (auto simp: delivers_def lost_def)
    have inv: "server_inv ?s" using assms(1) by (simp add: loop_inv_def)
    let ?r = "serve (server_policy ?s) (mm_bytes (server_memory ?s)) q"
    have h: "handle (loop_server ?t) (wire q) = Some (success_event q (fst ?r), after_request ?s q)"
      using handle_serve [OF inv assms(3)] by (simp add: after_request_def)
    have "received ?t (wire (served ?s q)) = Some (answer (next_fault t) (served ?s q))"
      using served_simps(1) [OF inv, of q] by (cases "next_fault t") (simp_all add: answer_def)
    then have "received ?t (handle_response (success_event q (fst ?r))) = Some (answer (next_fault t) (served ?s q))"
      by (simp add: success_event_def served_def)
    note ex = exchange_delivered [OF _ assms(2) \<open>delivers ?t\<close> h this]
    show thesis
      by (rule that [OF ex]) (use False in \<open>simp_all add: contact_transport_def exchange_detail_def exchange_bytes_def
          outcome_of_def success_event_def Let_def\<close>)
  qed
qed

text \<open>The client after a contact, counters included.\<close>

definition contact_state :: "Frame \<Rightarrow> LoopbackTransport Client \<Rightarrow> LoopbackTransport Client" where
  "contact_state q c = (let t = client_transport c; m = client_metrics c in
     c\<lparr>client_transport := contact_transport q t,
       client_metrics := m\<lparr>transport_attempts := transport_attempts m + 1,
         reconnects := reconnects m + of_bool (\<not> loop_connected t),
         timeouts := timeouts m + of_bool (next_fault t = Some TransportFault_timeout)\<rparr>\<rparr>)"

lemma contact_transport_simps [simp]:
  "loop_server (contact_transport q t) =
     (if lost (next_fault t) then loop_server t else after_request (loop_server t) q)"
  "loop_faults (contact_transport q t) = tl (loop_faults t)"
  "loop_connected (contact_transport q t) = (\<not> lost (next_fault t))"
  "loop_next_sequence (contact_transport q t) = loop_next_sequence t + 2"
  by (simp_all add: contact_transport_def Let_def)

lemma contact_state_simps [simp]:
  "client_transport (contact_state q c) = contact_transport q (client_transport c)"
  "settings (contact_state q c) = settings c" "client_options (contact_state q c) = client_options c"
  "next_request_id (contact_state q c) = next_request_id c"
  by (simp_all add: contact_state_def settings_def Let_def)

lemma loop_inv_contact: "loop_inv t \<Longrightarrow> loop_inv (contact_transport q t)"
  by (auto simp: contact_transport_def loop_inv_def trace_wf_log after_request_def server_inv_def memory_inv_def
      length_serve Let_def)

lemma contact_loopback:
  assumes "loop_inv (client_transport c)" and "0 < d" and "valid_frame q"
  obtains c1 reply t where "ensure_connected loopback c = (True, c1)"
    "transport_exchange loopback (client_transport c1) (wire q) d = Some (reply, t)"
    "reply_error reply = (if lost (client_fault c) then lost_error (the (client_fault c)) else TransportError_none)"
    "reply_bytes reply = exchange_bytes (client_fault c) (client_server c) q"
    "contact_state q c = (if lost (client_fault c) then hung_up loopback reply (contacted t c1) else contacted t c1)"
proof -
  let ?t = "client_transport c"
  obtain reply t where x: "loopback_exchange (?t\<lparr>loop_connected := True\<rparr>) (wire q) d = Some (reply, t)"
    "reply_error reply = (if lost (next_fault ?t) then lost_error (the (next_fault ?t)) else TransportError_none)"
    "reply_bytes reply = exchange_bytes (next_fault ?t) (loop_server ?t) q"
    "contact_transport q ?t = (if lost (next_fault ?t) then loopback_close t else t)"
    by (rule loopback_contact [OF assms])
  let ?c1 = "snd (ensure_connected loopback c)"
  have c1: "ensure_connected loopback c = (True, ?c1)" "client_transport ?c1 = ?t\<lparr>loop_connected := True\<rparr>"
    by (auto simp: ensure_connected_def loopback_connected_def loopback_connect_def Let_def)
  have "(reply_error reply = TransportError_timeout) = (next_fault ?t = Some TransportFault_timeout)"
    using x(2) by (cases "next_fault ?t"; cases "the (next_fault ?t)") auto
  with x(4) have "contact_state q c = (if lost (client_fault c) then hung_up loopback reply (contacted t ?c1) else contacted t ?c1)"
    by (cases "loop_connected ?t"; cases "lost (client_fault c)"; cases "next_fault ?t = Some TransportFault_timeout")
      (simp_all add: contact_state_def hung_up_def contacted_def bump_def ensure_connected_def loopback_connected_def
        loopback_connect_def Let_def)
  with x c1 show thesis by (intro that [of ?c1 reply t]) simp_all
qed

section \<open>Operations under a fault script\<close>

text \<open>
  The result of an operation when the exchange that decides it meets \<open>fault\<close>, with the words the
  operation puts before the name of a transport error.
\<close>

definition settled :: "MemoryServer \<Rightarrow> Frame \<Rightarrow> Opcode \<Rightarrow> size_t \<Rightarrow> string \<Rightarrow> TransportFault option \<Rightarrow> size_t \<Rightarrow>
    OperationResult" where
  "settled s q opcode n words fault attempts =
     (if lost fault
      then OperationResult_default\<lparr>op_error := fault_error fault ClientError_none,
        op_request_id := frame_request_id q, op_attempts := attempts,
        op_detail := words @ transport_error_name (lost_error (the fault))\<rparr>
      else validated q (answer fault (served s q)) opcode n attempts)"

lemma settled_attempts [simp]: "op_attempts (settled s q opcode n words fault attempts) = attempts"
  by (simp add: settled_def)

lemma settled_error:
  assumes "server_inv s"
  shows "op_error (settled s q opcode n words fault attempts) =
    fault_error fault (verdict q opcode n (wire (served s q)))"
proof (cases "lost fault")
  case True
  then obtain x where "fault = Some x" "loses x" by (auto simp: lost_def)
  with True show ?thesis by (cases x) (simp_all add: settled_def)
next
  case False
  then have "\<not> (\<exists>x. fault = Some x \<and> loses x)" by (simp add: lost_def)
  with False verdict_answer [OF served_simps(1,2) [OF assms, of q], of fault opcode n] show ?thesis
    by (simp add: settled_def)
qed

lemma settled_data:
  assumes "server_inv s"
  shows "op_ok (settled s q opcode n words fault attempts) \<Longrightarrow>
    op_data (settled s q opcode n words fault attempts) = frame_payload (served s q)"
  using settled_error [OF assms, of q opcode n words fault attempts] served_simps(1) [OF assms, of q]
  by (auto simp: op_ok_def fault_error_none settled_def lost_def decoded_answer)

lemma lost_failure:
  assumes "lost fault" and "reply_error reply = lost_error (the fault)"
  shows "failure reply = fault_error fault e"
proof -
  obtain x where "fault = Some x" "loses x" using assms(1) by (auto simp: lost_def)
  with assms(2) show ?thesis by (cases x) (simp_all add: failure_def)
qed

text \<open>A rejected response is counted when the operation ends.\<close>

definition concluded :: "OperationResult \<Rightarrow> 't Client \<Rightarrow> 't Client" where
  "concluded r c = (if op_error r \<in> counted_errors then bump protocol_errors_update c else c)"

lemma concluded_simps [simp]:
  "client_transport (concluded r c) = client_transport c" "settings (concluded r c) = settings c"
  "client_options (concluded r c) = client_options c" "next_request_id (concluded r c) = next_request_id c"
  by (simp_all add: concluded_def)

lemma concluded_lost:
  "lost fault \<Longrightarrow> concluded (settled s q opcode n words fault attempts) c = c"
  by (cases fault; cases "the fault") (auto simp: concluded_def settled_def counted_errors_def)

text \<open>One attempt of a read: it settles the operation, or is lost and repeated.\<close>

lemma read_loop_attempt:
  fixes n :: size_t
  assumes "loop_inv (client_transport c)" and "0 < d" and "valid_frame q"
    and "attempt \<le> maximum_read_attempts (client_options c)"
  defines "r \<equiv> settled (client_server c) q Opcode_data_response n [] (client_fault c) attempt"
  shows "read_loop loopback q (wire q) n d attempt c =
    (if lost (client_fault c) \<and> attempt < maximum_read_attempts (client_options c)
     then read_loop loopback q (wire q) n d (attempt + 1) (bump retries_update (contact_state q c))
     else Some (r, concluded r (contact_state q c)))"
proof -
  obtain c1 reply t where c1: "ensure_connected loopback c = (True, c1)"
    and ex: "transport_exchange loopback (client_transport c1) (wire q) d = Some (reply, t)"
      "reply_error reply = (if lost (client_fault c) then lost_error (the (client_fault c)) else TransportError_none)"
      "reply_bytes reply = exchange_bytes (client_fault c) (client_server c) q"
      "contact_state q c = (if lost (client_fault c) then hung_up loopback reply (contacted t c1) else contacted t c1)"
    by (rule contact_loopback [OF assms(1-3)])
  have "reply_error reply \<noteq> TransportError_not_connected" using ex(2) by (auto elim: lost_error.elims)
  note loop = read_loop_contact [OF assms(4) c1(1) ex(1) this, of q n]
  show ?thesis
  proof (cases "lost (client_fault c)")
    case True
    then have "\<not> reply_ok reply" using ex(2) by (auto simp: reply_ok_def elim: lost_error.elims)
    with True loop ex(2,4) lost_failure [OF True, of reply ClientError_none] show ?thesis
      by (simp add: r_def concluded_lost) (simp add: settled_def)
  next
    case False
    with loop ex show ?thesis
      by (simp add: r_def settled_def exchange_bytes_def validate_response_eq concluded_def reply_ok_def)
  qed
qed

text \<open>The client after \<open>k\<close> attempts, the last of which was not repeated.\<close>

fun contacts :: "nat \<Rightarrow> Frame \<Rightarrow> LoopbackTransport Client \<Rightarrow> LoopbackTransport Client" where
  "contacts (Suc (Suc k)) q c = contacts (Suc k) q (bump retries_update (contact_state q c))"
| "contacts (Suc 0) q c = contact_state q c"
| "contacts 0 q c = contact_state q c"

lemma contacts_simps [simp]:
  "settings (contacts k q c) = settings c" "client_options (contacts k q c) = client_options c"
  "next_request_id (contacts k q c) = next_request_id c"
  by (induction k q c rule: contacts.induct) simp_all

lemma loop_inv_contacts: "loop_inv (client_transport c) \<Longrightarrow> loop_inv (client_transport (contacts k q c))"
  by (induction k q c rule: contacts.induct) (simp_all add: loop_inv_contact)

lemma contacts_faults: "0 < k \<Longrightarrow> client_faults (contacts k q c) = drop k (client_faults c)"
  by (induction k q c rule: contacts.induct) (simp_all add: drop_Suc)

lemma after_read_request: "frame_opcode q = Opcode_read_request \<Longrightarrow> after_request s q = s"
  by (simp add: after_request_def serve_def Let_def)

lemma contacts_server: "frame_opcode q = Opcode_read_request \<Longrightarrow> client_server (contacts k q c) = client_server c"
  by (induction k q c rule: contacts.induct) (simp_all add: after_read_request)

lemma read_loop_script:
  fixes n :: size_t
  assumes "loop_inv (client_transport c)" and "0 < d" and "valid_frame q" and "frame_opcode q = Opcode_read_request"
    and "attempt \<le> maximum_read_attempts (client_options c)"
    and "read_script (unat (maximum_read_attempts (client_options c)) + 1 - unat attempt) (client_faults c) = (k, x, rest)"
  defines "r \<equiv> settled (client_server c) q Opcode_data_response n [] x (attempt + word_of_nat (k - 1))"
  shows "read_loop loopback q (wire q) n d attempt c = Some (r, concluded r (contacts k q c))"
  using assms(1,5,6) unfolding r_def
proof (induction "unat (maximum_read_attempts (client_options c)) - unat attempt" arbitrary: attempt c k rule: less_induct)
  case less
  let ?max = "maximum_read_attempts (client_options c)"
  let ?c = "bump retries_update (contact_state q c)"
  note loop = read_loop_attempt [OF less.prems(1) assms(2,3) less.prems(2), of n]
  show ?case
  proof (cases "lost (client_fault c) \<and> attempt < ?max")
    case True
    then obtain y where y: "client_faults c = y # tl (client_faults c)" "loses y"
      using next_fault_Cons(1) by (auto simp: lost_def)
    have more: "unat (attempt + 1) = unat attempt + 1" "unat attempt < unat ?max"
      using True unat_plus_one [of attempt ?max] by (simp_all add: word_less_nat_alt)
    have "read_script (unat ?max + 1 - unat attempt) (y # tl (client_faults c)) = (k, x, rest)"
      using less.prems(3) y(1) by simp
    then obtain k' where k': "read_script (unat ?max + 1 - unat (attempt + 1)) (client_faults ?c) = (k', x, rest)" "k = k' + 1"
      by (rule read_script_lost [OF _ y(2)]) (use more that in simp_all)
    then obtain j where j: "k' = Suc j" using read_script_pos [OF k'(1)] by (cases k') auto
    have "attempt + 1 \<le> ?max" using more by (simp add: word_le_nat_alt)
    moreover have "loop_inv (client_transport ?c)" using less.prems(1) by (simp add: loop_inv_contact)
    moreover have "client_server ?c = client_server c" using after_read_request [OF assms(4)] by simp
    ultimately show ?thesis
      using less.hyps [of ?c "attempt + 1" k'] loop_measure [of attempt ?max] True k' loop j
      by (simp add: add.assoc del: contact_state_simps(1))
  next
    case False
    then have "k = 1" "x = client_fault c"
      using less.prems(2,3)
      by (cases "client_faults c"; auto simp: next_fault_def lost_def word_less_nat_alt word_le_nat_alt)+
    with loop False show ?thesis by (auto simp: numeral_eq_Suc)
  qed
qed

lemma read_script_rest: "read_script m fs = (k, x, rest) \<Longrightarrow> rest = drop k fs"
proof (induction m fs arbitrary: k rule: read_script.induct)
  case (2 m f fs)
  then show ?case by (cases "read_script (m - 1) fs") (auto simp: Let_def split: if_splits)
qed simp

lemma client_inv_server: "loop_inv (client_transport c) \<Longrightarrow> length (mm_bytes (server_memory (client_server c))) = 4096"
  by (simp add: loop_inv_def server_inv_def memory_inv_def)

lemma verdict_served:
  assumes "server_inv s"
  shows "verdict q opcode n (wire (served s q)) =
    (if frame_opcode (served s q) = Opcode_error_response then ClientError_remote_error
     else if frame_opcode (served s q) \<noteq> opcode \<or> size_of (frame_payload (served s q)) \<noteq> n
     then ClientError_unexpected_response else ClientError_none)"
  using served_simps [OF assms, of q] by (simp add: verdict_def decoded_iff [THEN iffD2])

lemma served_read:
  fixes i a :: u32
  assumes "server_inv s" and "0 < unat n" and "unat n \<le> 256"
  defines "q \<equiv> read_frame i a n"
  shows "verdict q Opcode_data_response n (wire (served s q)) =
      (if unat a + unat n \<le> 0x800 then ClientError_none else ClientError_remote_error)"
    and "unat a + unat n \<le> 0x800 \<Longrightarrow>
      frame_payload (served s q) = take (unat n) (drop (unat a) (mm_bytes (server_memory s)))"
proof -
  let ?data = "take (unat n) (drop (unat a) (mm_bytes (server_memory s)))"
  have served: "served s q = (if 4096 < unat a + unat n then fst (reject q Status_out_of_range ''read_rejected'')
      else if 0x800 < unat a + unat n then fst (reject q Status_access_denied ''read_rejected'')
      else response_frame q Opcode_data_response Status_ok ?data)"
    using assms(2,3) by (simp add: served_def serve_def q_def requested_length_read_frame Let_def)
  have len: "size_of ?data = n" if "unat a + unat n \<le> 0x800"
    using that assms(1) by (simp add: size_of_def server_inv_def memory_inv_def min_absorb2)
  show "verdict q Opcode_data_response n (wire (served s q)) =
      (if unat a + unat n \<le> 0x800 then ClientError_none else ClientError_remote_error)"
    unfolding verdict_served [OF assms(1)]
    by (simp add: served reject_def response_frame_def len)
  show "frame_payload (served s q) = ?data" if "unat a + unat n \<le> 0x800"
    using that by (simp add: served response_frame_def)
qed

text \<open>The states of the client before and after an operation on the loopback.\<close>

definition follows :: "LoopbackTransport Client \<Rightarrow> LoopbackTransport Client \<Rightarrow> bool" where
  "follows c c' \<longleftrightarrow> loop_inv (client_transport c') \<and> client_options c' = client_options c \<and>
     next_request_id c' = next_id (next_request_id c)"

text \<open>Exactly what a read does, state included.\<close>

lemma client_read_loopback:
  fixes a :: u32
  assumes "loop_inv (client_transport c)" and "readable_args n d"
    and "1 \<le> maximum_read_attempts (client_options c)"
    and "read_script (unat (maximum_read_attempts (client_options c))) (client_faults c) = (k, fault, rest)"
  defines "q \<equiv> read_frame (next_request_id c) a n"
  defines "r \<equiv> settled (client_server c) q Opcode_data_response n [] fault (word_of_nat k)"
  shows "client_read loopback a n d c = Some (r, concluded r (contacts k q (started c)))"
proof -
  have "1 + word_of_nat (k - 1) = (word_of_nat k :: size_t)"
    using read_script_pos [OF assms(4)] by (cases k) simp_all
  moreover have "0 < d" using assms(2) by (simp add: readable_args_def)
  ultimately show ?thesis
    using read_loop_script [of "started c" d q 1 k fault rest n] assms by (simp add: client_read_eq)
qed

lemma client_read_settled:
  assumes "loop_inv (client_transport c)" and "readable_args n d"
    and "1 \<le> maximum_read_attempts (client_options c)"
    and "read_script (unat (maximum_read_attempts (client_options c))) (client_faults c) = (k, fault, rest)"
  obtains c' where "client_read loopback a n d c =
      Some (settled (client_server c) (read_frame (next_request_id c) a n) Opcode_data_response n [] fault (word_of_nat k), c')"
    "follows c c'" "client_server c' = client_server c" "client_faults c' = rest"
  using assms(1) read_script_pos [OF assms(4)] read_script_rest [OF assms(4)]
  by (intro that [OF client_read_loopback [OF assms, of a]])
    (auto simp: follows_def next_id_def loop_inv_contacts contacts_server contacts_faults)

lemma client_read_script:
  assumes "loop_inv (client_transport c)" and "readable_args n d"
    and "1 \<le> maximum_read_attempts (client_options c)"
    and "read_script (unat (maximum_read_attempts (client_options c))) (client_faults c) = (k, fault, rest)"
  obtains r c' where "client_read loopback a n d c = Some (r, c')" "client_server c' = client_server c"
    "client_faults c' = rest" "unat (op_attempts r) = k"
    "op_error r = fault_error fault (if unat a + unat n \<le> 0x800 then ClientError_none else ClientError_remote_error)"
    "op_ok r \<longrightarrow> op_data r = take (unat n) (drop (unat a) (mm_bytes (server_memory (client_server c))))"
    "follows c c'"
proof -
  let ?q = "read_frame (next_request_id c) a n"
  let ?r = "settled (client_server c) ?q Opcode_data_response n [] fault (word_of_nat k)"
  have s: "server_inv (client_server c)" using assms(1) by (simp add: loop_inv_def)
  have args: "0 < unat n" "unat n \<le> 256" using assms(2) by (simp_all add: readable_args_def)
  obtain c' where c': "client_read loopback a n d c = Some (?r, c')" "follows c c'"
    "client_server c' = client_server c" "client_faults c' = rest"
    by (rule client_read_settled [OF assms])
  have e: "op_error ?r = fault_error fault (if unat a + unat n \<le> 0x800 then ClientError_none else ClientError_remote_error)"
    by (simp add: settled_error [OF s] served_read [OF s args])
  have "unat a + unat n \<le> 0x800" if "op_ok ?r"
    using that e by (simp add: op_ok_def fault_error_none split: if_splits)
  then have "op_ok ?r \<longrightarrow> op_data ?r = take (unat n) (drop (unat a) (mm_bytes (server_memory (client_server c))))"
    by (simp add: settled_data [OF s] served_read(2) [OF s args])
  moreover have "unat (word_of_nat k :: size_t) = k"
  proof -
    have "k \<le> unat (maximum_read_attempts (client_options c))"
      using read_script_bound [of "unat (maximum_read_attempts (client_options c))" "client_faults c"] assms(3,4)
      by (simp add: word_le_nat_alt)
    then show ?thesis
      by (metis le_unat_uoi)
  qed
  ultimately show thesis using c' e by (intro that [of ?r c']) simp_all
qed

text \<open>Writes the server accepts under its policy, and the memory they leave.\<close>

definition accepts_write :: "MemoryServer \<Rightarrow> u32 \<Rightarrow> byte list \<Rightarrow> bool" where
  "accepts_write s a data \<longleftrightarrow> writes_enabled (server_policy s) \<and>
     in_allowlist (server_policy s) (unat a) (length data) \<and> 0x100 \<le> unat a \<and> unat a + length data \<le> 0x800"

definition patched :: "u32 \<Rightarrow> byte list \<Rightarrow> byte list \<Rightarrow> byte list" where
  "patched a data mem = take (unat a) mem @ data @ drop (unat a + length data) mem"

lemma served_write:
  fixes i a :: u32 and data :: "byte list"
  assumes "server_inv s"
  defines "q \<equiv> write_frame i a data"
  shows "verdict q Opcode_write_acknowledgement 0 (wire (served s q)) =
      (if accepts_write s a data then ClientError_none else ClientError_remote_error)"
    and "after_request s q =
      (if accepts_write s a data then with_memory s (patched a data (mm_bytes (server_memory s))) else s)"
    and "accepts_write s a data \<Longrightarrow> frame_payload (served s q) = []"
proof -
  have ok: "serve (server_policy s) (mm_bytes (server_memory s)) q =
      ((response_frame q Opcode_write_acknowledgement Status_ok [], ''write_ok''), patched a data (mm_bytes (server_memory s)))"
    if "accepts_write s a data"
    using that by (simp add: serve_def q_def accepts_write_def patched_def Let_def)
  moreover have "\<exists>status detail. serve (server_policy s) (mm_bytes (server_memory s)) q =
      (reject q status detail, mm_bytes (server_memory s))" if "\<not> accepts_write s a data"
    using that by (auto simp: serve_def q_def accepts_write_def Let_def)
  ultimately show "verdict q Opcode_write_acknowledgement 0 (wire (served s q)) =
      (if accepts_write s a data then ClientError_none else ClientError_remote_error)"
    and "after_request s q =
      (if accepts_write s a data then with_memory s (patched a data (mm_bytes (server_memory s))) else s)"
    unfolding verdict_served [OF assms(1)]
    by (cases "accepts_write s a data"; force simp: served_def after_request_def reject_def response_frame_def size_of_def)+
  show "frame_payload (served s q) = []" if "accepts_write s a data"
    using ok [OF that] by (simp add: served_def response_frame_def)
qed

lemma execute_write_loopback:
  assumes "loop_inv (client_transport c)" and "0 < d" and "valid_frame q"
  defines "r \<equiv> settled (client_server c) q Opcode_write_acknowledgement 0 ''write not retried: '' (client_fault c) 1"
  shows "execute_write loopback q d c = Some (r, concluded r (contact_state q c))"
proof -
  obtain c1 reply t where c1: "ensure_connected loopback c = (True, c1)"
    and ex: "transport_exchange loopback (client_transport c1) (wire q) d = Some (reply, t)"
      "reply_error reply = (if lost (client_fault c) then lost_error (the (client_fault c)) else TransportError_none)"
      "reply_bytes reply = exchange_bytes (client_fault c) (client_server c) q"
      "contact_state q c = (if lost (client_fault c) then hung_up loopback reply (contacted t c1) else contacted t c1)"
    by (rule contact_loopback [OF assms(1-3)])
  note run = execute_write_contact [OF c1 ex(1) assms(3)]
  show ?thesis
  proof (cases "lost (client_fault c)")
    case True
    then have "\<not> reply_ok reply" using ex(2) by (auto simp: reply_ok_def elim: lost_error.elims)
    with True run ex(2,4) lost_failure [OF True, of reply ClientError_none] show ?thesis
      by (simp add: r_def concluded_lost) (simp add: settled_def)
  next
    case False
    with run ex show ?thesis
      by (simp add: r_def settled_def exchange_bytes_def validate_response_eq concluded_def reply_ok_def)
  qed
qed

text \<open>Exactly what a write does, state included.\<close>

lemma client_write_loopback:
  fixes a :: u32
  assumes "loop_inv (client_transport c)" and "writable_args data d"
  defines "q \<equiv> write_frame (next_request_id c) a data"
  defines "r \<equiv> settled (client_server c) q Opcode_write_acknowledgement 0 ''write not retried: '' (client_fault c) 1"
  shows "client_write loopback a data d c = Some (r, concluded r (contact_state q (started c)))"
proof -
  have "0 < d" "valid_frame q" using assms(2) by (simp_all add: q_def writable_args_def valid_write_frame)
  with execute_write_loopback [of "started c" d q] assms show ?thesis by (simp add: client_write_eq)
qed

lemma client_write_settled:
  assumes "loop_inv (client_transport c)" and "writable_args data d"
  obtains c' where "client_write loopback a data d c =
      Some (settled (client_server c) (write_frame (next_request_id c) a data) Opcode_write_acknowledgement 0
        ''write not retried: '' (client_fault c) 1, c')"
    "follows c c'" "client_faults c' = tl (client_faults c)"
    "client_server c' = (if accepts_write (client_server c) a data \<and> \<not> lost (client_fault c)
      then with_memory (client_server c) (patched a data (mm_bytes (server_memory (client_server c))))
      else client_server c)"
proof -
  have "server_inv (client_server c)" using assms(1) by (simp add: loop_inv_def)
  with assms(1) show thesis
    by (intro that [OF client_write_loopback [OF assms, of a]])
      (auto simp: follows_def next_id_def loop_inv_contact served_write)
qed

lemma client_write_script:
  assumes "loop_inv (client_transport c)" and "writable_args data d"
  obtains r c' where "client_write loopback a data d c = Some (r, c')" "follows c c'"
    "client_faults c' = tl (client_faults c)" "op_attempts r = 1"
    "op_error r = fault_error (client_fault c)
      (if accepts_write (client_server c) a data then ClientError_none else ClientError_remote_error)"
    "op_ok r \<longrightarrow> op_data r = []"
    "client_server c' = (if accepts_write (client_server c) a data \<and> \<not> lost (client_fault c)
      then with_memory (client_server c) (patched a data (mm_bytes (server_memory (client_server c))))
      else client_server c)"
proof -
  let ?q = "write_frame (next_request_id c) a data"
  let ?r = "settled (client_server c) ?q Opcode_write_acknowledgement 0 ''write not retried: '' (client_fault c) 1"
  have s: "server_inv (client_server c)" using assms(1) by (simp add: loop_inv_def)
  have e: "op_error ?r = fault_error (client_fault c)
      (if accepts_write (client_server c) a data then ClientError_none else ClientError_remote_error)"
    by (simp add: settled_error [OF s] served_write [OF s])
  have "frame_payload (served (client_server c) ?q) = []" if "op_ok ?r"
    using that e served_write(3) [OF s, of a data "next_request_id c"]
    by (simp add: op_ok_def fault_error_none split: if_splits)
  then have "op_ok ?r \<longrightarrow> op_data ?r = []" by (simp add: settled_data [OF s])
  moreover obtain c' where "client_write loopback a data d c = Some (?r, c')" "follows c c'"
    "client_faults c' = tl (client_faults c)"
    "client_server c' = (if accepts_write (client_server c) a data \<and> \<not> lost (client_fault c)
      then with_memory (client_server c) (patched a data (mm_bytes (server_memory (client_server c))))
      else client_server c)"
    by (rule client_write_settled [OF assms])
  ultimately show thesis using e by (intro that [of ?r c']) simp_all
qed

section \<open>Packets and counters\<close>

text \<open>
  The records of the exchanges of a request, one pair for each fault met, numbered from \<open>seq\<close> on; the
  server's state is the same for all of them.
\<close>

fun packet_log :: "MemoryServer \<Rightarrow> Frame \<Rightarrow> u64 \<Rightarrow> TransportFault option list \<Rightarrow> TraceRecord list" where
  "packet_log s q seq [] = []"
| "packet_log s q seq (fault # faults) =
     \<lparr>trace_sequence = seq, trace_direction = ''client_to_server'', trace_outcome = ''sent'', trace_bytes = wire q\<rparr> #
     \<lparr>trace_sequence = seq + 1, trace_direction = ''server_to_client'',
      trace_outcome = exchange_detail fault s q, trace_bytes = exchange_bytes fault s q\<rparr> #
     packet_log s q (seq + 2) faults"

text \<open>The faults that the first \<open>k\<close> exchanges meet, with none after the end of the script.\<close>

definition met :: "nat \<Rightarrow> TransportFault list \<Rightarrow> TransportFault option list" where
  "met k fs = take k (map Some fs @ [None])"

lemma met_Suc [simp]:
  "met (Suc k) (f # fs) = Some f # met k fs" "met (Suc k) [] = [None]" "met 0 fs = []"
  by (simp_all add: met_def)

lemma read_script_met:
  "read_script m fs = (k, x, rest) \<Longrightarrow>
   k \<le> length fs + 1 \<and> list_all lost (met (k - 1) fs) \<and> met k fs = met (k - 1) fs @ [x]"
proof (induction m fs arbitrary: k rule: read_script.induct)
  case (2 m f fs)
  show ?case
  proof (cases "loses f \<and> 1 < m")
    case True
    then obtain j where j: "read_script (m - 1) fs = (j, x, rest)" "k = j + 1"
      using read_script_lost [OF "2.prems"] by blast
    then obtain i where i: "j = Suc i" using read_script_pos [OF j(1)] by (cases j) auto
    from "2.IH" [OF True j(1)] True show ?thesis by (simp add: j(2) i)
  qed (use "2.prems" in auto)
qed simp

lemma contact_transport_trace:
  "loop_trace (contact_transport q t) = loop_trace t @ packet_log (loop_server t) q (loop_next_sequence t) [next_fault t]"
  by (simp add: contact_transport_def Let_def)

lemma contacts_trace:
  assumes "frame_opcode q = Opcode_read_request" and "0 < k" and "k \<le> length (client_faults c) + 1"
  shows "loop_trace (client_transport (contacts k q c)) = loop_trace (client_transport c) @
    packet_log (client_server c) q (loop_next_sequence (client_transport c)) (met k (client_faults c))"
  using assms
proof (induction k q c rule: contacts.induct)
  case (1 k q c)
  then obtain f fs where fs: "client_faults c = f # fs" by (cases "client_faults c") auto
  with 1 show ?case
    using after_read_request [of q]
    by (simp add: contact_transport_trace next_fault_def)
next
  case (3 q c)
  then show ?case by simp
next
  case (2 q c)
  then show ?case by (cases "client_faults c") (simp_all add: contact_transport_trace next_fault_def)
qed

lemma contacts_sequence:
  "0 < k \<Longrightarrow> loop_next_sequence (client_transport (contacts k q c)) =
    loop_next_sequence (client_transport c) + 2 * word_of_nat k"
  by (induction k q c rule: contacts.induct) (simp_all add: algebra_simps)

definition read_counters :: "nat \<Rightarrow> bool \<Rightarrow> TransportFault option list \<Rightarrow> ClientMetrics \<Rightarrow> ClientMetrics" where
  "read_counters k connected faults m = m\<lparr>transport_attempts := transport_attempts m + word_of_nat k,
     reconnects := reconnects m + of_bool (\<not> connected) + word_of_nat (length (filter lost (butlast faults))),
     retries := retries m + word_of_nat (k - 1),
     timeouts := timeouts m + word_of_nat (length (filter (\<lambda>x. x = Some TransportFault_timeout) faults))\<rparr>"

lemma contacts_metrics:
  assumes "0 < k" and "k \<le> length (client_faults c) + 1"
  shows "client_metrics (contacts k q c) =
    read_counters k (loop_connected (client_transport c)) (met k (client_faults c)) (client_metrics c)"
  using assms
proof (induction k q c rule: contacts.induct)
  case (1 k q c)
  then obtain f fs where fs: "client_faults c = f # fs" by (cases "client_faults c") auto
  then obtain y ys where "met (Suc k) fs = y # ys" using 1 by (cases fs) auto
  with 1 fs show ?case
    by (simp add: contact_state_def read_counters_def next_fault_def Let_def algebra_simps)
next
  case (3 q c)
  then show ?case by simp
next
  case (2 q c)
  then show ?case
    by (cases "client_faults c") (simp_all add: contact_state_def read_counters_def next_fault_def Let_def)
qed

text \<open>The counters and the trace after a whole operation.\<close>

lemma concluded_metrics:
  "client_metrics (concluded r c) =
     (client_metrics c)\<lparr>protocol_errors := protocol_errors (client_metrics c) + of_bool (op_error r \<in> counted_errors)\<rparr>"
  by (simp add: concluded_def)

lemma client_read_log:
  assumes "loop_inv (client_transport c)" and "readable_args n d"
    and "1 \<le> maximum_read_attempts (client_options c)"
    and "read_script (unat (maximum_read_attempts (client_options c))) (client_faults c) = (k, fault, rest)"
    and "client_read loopback a n d c = Some (r, c')"
  defines "m \<equiv> client_metrics c" and "faults \<equiv> met k (client_faults c)"
  shows "loop_trace (client_transport c') = loop_trace (client_transport c) @
      packet_log (client_server c) (read_frame (next_request_id c) a n) (loop_next_sequence (client_transport c)) faults"
    and "client_metrics c' = m\<lparr>operations := operations m + 1, transport_attempts := transport_attempts m + word_of_nat k,
      reconnects := reconnects m + of_bool (\<not> loop_connected (client_transport c)) + word_of_nat (k - 1),
      retries := retries m + word_of_nat (k - 1),
      timeouts := timeouts m + word_of_nat (length (filter (\<lambda>x. x = Some TransportFault_timeout) faults)),
      protocol_errors := protocol_errors m + of_bool (op_error r \<in> counted_errors)\<rparr>"
proof -
  let ?q = "read_frame (next_request_id c) a n"
  have c': "c' = concluded r (contacts k ?q (started c))"
    using client_read_loopback [OF assms(1-4), of a] assms(5) by auto
  have k: "0 < k" "k \<le> length (client_faults (started c)) + 1"
    and lost: "list_all lost (met (k - 1) (client_faults c))" and last: "faults = met (k - 1) (client_faults c) @ [fault]"
    using read_script_pos [OF assms(4)] read_script_met [OF assms(4)] by (simp_all add: faults_def)
  show "loop_trace (client_transport c') = loop_trace (client_transport c) @
      packet_log (client_server c) ?q (loop_next_sequence (client_transport c)) faults"
    using contacts_trace [OF _ k, of ?q] by (simp add: c' faults_def)
  have "filter lost (butlast faults) = met (k - 1) (client_faults c)"
    using lost by (simp add: last filter_id_conv list_all_iff)
  moreover have "length (met (k - 1) (client_faults c)) = k - 1"
    using k by (simp add: met_def)
  ultimately show "client_metrics c' = m\<lparr>operations := operations m + 1, transport_attempts := transport_attempts m + word_of_nat k,
      reconnects := reconnects m + of_bool (\<not> loop_connected (client_transport c)) + word_of_nat (k - 1),
      retries := retries m + word_of_nat (k - 1),
      timeouts := timeouts m + word_of_nat (length (filter (\<lambda>x. x = Some TransportFault_timeout) faults)),
      protocol_errors := protocol_errors m + of_bool (op_error r \<in> counted_errors)\<rparr>"
    using contacts_metrics [OF k, of ?q] by (simp add: c' concluded_metrics read_counters_def m_def faults_def)
qed

lemma client_read_sequence:
  assumes "loop_inv (client_transport c)" and "readable_args n d"
    and "1 \<le> maximum_read_attempts (client_options c)"
    and "read_script (unat (maximum_read_attempts (client_options c))) (client_faults c) = (k, fault, rest)"
    and "client_read loopback a n d c = Some (r, c')"
  shows "loop_next_sequence (client_transport c') = loop_next_sequence (client_transport c) + 2 * word_of_nat k"
proof -
  have "c' = concluded r (contacts k (read_frame (next_request_id c) a n) (started c))"
    using client_read_loopback [OF assms(1-4), of a] assms(5) by auto
  with contacts_sequence [OF read_script_pos [OF assms(4)]] show ?thesis by simp
qed

lemma client_write_log:
  assumes "loop_inv (client_transport c)" and "writable_args data d"
    and "client_write loopback a data d c = Some (r, c')"
  defines "m \<equiv> client_metrics c"
  shows "loop_trace (client_transport c') = loop_trace (client_transport c) @
      packet_log (client_server c) (write_frame (next_request_id c) a data) (loop_next_sequence (client_transport c)) [client_fault c]"
    and "client_metrics c' = m\<lparr>operations := operations m + 1, transport_attempts := transport_attempts m + 1,
      reconnects := reconnects m + of_bool (\<not> loop_connected (client_transport c)),
      timeouts := timeouts m + of_bool (client_fault c = Some TransportFault_timeout),
      protocol_errors := protocol_errors m + of_bool (op_error r \<in> counted_errors)\<rparr>"
proof -
  have c': "c' = concluded r (contact_state (write_frame (next_request_id c) a data) (started c))"
    using client_write_loopback [OF assms(1,2), of a] assms(3) by auto
  show "loop_trace (client_transport c') = loop_trace (client_transport c) @
      packet_log (client_server c) (write_frame (next_request_id c) a data) (loop_next_sequence (client_transport c)) [client_fault c]"
    by (simp add: c' contact_transport_trace)
  show "client_metrics c' = m\<lparr>operations := operations m + 1, transport_attempts := transport_attempts m + 1,
      reconnects := reconnects m + of_bool (\<not> loop_connected (client_transport c)),
      timeouts := timeouts m + of_bool (client_fault c = Some TransportFault_timeout),
      protocol_errors := protocol_errors m + of_bool (op_error r \<in> counted_errors)\<rparr>"
    by (simp add: c' concluded_metrics contact_state_def m_def Let_def)
qed

lemma client_write_sequence:
  assumes "loop_inv (client_transport c)" and "writable_args data d"
    and "client_write loopback a data d c = Some (r, c')"
  shows "loop_next_sequence (client_transport c') = loop_next_sequence (client_transport c) + 2"
  using client_write_loopback [OF assms(1,2), of a] assms(3) by auto

text \<open>The results in full, for the cases a caller meets first.\<close>

lemma served_decoded: "server_inv s \<Longrightarrow> decoded (wire (served s q)) = Some (served s q)"
  by (simp add: decoded_iff served_simps)

lemma settled_read_ok:
  assumes "server_inv s" and "0 < unat n" and "unat n \<le> 256" and "unat a + unat n \<le> 0x800"
  shows "settled s (read_frame i a n) Opcode_data_response n words None k =
    \<lparr>op_error = ClientError_none, op_remote_status = Status_ok, op_request_id = i, op_attempts = k,
     op_data = take (unat n) (drop (unat a) (mm_bytes (server_memory s))), op_detail = ''ok''\<rparr>"
proof -
  have "frame_status (served s (read_frame i a n)) = Status_ok"
    using assms(2-4) by (simp add: served_def serve_def requested_length_read_frame response_frame_def Let_def)
  then show ?thesis
    using assms(4) served_read(1) [OF assms(1-3), of i a] served_read(2) [OF assms(1-3), of a i]
    by (simp add: settled_def lost_def answer_def validated_def served_decoded [OF assms(1)] OperationResult_default_def)
qed

lemma settled_read_rejected:
  assumes "server_inv s" and "0 < unat n" and "unat n \<le> 256" and "0x800 < unat a + unat n"
  shows "settled s (read_frame i a n) Opcode_data_response n words None k =
    \<lparr>op_error = ClientError_remote_error,
     op_remote_status = (if 4096 < unat a + unat n then Status_out_of_range else Status_access_denied),
     op_request_id = i, op_attempts = k, op_data = map of_char ''read_rejected'', op_detail = ''remote request rejected''\<rparr>"
proof -
  have "served s (read_frame i a n) = fst (reject (read_frame i a n)
      (if 4096 < unat a + unat n then Status_out_of_range else Status_access_denied) ''read_rejected'')"
    using assms(2-4) by (simp add: served_def serve_def requested_length_read_frame Let_def)
  then show ?thesis
    using assms(4) served_read(1) [OF assms(1-3), of i a] served_decoded [OF assms(1), of "read_frame i a n"]
    by (simp add: settled_def lost_def answer_def validated_def OperationResult_default_def reject_def response_frame_def)
qed

lemma settled_write_ok:
  assumes "server_inv s" and "accepts_write s a data"
  shows "settled s (write_frame i a data) Opcode_write_acknowledgement 0 words None k =
    \<lparr>op_error = ClientError_none, op_remote_status = Status_ok, op_request_id = i, op_attempts = k,
     op_data = [], op_detail = ''ok''\<rparr>"
proof -
  have "frame_status (served s (write_frame i a data)) = Status_ok"
    using assms(2) by (simp add: served_def serve_def accepts_write_def response_frame_def Let_def)
  then show ?thesis
    using assms(2) served_write(1) [OF assms(1), of i a data] served_write(3) [OF assms, of i]
    by (simp add: settled_def lost_def answer_def validated_def served_decoded [OF assms(1)] OperationResult_default_def)
qed

lemma settled_write_disabled:
  assumes "server_inv s" and "\<not> writes_enabled (server_policy s)"
  shows "settled s (write_frame i a data) Opcode_write_acknowledgement 0 words None k =
    \<lparr>op_error = ClientError_remote_error, op_remote_status = Status_write_disabled, op_request_id = i, op_attempts = k,
     op_data = map of_char ''write_disabled'', op_detail = ''remote request rejected''\<rparr>"
proof -
  have "served s (write_frame i a data) = fst (reject (write_frame i a data) Status_write_disabled ''write_disabled'')"
    using assms(2) by (simp add: served_def serve_def Let_def)
  then show ?thesis
    using assms(2) served_write(1) [OF assms(1), of i a data] served_decoded [OF assms(1), of "write_frame i a data"]
    by (simp add: settled_def lost_def answer_def validated_def OperationResult_default_def reject_def response_frame_def
        accepts_write_def)
qed

lemma settled_corrupted:
  assumes "server_inv s"
  shows "settled s q opcode n words (Some TransportFault_corrupt_response) k =
    \<lparr>op_error = ClientError_malformed_response, op_remote_status = Status_ok, op_request_id = frame_request_id q,
     op_attempts = k, op_data = [], op_detail = ''checksum_mismatch''\<rparr>"
  using served_simps(1) [OF assms, of q] decode_altered(2) [OF served_simps(1) [OF assms, of q]]
    decoded_answer(3) [OF served_simps(1) [OF assms, of q]]
  by (simp add: settled_def lost_def validated_def verdict_def OperationResult_default_def answer_def dec_fail_def)

end
