(* ===== verification/System.thy ===== *)
theory System
  imports Fault_Scripts
begin

text \<open>
  The assembled system: a client over the loopback transport to the memory server. The theory states
  what a read and a write do under any fault script, and follows whole executions (calls, injected
  faults, trace and connection management) as a step relation.
\<close>

section \<open>Executions\<close>

text \<open>
  What a program can do to the assembled system: call the client, script a fault, clear the trace,
  and open or close the transport behind the client's back.
\<close>

inductive sys_step :: "LoopbackTransport Client \<Rightarrow> LoopbackTransport Client \<Rightarrow> bool" where
  call: "client_step loopback c x = Some (r, c') \<Longrightarrow> sys_step c c'"
| fault: "sys_step c (c\<lparr>client_transport := push_fault f (client_transport c)\<rparr>)"
| clear: "sys_step c (c\<lparr>client_transport := clear_trace (client_transport c)\<rparr>)"
| opened: "sys_step c (c\<lparr>client_transport := snd (loopback_connect (client_transport c))\<rparr>)"
| closed: "sys_step c (c\<lparr>client_transport := loopback_close (client_transport c)\<rparr>)"

inductive_cases sys_stepE: "sys_step c c'"

inductive reachable :: "ServerPolicy \<Rightarrow> ClientOptions \<Rightarrow> LoopbackTransport Client \<Rightarrow> bool"
  for policy options where
  initial: "MemoryServer_new policy = Some s \<Longrightarrow> reachable policy options (Client_new (LoopbackTransport_new s) options)"
| step: "reachable policy options c \<Longrightarrow> sys_step c c' \<Longrightarrow> reachable policy options c'"

text \<open>The server's policy and the bytes that policy protects.\<close>

definition guarded :: "MemoryServer \<Rightarrow> ServerPolicy \<times> byte list" where
  "guarded s = (server_policy s, protected (writable_under (server_policy s)) (mm_bytes (server_memory s)))"

definition sys_inv :: "ServerPolicy \<Rightarrow> LoopbackTransport Client \<Rightarrow> bool" where
  "sys_inv policy c \<longleftrightarrow> loop_inv (client_transport c) \<and> 1 \<le> maximum_read_attempts (client_options c) \<and>
     next_request_id c \<noteq> 0 \<and> guarded (client_server c) = guarded (fresh_server policy)"

lemma guarded_handle: "server_inv s \<Longrightarrow> handle s bytes = Some (h, s') \<Longrightarrow> guarded s' = guarded s"
  using srv_guard.step_view [of s bytes h s'] by (auto simp: guarded_def)

lemma guarded_exchange:
  assumes "loop_inv t" and "loopback_exchange t q d = Some (reply, t')"
  shows "guarded (loop_server t') = guarded (loop_server t)"
proof -
  have inv: "server_inv (loop_server t)" using assms(1) by (simp add: loop_inv_def)
  then show ?thesis
    using assms(2) by (cases rule: exchange_cases [of t q d]) (auto dest: guarded_handle [OF inv])
qed

text \<open>
  The same contract again, with the guarded part of the server as an invariant: what holds of every
  exchange holds of every client operation.
\<close>

interpretation guard: transport_service loopback
  "\<lambda>t. loop_inv t \<and> guarded (loop_server t) = g" sent_requests for g
  by (rule loopback_service_with) (auto dest: guarded_exchange)

lemma next_id_not_zero: "next_id i \<noteq> 0"
  by (simp add: next_id_def)

lemma sys_inv_step: "sys_inv policy c \<Longrightarrow> sys_step c c' \<Longrightarrow> sys_inv policy c'"
proof (erule sys_stepE, goal_cases)
  case (1 x r)
  then have "guard.client_inv (guarded (fresh_server policy)) c"
    by (simp add: sys_inv_def guard.client_inv_def)
  then obtain r' c'' where "client_step loopback c x = Some (r', c'')"
    "guard.client_inv (guarded (fresh_server policy)) c''" "op_request_id r' = next_request_id c"
    "next_request_id c'' = next_id (next_request_id c)"
    by (rule guard.client_step_outcome)
  with 1 show ?case by (simp add: sys_inv_def guard.client_inv_def next_id_not_zero)
qed (auto simp: sys_inv_def loop_inv_keep)

lemma reachable_inv: "reachable policy options c \<Longrightarrow> sys_inv policy c"
proof (induction rule: reachable.induct)
  case (initial s)
  then have "s = fresh_server policy" by (simp add: MemoryServer_new_eq)
  then show ?case by (simp add: sys_inv_def Client_new_def)
next
  case (step c c')
  then show ?case using sys_inv_step by blast
qed

lemma guarded_nth:
  assumes "guarded s = guarded (fresh_server p)" and "server_inv s" and "k < 4096" and "\<not> writable_under p k"
  shows "mm_bytes (server_memory s) ! k = initial_bytes ! k"
proof -
  have p: "server_policy s = p" using assms(1) by (simp add: guarded_def)
  have "protected (writable_under p) (mm_bytes (server_memory s)) = protected (writable_under p) initial_bytes"
    using assms(1) p by (auto simp: guarded_def)
  from arg_cong [OF this, of "\<lambda>xs. xs ! k"] show ?thesis
    using assms(2-4) by (simp add: protected_def server_inv_def memory_inv_def)
qed

section \<open>Properties\<close>

text \<open>
  C2. A read over the loopback under any fault script. It returns after the number of exchanges the
  script and the attempt limit determine; the fault met by the last exchange decides the outcome: lost
  exchanges give \<open>timeout\<close> or \<open>disconnected\<close>, damaged responses \<open>malformed_response\<close>, a misdirected
  one \<open>correlation_mismatch\<close>, and without a fault the read succeeds exactly when the range ends
  within the readable region. A successful read returns the memory bytes of the range, whatever faults
  came before, and no read changes the server. The trace grows by one pair of packets for each
  exchange, with the request and the outcome of each, and all counters move exactly as the script says.
\<close>

theorem read_under_fault_script:
  assumes "loop_inv (client_transport c)" and "0 < unat n" and "unat n \<le> 256" and "0 < d"
    and "1 \<le> maximum_read_attempts (client_options c)"
    and "read_script (unat (maximum_read_attempts (client_options c))) (client_faults c) = (k, fault, rest)"
  shows "\<exists>r c'. client_read loopback a n d c = Some (r, c') \<and> unat (op_attempts r) = k \<and>
    op_error r = fault_error fault
      (if unat a + unat n \<le> 0x800 then ClientError_none else ClientError_remote_error) \<and>
    (op_ok r \<longrightarrow> op_data r = take (unat n) (drop (unat a) (mm_bytes (server_memory (client_server c))))) \<and>
    client_server c' = client_server c \<and> client_faults c' = rest \<and>
    trace (client_transport c') = trace (client_transport c) @ packet_log (client_server c)
      (read_frame (next_request_id c) a n) (loop_next_sequence (client_transport c)) (met k (client_faults c)) \<and>
    metrics c' = (metrics c)\<lparr>operations := operations (metrics c) + 1,
      transport_attempts := transport_attempts (metrics c) + word_of_nat k,
      reconnects := reconnects (metrics c) + of_bool (\<not> loop_connected (client_transport c)) + word_of_nat (k - 1),
      retries := retries (metrics c) + word_of_nat (k - 1),
      timeouts := timeouts (metrics c) +
        word_of_nat (length (filter (\<lambda>x. x = Some TransportFault_timeout) (met k (client_faults c)))),
      protocol_errors := protocol_errors (metrics c) + of_bool (op_error r \<in> counted_errors)\<rparr>"
proof -
  have args: "readable_args n d" using assms(2-4) by (simp add: readable_args_def)
  obtain r c' where r: "client_read loopback a n d c = Some (r, c')" "client_server c' = client_server c"
    "client_faults c' = rest" "unat (op_attempts r) = k"
    "op_error r = fault_error fault (if unat a + unat n \<le> 0x800 then ClientError_none else ClientError_remote_error)"
    "op_ok r \<longrightarrow> op_data r = take (unat n) (drop (unat a) (mm_bytes (server_memory (client_server c))))"
    by (rule client_read_script [OF assms(1) args assms(5,6)])
  from r client_read_log [OF assms(1) args assms(5,6) r(1)] show ?thesis
    by (intro exI [of _ r] exI [of _ c']) (simp add: trace_def metrics_def)
qed

theorem read_under_fault_script_witness:
  "\<exists>r c'. client_read loopback 0 16 10 ((fresh_client ServerPolicy_default)\<lparr>client_transport :=
      push_fault TransportFault_timeout (LoopbackTransport_new (fresh_server ServerPolicy_default))\<rparr>) = Some (r, c') \<and>
    unat (op_attempts r) = 2 \<and> op_error r = ClientError_none \<and> op_data r = take 16 initial_bytes"
proof -
  let ?c = "(fresh_client ServerPolicy_default)\<lparr>client_transport :=
      push_fault TransportFault_timeout (LoopbackTransport_new (fresh_server ServerPolicy_default))\<rparr>"
  have "client_faults ?c = [TransportFault_timeout]"
    by (simp add: push_fault_def LoopbackTransport_new_def)
  then show ?thesis
    using read_under_fault_script [of ?c 16 10 2 None "[]" 0]
    by (auto simp: loop_inv_keep op_ok_def)
qed

text \<open>
  C11. A write over the loopback under any fault script: one exchange, one fault consumed, no second
  attempt. The outcome is decided by that fault as for reads, else by the server's policy. The memory
  is updated exactly when the policy accepts the write and the exchange was not lost: a damaged
  response is reported as an error although the bytes were written, which is why the client does not
  repeat writes. The trace grows by one pair of packets, no retry is counted, and the other counters move
  as the fault says.
\<close>

theorem write_under_fault_script:
  assumes "loop_inv (client_transport c)" and "data \<noteq> []" and "length data \<le> 256" and "0 < d"
  shows "\<exists>r c'. client_write loopback a data d c = Some (r, c') \<and> op_attempts r = 1 \<and>
    client_faults c' = tl (client_faults c) \<and>
    op_error r = fault_error (next_fault (client_transport c))
      (if accepts_write (client_server c) a data then ClientError_none else ClientError_remote_error) \<and>
    client_server c' = (if accepts_write (client_server c) a data \<and> \<not> lost (next_fault (client_transport c))
      then with_memory (client_server c) (patched a data (mm_bytes (server_memory (client_server c))))
      else client_server c) \<and>
    trace (client_transport c') = trace (client_transport c) @ packet_log (client_server c)
      (write_frame (next_request_id c) a data) (loop_next_sequence (client_transport c)) [next_fault (client_transport c)] \<and>
    metrics c' = (metrics c)\<lparr>operations := operations (metrics c) + 1,
      transport_attempts := transport_attempts (metrics c) + 1,
      reconnects := reconnects (metrics c) + of_bool (\<not> loop_connected (client_transport c)),
      timeouts := timeouts (metrics c) + of_bool (next_fault (client_transport c) = Some TransportFault_timeout),
      protocol_errors := protocol_errors (metrics c) + of_bool (op_error r \<in> counted_errors)\<rparr>"
proof -
  have args: "writable_args data d" using assms(2-4) by (simp add: writable_args_def)
  obtain r c' where r: "client_write loopback a data d c = Some (r, c')" "client_faults c' = tl (client_faults c)"
    "op_attempts r = 1" "op_error r = fault_error (client_fault c)
      (if accepts_write (client_server c) a data then ClientError_none else ClientError_remote_error)"
    "client_server c' = (if accepts_write (client_server c) a data \<and> \<not> lost (client_fault c)
      then with_memory (client_server c) (patched a data (mm_bytes (server_memory (client_server c))))
      else client_server c)"
    by (rule client_write_script [OF assms(1) args])
  from r client_write_log [OF assms(1) args r(1)] show ?thesis
    by (intro exI [of _ r] exI [of _ c']) (simp add: trace_def metrics_def)
qed

theorem write_under_fault_script_witness:
  "\<exists>r c'. client_write loopback 0x100 [0xAB] 10
      ((fresh_client (ServerPolicy_default\<lparr>writes_enabled := True\<rparr>))\<lparr>client_transport :=
        push_fault TransportFault_corrupt_response
          (LoopbackTransport_new (fresh_server (ServerPolicy_default\<lparr>writes_enabled := True\<rparr>)))\<rparr>) = Some (r, c') \<and>
    op_error r = ClientError_malformed_response \<and> mm_bytes (server_memory (client_server c')) = patched 0x100 [0xAB] initial_bytes"
proof -
  let ?p = "ServerPolicy_default\<lparr>writes_enabled := True\<rparr>"
  let ?c = "(fresh_client ?p)\<lparr>client_transport :=
        push_fault TransportFault_corrupt_response (LoopbackTransport_new (fresh_server ?p))\<rparr>"
  have "next_fault (client_transport ?c) = Some TransportFault_corrupt_response"
    by (simp add: push_fault_def LoopbackTransport_new_def next_fault_def)
  moreover have "accepts_write (client_server ?c) 0x100 [0xAB]"
    by (simp add: accepts_write_def in_allowlist_def ServerPolicy_default_def)
  ultimately show ?thesis
    using write_under_fault_script [of ?c "[0xAB]" 10 "0x100"] by (auto simp: loop_inv_keep lost_def)
qed

text \<open>
  C18. Transient faults are absorbed: a read that meets fewer lost exchanges than it has attempts ends as
  if there had been none, with one attempt more than there were losses; one that meets at least as
  many fails with the error of the last attempt after exactly the maximum number of attempts.
\<close>

theorem transient_faults_are_absorbed:
  assumes "loop_inv (client_transport c)" and "0 < unat n" and "unat n \<le> 256" and "0 < d"
    and "1 \<le> maximum_read_attempts (client_options c)" and "list_all loses (client_faults c)"
    and "unat a + unat n \<le> 0x800"
  shows "\<exists>r c'. client_read loopback a n d c = Some (r, c') \<and>
    (let lost = length (client_faults c); limit = unat (maximum_read_attempts (client_options c)) in
     if lost < limit
     then op_ok r \<and> unat (op_attempts r) = lost + 1 \<and> client_faults c' = [] \<and>
       op_data r = take (unat n) (drop (unat a) (mm_bytes (server_memory (client_server c))))
     else op_error r = fault_error (Some (client_faults c ! (limit - 1))) ClientError_none \<and>
       unat (op_attempts r) = limit \<and> client_faults c' = drop limit (client_faults c))"
proof -
  let ?fs = "client_faults c" and ?limit = "unat (maximum_read_attempts (client_options c))"
  have limit: "0 < ?limit" using assms(5) by (simp add: word_le_nat_alt)
  have args: "readable_args n d" using assms(2-4) by (simp add: readable_args_def)
  show ?thesis
  proof (cases "length ?fs < ?limit")
    case True
    then have script: "read_script ?limit ?fs = (length ?fs + 1, None, [])"
      using read_script_recovers [OF assms(6), of ?limit "[]"] by simp
    from client_read_script [OF assms(1) args assms(5) script, of a] True assms(7) show ?thesis
      by (simp add: op_ok_def Let_def) blast
  next
    case False
    have "list_all loses (take ?limit ?fs)" and "length (take ?limit ?fs) = ?limit"
      using assms(6) False by (auto simp: list_all_iff dest: in_set_takeD)
    then have "read_script ?limit (take ?limit ?fs @ drop ?limit ?fs) = (?limit, Some (last (take ?limit ?fs)), drop ?limit ?fs)"
      using limit by (intro read_script_exhausted) simp_all
    moreover have "last (take ?limit ?fs) = ?fs ! (?limit - 1)"
      using False limit by (subst last_conv_nth) (auto simp: min_def not_less)
    ultimately have script: "read_script ?limit ?fs = (?limit, Some (?fs ! (?limit - 1)), drop ?limit ?fs)" by simp
    have "fault_error (Some x) e = fault_error (Some x) ClientError_none" for x e by (cases x) simp_all
    with client_read_script [OF assms(1) args assms(5) script, of a] False show ?thesis
      by (simp add: Let_def) metis
  qed
qed

theorem transient_faults_are_absorbed_witness:
  "\<exists>r c'. client_read loopback 0x40 1 10 ((fresh_client ServerPolicy_default)\<lparr>client_transport :=
      push_fault TransportFault_disconnect (LoopbackTransport_new (fresh_server ServerPolicy_default))\<rparr>) = Some (r, c') \<and>
    op_ok r \<and> unat (op_attempts r) = 2"
proof -
  let ?c = "(fresh_client ServerPolicy_default)\<lparr>client_transport :=
      push_fault TransportFault_disconnect (LoopbackTransport_new (fresh_server ServerPolicy_default))\<rparr>"
  have "client_faults ?c = [TransportFault_disconnect]"
    by (simp add: push_fault_def LoopbackTransport_new_def)
  then show ?thesis
    using transient_faults_are_absorbed [of ?c 1 10 "0x40"] by (auto simp: loop_inv_keep)
qed

text \<open>
  What was written is read back: after a write the client reports as successful, a read of the same
  range that the client reports as successful returns the written bytes, whatever faults the script
  injected around both operations.
\<close>

lemma read_returns_written_bytes:
  assumes "loop_inv (client_transport c)" and "1 \<le> maximum_read_attempts (client_options c)"
    and "client_write loopback a data d c = Some (w, c1)" and "op_ok w"
    and "client_read loopback a (size_of data) d' (c1\<lparr>client_transport := t\<rparr>) = Some (r, c2)" and "op_ok r"
    and "loop_inv t" and "loop_server t = client_server c1"
  shows "op_data r = data"
proof -
  have wargs: "writable_args data d" using assms(3,4)
    by (auto simp: client_write_eq op_ok_def OperationResult_default_def split: if_splits)
  have rargs: "readable_args (size_of data) d'" using assms(5,6)
    by (auto simp: client_read_eq op_ok_def OperationResult_default_def split: if_splits)
  have len: "unat (size_of data) = length data" using wargs by (simp add: writable_args_def unat_size_of)
  let ?mem = "mm_bytes (server_memory (client_server c))"
  obtain r' c' where "client_write loopback a data d c = Some (r', c')" "follows c c'"
    "op_error r' = fault_error (client_fault c)
      (if accepts_write (client_server c) a data then ClientError_none else ClientError_remote_error)"
    "client_server c' = (if accepts_write (client_server c) a data \<and> \<not> lost (client_fault c)
      then with_memory (client_server c) (patched a data ?mem) else client_server c)"
    by (rule client_write_script [OF assms(1) wargs])
  then have c1: "accepts_write (client_server c) a data" "client_server c1 = with_memory (client_server c) (patched a data ?mem)"
    and options: "client_options c1 = client_options c"
    using assms(3,4) by (simp_all add: op_ok_def fault_error_none lost_def follows_def split: if_splits)
  let ?c = "c1\<lparr>client_transport := t\<rparr>"
  obtain k fault rest where script:
    "read_script (unat (maximum_read_attempts (client_options ?c))) (client_faults ?c) = (k, fault, rest)"
    by (metis prod_cases3)
  have "op_data r = take (length data) (drop (unat a) (mm_bytes (server_memory (loop_server t))))"
    by (rule client_read_script [OF _ rargs _ script, of a]) (use assms(2,5-7) options len in auto)
  then show ?thesis
    using c1 assms(8) client_inv_server [OF assms(1)] take_drop_patch [of "unat a" data ?mem]
    by (simp add: patched_def accepts_write_def)
qed

text \<open>
  C1. Whole executions: in every state reachable by client calls with any arguments, scripted faults,
  trace clearing and connecting or closing the transport in any order, any further call returns (no
  undefined behaviour); a memory byte differs from its initial value only if the policy of the
  server enables writes and the byte lies in its allowlist and in the read/write region; the packet
  trace consists of request and reply pairs with consecutive numbers; and the next request ID is not 0.
\<close>

theorem reachable_states_are_safe:
  assumes "reachable policy options c"
  shows "(\<exists>r c'. client_step loopback c x = Some (r, c') \<and> reachable policy options c') \<and>
    (\<forall>k < 4096. mm_bytes (server_memory (client_server c)) ! k \<noteq> initial_bytes ! k \<longrightarrow>
      writes_enabled policy \<and> unat (write_allow_begin policy) \<le> k \<and> k \<le> unat (write_allow_end policy) \<and>
      0x100 \<le> k \<and> k \<le> 0x7FF) \<and>
    trace_wf (client_transport c) \<and> next_request_id c \<noteq> 0"
proof -
  have inv: "sys_inv policy c" using assms by (rule reachable_inv)
  then have "loop.client_inv c" by (simp add: sys_inv_def loop.client_inv_def)
  then obtain r c' where "client_step loopback c x = Some (r, c')"
    by (rule loop.client_step_outcome)
  moreover have "writable_under policy k"
    if "k < 4096" "mm_bytes (server_memory (client_server c)) ! k \<noteq> initial_bytes ! k" for k
    using that inv guarded_nth [of "client_server c" policy k] by (auto simp: sys_inv_def loop_inv_def)
  ultimately show ?thesis
    using inv assms by (fastforce simp: sys_inv_def loop_inv_def writable_under_def intro: reachable.step sys_step.call)
qed

theorem reachable_states_are_safe_witness:
  "\<exists>r c'. client_step loopback (fresh_client ServerPolicy_default) (Write 0x100 [1] 10) = Some (r, c') \<and>
     reachable ServerPolicy_default ClientOptions_default c'"
  using reachable_states_are_safe [OF reachable.initial [OF MemoryServer_new_eq],
      of ServerPolicy_default ClientOptions_default "Write 0x100 [1] 10"]
  by (simp add: fresh_client_def)

text \<open>
  C23. The device identity cannot be changed: in every reachable state of a system with any policy, even
  one that allows writes everywhere, a successful read that ends below \<open>0x100\<close> returns the bytes the
  memory map was built with.
\<close>

theorem identity_region_is_immutable:
  assumes "reachable policy options c" and "client_read loopback a n d c = Some (r, c')" and "op_ok r"
    and "unat a + unat n \<le> 0x100"
  shows "op_data r = take (unat n) (drop (unat a) initial_bytes)"
proof -
  have inv: "loop_inv (client_transport c)" "1 \<le> maximum_read_attempts (client_options c)"
    "guarded (client_server c) = guarded (fresh_server policy)"
    using reachable_inv [OF assms(1)] by (simp_all add: sys_inv_def)
  let ?mem = "mm_bytes (server_memory (client_server c))"
  have args: "readable_args n d" using assms(2,3)
    by (auto simp: client_read_eq op_ok_def OperationResult_default_def split: if_splits)
  obtain k fault rest where script:
    "read_script (unat (maximum_read_attempts (client_options c))) (client_faults c) = (k, fault, rest)"
    by (metis prod_cases3)
  have data: "op_data r = take (unat n) (drop (unat a) ?mem)"
    by (rule client_read_script [OF inv(1) args inv(2) script, of a]) (use assms(2,3) in auto)
  have "?mem ! k = initial_bytes ! k" if "k < 0x100" for k
    using that inv(1) guarded_nth [OF inv(3), of k] by (simp add: loop_inv_def writable_under_def)
  then show ?thesis
    unfolding data using assms(4) client_inv_server [OF inv(1)] by (intro nth_equalityI) auto
qed

theorem identity_region_is_immutable_witness:
  "\<exists>r c'. client_read loopback 0 33 10 (fresh_client ServerPolicy_default) = Some (r, c') \<and>
     op_data r = map of_char ''IMLP/1 synthetic memory simulator''"
proof -
  let ?c = "fresh_client ServerPolicy_default"
  have reach: "reachable ServerPolicy_default ClientOptions_default ?c"
    unfolding fresh_client_def by (rule reachable.initial [OF MemoryServer_new_eq])
  have args: "loop_inv (client_transport ?c)" "readable_args 33 10" "1 \<le> maximum_read_attempts (client_options ?c)"
    "read_script (unat (maximum_read_attempts (client_options ?c))) (client_faults ?c) = (1, None, [])"
    by (simp_all add: readable_args_def)
  obtain r c' where r: "client_read loopback 0 33 10 ?c = Some (r, c')" "op_ok r"
    by (rule client_read_script [OF args, of 0]) (simp add: op_ok_def)
  from identity_region_is_immutable [OF reach r] r(1) show ?thesis
    by (simp add: initial_bytes_def identity_def)
qed

end
