(* ===== verification/Remote_Memory.thy ===== *)
theory Remote_Memory
  imports System
begin

text \<open>
  What the protocol stack promises its users, without frames, attempts, faults or traces: a byte memory
  behind a write policy, on which a call either takes effect and says so, is refused, is invalid, or
  fails with nothing known about a permitted write. The client over the loopback refines this
  specification, call by call and for whole sessions.
\<close>

section \<open>The specification\<close>

datatype outcome = Done "byte list" | Refused | Failed | Invalid

definition permitted :: "ServerPolicy \<Rightarrow> u32 \<Rightarrow> byte list \<Rightarrow> bool" where
  "permitted p a data \<longleftrightarrow> writes_enabled p \<and> in_allowlist p (unat a) (length data) \<and>
     0x100 \<le> unat a \<and> unat a + length data \<le> 0x800"

inductive remote_step :: "ServerPolicy \<Rightarrow> byte list \<Rightarrow> client_call \<times> outcome \<Rightarrow> byte list \<Rightarrow> bool" for p where
  read_done: "\<not> bad_call (Read a n d) \<Longrightarrow> unat a + unat n \<le> 0x800 \<Longrightarrow>
    remote_step p m (Read a n d, Done (take (unat n) (drop (unat a) m))) m"
| read_refused: "\<not> bad_call (Read a n d) \<Longrightarrow> 0x800 < unat a + unat n \<Longrightarrow> remote_step p m (Read a n d, Refused) m"
| write_done: "\<not> bad_call (Write a data d) \<Longrightarrow> permitted p a data \<Longrightarrow>
    remote_step p m (Write a data d, Done []) (patched a data m)"
| write_refused: "\<not> bad_call (Write a data d) \<Longrightarrow> \<not> permitted p a data \<Longrightarrow> remote_step p m (Write a data d, Refused) m"
| not_done: "\<not> bad_call x \<Longrightarrow> remote_step p m (x, Failed) m"
| write_unknown: "\<not> bad_call (Write a data d) \<Longrightarrow> permitted p a data \<Longrightarrow>
    remote_step p m (Write a data d, Failed) (patched a data m)"
| invalid: "bad_call x \<Longrightarrow> remote_step p m (x, Invalid) m"

inductive_cases remote_readE: "remote_step p m (Read a n d, w) m'"
inductive_cases remote_writeE: "remote_step p m (Write a data d, w) m'"
inductive_cases remote_doneE: "remote_step p m (x, Done bs) m'"

text \<open>Consequences of the specification alone.\<close>

lemma remote_step_length: "remote_step p m l m' \<Longrightarrow> length m = 4096 \<Longrightarrow> length m' = 4096"
  by (induction rule: remote_step.induct) (auto simp: patched_def permitted_def)

lemma nth_patched:
  assumes "unat a + length data \<le> length m" and "k < length m"
  shows "patched a data m ! k = (if unat a \<le> k \<and> k < unat a + length data then data ! (k - unat a) else m ! k)"
  unfolding patched_def using assms by (rule nth_patch)

text \<open>The cells a call can change.\<close>

fun touches :: "client_call \<Rightarrow> nat set" where
  "touches (Read a n d) = {}"
| "touches (Write a data d) = {unat a ..< unat a + length data}"

lemma remote_step_frame:
  assumes "remote_step p m (x, w) m'" and "length m = 4096" and "k < 4096" and "k \<notin> touches x"
  shows "m' ! k = m ! k"
  using assms by (cases rule: remote_step.cases) (auto simp: nth_patched permitted_def)

lemma remote_run_length: "spec_run (remote_step p) m ls m' \<Longrightarrow> length m = 4096 \<Longrightarrow> length m' = 4096"
  using spec_run_invariant [of "remote_step p" m ls m' "\<lambda>m. length m = 4096"] remote_step_length by blast

lemma remote_run_frame:
  assumes "spec_run (remote_step p) m ls m'" and "length m = 4096" and "k < 4096"
    and "\<forall>(x, w) \<in> set ls. k \<notin> touches x"
  shows "m' ! k = m ! k"
  using assms
proof (induction rule: spec_run.induct)
  case (spec_Cons m l m1 ls m')
  obtain x w where l: "l = (x, w)" by fastforce
  have "m1 ! k = m ! k" using spec_Cons.hyps(1) spec_Cons.prems unfolding l by (auto intro: remote_step_frame)
  with spec_Cons remote_step_length show ?case by auto
qed simp

text \<open>A write that is reported as done is read back until another call writes into its range.\<close>

lemma remote_read_back:
  assumes "spec_run (remote_step p) m ((Write a data d, Done ws) # ls @ [(Read a (size_of data) d', Done bs)]) m'"
    and "length m = 4096" and "\<forall>(x, w) \<in> set ls. touches x \<inter> {unat a ..< unat a + length data} = {}"
  shows "bs = data"
proof -
  obtain m1 m2 where w: "remote_step p m (Write a data d, Done ws) m1"
    and mid: "spec_run (remote_step p) m1 ls m2" and r: "remote_step p m2 (Read a (size_of data) d', Done bs) m'"
    using assms(1) by (auto simp: spec_run_Cons spec_run_append)
  from w have "permitted p a data" "\<not> bad_call (Write a data d)" and m1: "m1 = patched a data m"
    by (auto elim: remote_writeE)
  then have fits: "unat a + length data \<le> 4096" "unat (size_of data) = length data"
    by (auto simp: permitted_def unat_size_of)
  have len: "length m1 = 4096" "length m2 = 4096"
    using remote_step_length [OF w assms(2)] remote_run_length [OF mid] by simp_all
  have bs: "bs = take (length data) (drop (unat a) m2)"
    using r fits(2) by (auto elim: remote_readE)
  have "m2 ! k = data ! (k - unat a)" if "unat a \<le> k" "k < unat a + length data" for k
    using remote_run_frame [OF mid len(1), of k] assms(3) that fits(1) nth_patched [of a data m k] assms(2) m1
    by (fastforce simp: disjoint_iff)
  then show ?thesis
    unfolding bs using len(2) fits(1) by (intro nth_equalityI) auto
qed

section \<open>The client over the loopback implements it\<close>

text \<open>What a caller concludes from a result.\<close>

definition outcome_of_result :: "OperationResult \<Rightarrow> outcome" where
  "outcome_of_result r =
     (case op_error r of
        ClientError_none \<Rightarrow> Done (op_data r)
      | ClientError_invalid_argument \<Rightarrow> Invalid
      | ClientError_remote_error \<Rightarrow> Refused
      | _ \<Rightarrow> Failed)"

lemma outcome_Done [simp]: "outcome_of_result r = Done bs \<longleftrightarrow> op_ok r \<and> bs = op_data r"
  by (auto simp: outcome_of_result_def op_ok_def split: ClientError.splits)

lemma outcome_of_fault_error:
  assumes "op_error r = fault_error fault e"
  obtains "fault = None" "op_error r = e" | x where "fault = Some x" "outcome_of_result r = Failed"
proof (cases fault)
  case (Some x)
  with assms show thesis by (intro that(2) [of x]) (cases x; simp add: outcome_of_result_def)+
qed (use assms that in simp)

abbreviation client_memory :: "LoopbackTransport Client \<Rightarrow> byte list" where
  "client_memory c \<equiv> mm_bytes (server_memory (client_server c))"

lemma bad_call_args: "bad_call (Read a n d) \<longleftrightarrow> \<not> readable_args n d" "bad_call (Write a data d) \<longleftrightarrow> \<not> writable_args data d"
  by (auto simp: readable_args_def writable_args_def)

lemma accepts_write_permitted: "accepts_write s a data = permitted (server_policy s) a data"
  by (simp add: accepts_write_def permitted_def)

text \<open>A call with bad arguments touches nothing.\<close>

lemma bad_call_step:
  assumes "bad_call x"
  obtains r where "client_step loopback c x = Some (r, started c)" "outcome_of_result r = Invalid"
  using assms that
  by (cases x) (auto simp: bad_call_args client_read_eq client_write_eq outcome_of_result_def simp del: bad_call.simps)

lemma client_call_refines:
  assumes "loop_inv (client_transport c)" and "1 \<le> maximum_read_attempts (client_options c)"
  obtains r c' where "client_step loopback c x = Some (r, c')" "loop_inv (client_transport c')"
    "client_options c' = client_options c" "server_policy (client_server c') = server_policy (client_server c)"
    "remote_step (server_policy (client_server c)) (client_memory c) (x, outcome_of_result r) (client_memory c')"
proof (cases "bad_call x")
  case True
  then obtain r where "client_step loopback c x = Some (r, started c)" "outcome_of_result r = Invalid"
    by (rule bad_call_step)
  with True assms show thesis by (intro that [of r "started c"]) (auto intro: remote_step.invalid)
next
  case good: False
  show thesis
  proof (cases x)
    case (Read a n d)
    then have args: "readable_args n d" using good by (simp add: bad_call_args del: bad_call.simps)
    obtain k fault rest where script:
      "read_script (unat (maximum_read_attempts (client_options c))) (client_faults c) = (k, fault, rest)"
      by (metis prod_cases3)
    obtain r c' where r: "client_read loopback a n d c = Some (r, c')" "client_server c' = client_server c" "follows c c'"
      "op_error r = fault_error fault (if unat a + unat n \<le> 0x800 then ClientError_none else ClientError_remote_error)"
      "op_ok r \<longrightarrow> op_data r = take (unat n) (drop (unat a) (client_memory c))"
      by (rule client_read_script [OF assms(1) args assms(2) script, of a])
    have "remote_step (server_policy (client_server c)) (client_memory c) (x, outcome_of_result r) (client_memory c)"
      using r(4)
    proof (cases rule: outcome_of_fault_error)
      case 1
      with r(5) good show ?thesis
        unfolding Read by (auto simp: outcome_of_result_def op_ok_def intro: remote_step.intros split: if_splits)
    qed (use good in \<open>auto intro: remote_step.not_done\<close>)
    with r Read show thesis by (intro that [of r c']) (auto simp: follows_def)
  next
    case (Write a data d)
    then have args: "writable_args data d" using good by (simp add: bad_call_args del: bad_call.simps)
    obtain r c' where r: "client_write loopback a data d c = Some (r, c')" "follows c c'"
      "op_error r = fault_error (client_fault c)
        (if accepts_write (client_server c) a data then ClientError_none else ClientError_remote_error)"
      "op_ok r \<longrightarrow> op_data r = []"
      "client_server c' = (if accepts_write (client_server c) a data \<and> \<not> lost (client_fault c)
        then with_memory (client_server c) (patched a data (client_memory c)) else client_server c)"
      by (rule client_write_script [OF assms(1) args])
    have "remote_step (server_policy (client_server c)) (client_memory c) (x, outcome_of_result r) (client_memory c')"
      using r(3)
    proof (cases rule: outcome_of_fault_error)
      case 1
      with r(4,5) good show ?thesis
        unfolding Write
        by (auto simp: outcome_of_result_def op_ok_def lost_def accepts_write_permitted intro: remote_step.intros split: if_splits)
    qed (use r(5) good Write in \<open>auto simp: accepts_write_permitted intro: remote_step.intros\<close>)
    with r Write show thesis by (intro that [of r c']) (auto simp: follows_def)
  qed
qed

end
