(* ===== verification/Shared.thy ===== *)
theory Shared
  imports Remote_Memory
begin

text \<open>
  Several clients of one server. A \<open>LoopbackTransport\<close> keeps a reference to its \<open>MemoryServer\<close>, so
  transports built on the same server share it. Here the server's state is held once, and a call finds
  it in the client's transport and leaves it for the next one. Calls are made one after the other: the
  library has no locks and no threads. Sessions of any number of clients, interleaved in any order,
  refine the memory of theory \<open>Remote_Memory\<close>.
\<close>

section \<open>Definitions\<close>

record Shared =
  shared_server :: MemoryServer
  shared_clients :: "LoopbackTransport Client list"

text \<open>The reference member \<open>server_\<close> of client \<open>c\<close>'s transport refers to the server in state \<open>s\<close>.\<close>

definition attach :: "MemoryServer \<Rightarrow> LoopbackTransport Client \<Rightarrow> LoopbackTransport Client" where
  "attach s c = c\<lparr>client_transport := (client_transport c)\<lparr>loop_server := s\<rparr>\<rparr>"

definition Shared_new :: "ServerPolicy \<Rightarrow> ClientOptions list \<Rightarrow> Shared option" where
  "Shared_new policy options = do {
     server \<leftarrow> MemoryServer_new policy;
     Some \<lparr>shared_server = server, shared_clients = map (Client_new (LoopbackTransport_new server)) options\<rparr>
   }"

text \<open>What happens to client \<open>i\<close>: a call, a scripted fault, or a change of its transport by the program.\<close>

datatype shared_event =
  Call nat client_call | Inject nat TransportFault | Clear nat | Open nat | Shut nat

fun event_client :: "shared_event \<Rightarrow> nat" where
  "event_client (Call i x) = i"
| "event_client (Inject i f) = i"
| "event_client (Clear i) = i"
| "event_client (Open i) = i"
| "event_client (Shut i) = i"

definition on_transport :: "(LoopbackTransport \<Rightarrow> LoopbackTransport) \<Rightarrow> LoopbackTransport Client \<Rightarrow> LoopbackTransport Client" where
  "on_transport f c = c\<lparr>client_transport := f (client_transport c)\<rparr>"

fun client_event :: "LoopbackTransport Client \<Rightarrow> shared_event \<Rightarrow>
    (OperationResult option \<times> LoopbackTransport Client) option" where
  "client_event c (Call i x) = do { (r, c') \<leftarrow> client_step loopback c x; Some (Some r, c') }"
| "client_event c (Inject i f) = Some (None, on_transport (push_fault f) c)"
| "client_event c (Clear i) = Some (None, on_transport clear_trace c)"
| "client_event c (Open i) = Some (None, on_transport (snd \<circ> loopback_connect) c)"
| "client_event c (Shut i) = Some (None, on_transport loopback_close c)"

definition shared_step :: "Shared \<Rightarrow> shared_event \<Rightarrow> (OperationResult option \<times> Shared) option" where
  "shared_step sys e = do {
     c \<leftarrow> at (shared_clients sys) (event_client e);
     (r, c') \<leftarrow> client_event (attach (shared_server sys) c) e;
     Some (r, \<lparr>shared_server = client_server c', shared_clients = (shared_clients sys)[event_client e := c']\<rparr>)
   }"

section \<open>Interleaved sessions\<close>

text \<open>Good clients, whatever server state their transports last saw.\<close>

definition good_client :: "LoopbackTransport Client \<Rightarrow> bool" where
  "good_client c \<longleftrightarrow> trace_wf (client_transport c) \<and> 1 \<le> maximum_read_attempts (client_options c)"

definition shared_inv :: "ServerPolicy \<Rightarrow> nat \<Rightarrow> Shared \<Rightarrow> bool" where
  "shared_inv p n sys \<longleftrightarrow> server_inv (shared_server sys) \<and> server_policy (shared_server sys) = p \<and>
     length (shared_clients sys) = n \<and> list_all good_client (shared_clients sys)"

abbreviation shared_memory :: "Shared \<Rightarrow> byte list" where
  "shared_memory sys \<equiv> mm_bytes (server_memory (shared_server sys))"

lemma shared_inv_new:
  assumes "Shared_new p options = Some sys"
  shows "shared_inv p (length options) sys" "shared_memory sys = initial_bytes"
  using assms
  by (auto simp: Shared_new_def MemoryServer_new_eq shared_inv_def good_client_def list_all_iff Client_new_def
      LoopbackTransport_new_def trace_wf_def)

lemma attach_simps [simp]:
  "client_server (attach s c) = s" "client_options (attach s c) = client_options c"
  "loop_inv (client_transport (attach s c)) \<longleftrightarrow> server_inv s \<and> trace_wf (client_transport c)"
  by (auto simp: attach_def loop_inv_def)

text \<open>What an observer of the memory sees of an event: the call and its outcome, or nothing.\<close>

fun observed :: "shared_event \<Rightarrow> OperationResult option \<Rightarrow> (client_call \<times> outcome) option" where
  "observed (Call i x) (Some r) = Some (x, outcome_of_result r)"
| "observed _ _ = None"

definition remote_event :: "ServerPolicy \<Rightarrow> byte list \<Rightarrow> (client_call \<times> outcome) option \<Rightarrow> byte list \<Rightarrow> bool" where
  "remote_event p m l m' \<longleftrightarrow> (case l of None \<Rightarrow> m' = m | Some l \<Rightarrow> remote_step p m l m')"

lemma map_filter_append: "List.map_filter f (xs @ ys) = List.map_filter f xs @ List.map_filter f ys"
  by (simp add: List.map_filter_def)

lemma remote_events: "spec_run (remote_event p) m ls m' = spec_run (remote_step p) m (List.map_filter id ls) m'"
proof (induction ls arbitrary: m)
  case (Cons l ls)
  then show ?case by (cases l) (auto simp: spec_run_Cons remote_event_def)
qed simp

lemma client_event_refines:
  assumes "loop_inv (client_transport c)" and "1 \<le> maximum_read_attempts (client_options c)"
  obtains r c' where "client_event c e = Some (r, c')" "loop_inv (client_transport c')"
    "client_options c' = client_options c" "server_policy (client_server c') = server_policy (client_server c)"
    "remote_event (server_policy (client_server c)) (client_memory c) (observed e r) (client_memory c')"
proof (cases e)
  case (Call i x)
  show thesis
    by (rule client_call_refines [OF assms, of x]) (use Call in \<open>auto simp: remote_event_def intro: that\<close>)
qed (use assms loop_inv_keep in \<open>auto simp: remote_event_def on_transport_def intro: that\<close>)

lemma shared_step_refines:
  assumes "shared_inv p n sys" and "event_client e < n"
  obtains r sys' where "shared_step sys e = Some (r, sys')" "shared_inv p n sys'"
    "remote_event p (shared_memory sys) (observed e r) (shared_memory sys')"
proof -
  let ?i = "event_client e"
  let ?c = "attach (shared_server sys) (shared_clients sys ! ?i)"
  have sys: "server_inv (shared_server sys)" "server_policy (shared_server sys) = p" "?i < length (shared_clients sys)"
    "length (shared_clients sys) = n" "\<And>j. j < n \<Longrightarrow> good_client (shared_clients sys ! j)"
    using assms by (auto simp: shared_inv_def list_all_length)
  then have c: "loop_inv (client_transport ?c)" "1 \<le> maximum_read_attempts (client_options ?c)"
    using assms(2) by (simp_all add: good_client_def)
  obtain r c' where c': "client_event ?c e = Some (r, c')" "loop_inv (client_transport c')"
    "client_options c' = client_options ?c" "server_policy (client_server c') = server_policy (client_server ?c)"
    "remote_event (server_policy (client_server ?c)) (client_memory ?c) (observed e r) (client_memory c')"
    by (rule client_event_refines [OF c])
  then have "server_inv (client_server c')" "good_client c'"
    using c(2) by (simp_all add: loop_inv_def good_client_def)
  with c' sys show thesis
    by (intro that) (auto simp: shared_step_def at_in shared_inv_def list_all_length nth_list_update)
qed

interpretation shared: simulation shared_step "shared_inv p n" "\<lambda>e. event_client e < n" shared_memory observed "remote_event p" for p n
proof (unfold_locales, goal_cases)
  case (1 sys e)
  then show ?case by (metis shared_step_refines)
next
  case (2 sys e r sys')
  then show ?case by (metis shared_step_refines option.inject prod.inject)
qed

section \<open>Properties\<close>

text \<open>
  C3. Refinement of the remote memory. Any number of clients work on one server, their calls interleaved in
  any order with injected faults, cleared traces and transports opened or closed by the program. Every
  such execution returns, keeps the invariant, and is an execution of the specification: each call
  takes effect atomically in the order made, with the outcome the caller is told (done with these
  bytes, refused, invalid, or failed with a permitted write applied or not), and nothing else changes
  the memory.
\<close>

theorem shared_sessions_refine_remote_memory:
  assumes "shared_inv p n sys" and "\<forall>e \<in> set es. event_client e < n"
  shows "\<exists>rs sys'. run shared_step sys es = Some (rs, sys') \<and> shared_inv p n sys' \<and>
    spec_run (remote_step p) (shared_memory sys) (List.map_filter id (map2 observed es rs)) (shared_memory sys')"
proof -
  have es: "list_all (\<lambda>e. event_client e < n) es" using assms(2) by (simp add: list_all_iff)
  obtain rs sys' where rs: "run shared_step sys es = Some (rs, sys')" "shared_inv p n sys'"
    using shared.run_total [OF assms(1) es] by blast
  from shared.run_simulates [OF assms(1) es rs(1)] rs show ?thesis by (auto simp: remote_events)
qed

theorem shared_sessions_refine_remote_memory_witness:
  "\<exists>sys rs sys'. Shared_new ServerPolicy_default [ClientOptions_default, ClientOptions_default] = Some sys \<and>
    run shared_step sys [Call 0 (Read 0 4 10), Inject 1 TransportFault_timeout, Call 1 (Write 0x100 [1] 10)] = Some (rs, sys') \<and>
    length (shared_memory sys') = 4096"
proof -
  obtain sys where sys: "Shared_new ServerPolicy_default [ClientOptions_default, ClientOptions_default] = Some sys"
    by (simp add: Shared_new_def MemoryServer_new_eq)
  have inv: "shared_inv ServerPolicy_default 2 sys" using shared_inv_new(1) [OF sys] by (simp add: numeral_2_eq_2)
  have "\<forall>e \<in> set [Call 0 (Read 0 4 10), Inject 1 TransportFault_timeout, Call 1 (Write 0x100 [1] 10)]. event_client e < 2"
    by simp
  from shared_sessions_refine_remote_memory [OF inv this] sys show ?thesis
    by (fastforce simp: shared_inv_def server_inv_def memory_inv_def)
qed

text \<open>
  C12. Written bytes persist across clients. Once a client has been told that its write succeeded, any client
  of the same server that is told a read of that range succeeded gets exactly those bytes, as long as
  no call in between writes into the range, whatever else the clients do and whatever faults are
  injected in between.
\<close>

theorem written_bytes_persist:
  assumes "shared_inv p n sys" and "\<forall>e \<in> set es. event_client e < n" and "i < n" and "j < n"
    and "run shared_step sys (Call i (Write a data d) # es @ [Call j (Read a (size_of data) d')]) =
      Some (Some w # rs @ [Some r], sys')"
    and "\<forall>k x. Call k x \<in> set es \<longrightarrow> touches x \<inter> {unat a ..< unat a + length data} = {}"
    and "op_ok w" and "op_ok r"
  shows "op_data r = data"
proof -
  let ?es = "Call i (Write a data d) # es @ [Call j (Read a (size_of data) d')]"
  let ?rs = "Some w # rs @ [Some r]"
  have es: "list_all (\<lambda>e. event_client e < n) ?es" using assms(2-4) by (simp add: list_all_iff)
  obtain ys sys'' where "run shared_step sys ?es = Some (ys, sys'')" "length ys = length ?es"
    using shared.run_total [OF assms(1) es] by blast
  then have len: "length rs = length es" using assms(5) by simp
  have "spec_run (remote_step p) (shared_memory sys) (List.map_filter id (map2 observed ?es ?rs)) (shared_memory sys')"
    using shared.run_simulates [OF assms(1) es assms(5)] by (simp add: remote_events)
  moreover have "outcome_of_result w = Done (op_data w)" "outcome_of_result r = Done (op_data r)"
    using assms(7,8) by simp_all
  ultimately have run: "spec_run (remote_step p) (shared_memory sys)
      ((Write a data d, Done (op_data w)) # List.map_filter id (map2 observed es rs) @ [(Read a (size_of data) d', Done (op_data r))])
      (shared_memory sys')"
    using len by (simp del: outcome_Done add: map_filter_append)
  have "touches x \<inter> {unat a ..< unat a + length data} = {}"
    if "(x, y) \<in> set (List.map_filter id (map2 observed es rs))" for x y
    using that assms(6) by (fastforce simp: List.map_filter_def elim!: observed.elims dest: set_zip_leftD)
  with run assms(1) show ?thesis
    by (intro remote_read_back [OF run]) (auto simp: shared_inv_def server_inv_def memory_inv_def)
qed

theorem written_bytes_persist_witness:
  "\<exists>sys w r sys'. Shared_new (ServerPolicy_default\<lparr>writes_enabled := True\<rparr>) [ClientOptions_default, ClientOptions_default] = Some sys \<and>
    run shared_step sys [Call 0 (Write 0x200 [0xDE, 0xAD] 10), Inject 0 TransportFault_timeout, Call 1 (Read 0x200 2 10)] =
      Some ([Some w, None, Some r], sys') \<and> op_data r = [0xDE, 0xAD]"
proof -
  let ?p = "ServerPolicy_default\<lparr>writes_enabled := True\<rparr>" and ?data = "[0xDE, 0xAD] :: byte list"
  let ?c = "fresh_client ?p"
  have two: "size_of ?data = 2" by (simp add: size_of_def)
  define sys where "sys = \<lparr>shared_server = fresh_server ?p, shared_clients = [?c, ?c]\<rparr>"
  have sys: "Shared_new ?p [ClientOptions_default, ClientOptions_default] = Some sys"
    by (simp add: Shared_new_def MemoryServer_new_eq sys_def fresh_client_def)
  have attached: "attach (fresh_server ?p) ?c = ?c" by (simp add: attach_def LoopbackTransport_new_def)
  have acc: "accepts_write (client_server ?c) 0x200 ?data"
    by (simp add: accepts_write_def in_allowlist_def ServerPolicy_default_def)
  obtain w c where w: "client_write loopback 0x200 ?data 10 ?c = Some (w, c)" "op_error w = ClientError_none"
      "follows ?c c"
    by (rule client_write_script [of ?c ?data 10 "0x200"])
      (use acc in \<open>auto simp: writable_args_def next_fault_def\<close>)
  define c1 where "c1 = attach (client_server c) ?c"
  have inv1: "loop_inv (client_transport c1)"
    unfolding c1_def attach_simps using w(3)
    by (simp add: follows_def loop_inv_def LoopbackTransport_new_def trace_wf_def)
  have script: "read_script (unat (maximum_read_attempts (client_options c1))) (client_faults c1) = (1, None, [])"
    by (simp add: c1_def attach_def)
  obtain r c2 where r: "client_read loopback 0x200 2 10 c1 = Some (r, c2)" "op_error r = ClientError_none"
    by (rule client_read_script [OF inv1 _ _ script, of 2 10 "0x200"]) (auto simp: readable_args_def c1_def)
  have "\<exists>sys'. run shared_step sys ([Call 0 (Write 0x200 ?data 10)] @ [Inject 0 TransportFault_timeout] @ [Call 1 (Read 0x200 2 10)]) =
      Some ([Some w, None, Some r], sys')"
    using w(1) r(1) by (simp add: shared_step_def sys_def at_def attached c1_def on_transport_def)
  then obtain sys' where run: "run shared_step sys (Call 0 (Write 0x200 ?data 10) # [Inject 0 TransportFault_timeout] @
      [Call 1 (Read 0x200 (size_of ?data) 10)]) = Some (Some w # [None] @ [Some r], sys')"
    by (auto simp: two)
  have "shared_inv ?p 2 sys" using shared_inv_new(1) [OF sys] by (simp add: numeral_2_eq_2)
  then have "op_data r = ?data"
    by (rule written_bytes_persist [OF _ _ _ _ run]) (use w(2) r(2) in \<open>auto simp: op_ok_def\<close>)
  with sys run two show ?thesis by auto
qed

end
