(* ===== verification/Traffic.thy ===== *)
theory Traffic
  imports System
begin

text \<open>
  The packets on the wire. In every reachable state of the assembled system the trace is typed: each
  request packet is a well-formed request frame, and each reply packet is empty or a response frame to
  that request, possibly damaged by one of the response faults.
\<close>

section \<open>Types of packets\<close>

definition request_packet :: "byte list \<Rightarrow> bool" where
  "request_packet b \<longleftrightarrow> (case decoded b of None \<Rightarrow> False
     | Some q \<Rightarrow> frame_opcode q \<in> {Opcode_read_request, Opcode_write_request} \<and> frame_request_id q \<noteq> 0)"

definition responds_to :: "Frame \<Rightarrow> Frame \<Rightarrow> bool" where
  "responds_to f q \<longleftrightarrow> valid_frame f \<and> frame_flags f = response_flag \<and>
     frame_request_id f = frame_request_id q \<and> frame_address f = frame_address q"

definition reply_packet :: "byte list \<Rightarrow> byte list \<Rightarrow> bool" where
  "reply_packet q b \<longleftrightarrow> b = [] \<or> (\<exists>g f fault. decoded q = Some g \<and> responds_to f g \<and> b = answer fault f)"

fun typed_trace :: "TraceRecord list \<Rightarrow> bool" where
  "typed_trace [] \<longleftrightarrow> True"
| "typed_trace [_] \<longleftrightarrow> False"
| "typed_trace (q # r # rs) \<longleftrightarrow> trace_direction q = ''client_to_server'' \<and> trace_direction r = ''server_to_client'' \<and>
     request_packet (trace_bytes q) \<and> reply_packet (trace_bytes q) (trace_bytes r) \<and> typed_trace rs"

text \<open>The part of it that the transport establishes on its own, whatever it is asked to send.\<close>

fun answered :: "TraceRecord list \<Rightarrow> bool" where
  "answered (q # r # rs) \<longleftrightarrow> reply_packet (trace_bytes q) (trace_bytes r) \<and> answered rs"
| "answered _ \<longleftrightarrow> True"

lemma answered_append: "paired xs \<Longrightarrow> answered (xs @ ys) \<longleftrightarrow> answered xs \<and> answered ys"
  by (induction xs rule: paired.induct) auto

lemma typed_trace_iff:
  "typed_trace rs \<longleftrightarrow> paired rs \<and> answered rs \<and>
     list_all request_packet (map trace_bytes (filter (\<lambda>r. trace_direction r = ''client_to_server'') rs))"
  if "paired rs"
  using that by (induction rs rule: paired.induct) auto

section \<open>The transport\<close>

lemma reply_packet_handle:
  assumes "server_inv s" and "handle s q = Some (h, s')" and "received t (handle_response h) = Some b"
  shows "reply_packet q b"
  using assms(1)
proof (cases rule: handle_cases [of s q])
  case (answered req)
  let ?f = "served s req"
  have f: "valid_frame ?f" "responds_to ?f req"
    using served_simps [OF assms(1), of req] by (simp_all add: responds_to_def served_def frame_of_serve response_flag_def)
  have "handle_response h = wire ?f" using answered(4) assms(2) by (simp add: success_event_def served_def)
  then have "b = answer (next_fault t) ?f"
    using assms(3) f(1) by (cases "next_fault t") (simp_all add: answer_def)
  with f(2) answered(1) show ?thesis unfolding reply_packet_def by blast
next
  case (silent r)
  then show ?thesis using assms(2,3) by (simp add: reply_packet_def)
qed

lemma answered_exchange:
  assumes "loop_inv t" and "answered (loop_trace t)" and "loopback_exchange t q d = Some (reply, t')"
  shows "answered (loop_trace t')"
proof -
  have inv: "server_inv (loop_server t)" and wf: "paired (loop_trace t)"
    using assms(1) by (simp_all add: loop_inv_def trace_wf_def)
  have nil: "reply_packet b []" for b by (simp add: reply_packet_def)
  from inv show ?thesis
    using assms(2,3) by (cases rule: exchange_cases [of t q d])
      (auto simp: answered_append [OF wf] nil dest: reply_packet_handle [OF inv])
qed

interpretation typed: transport_service loopback "\<lambda>t. loop_inv t \<and> answered (loop_trace t)" sent_requests
  by (rule loopback_service_with) (auto dest: answered_exchange)

section \<open>The client's requests\<close>

lemma request_packet_frames:
  "i \<noteq> 0 \<Longrightarrow> request_packet (wire (read_frame i a n))"
  "i \<noteq> 0 \<Longrightarrow> writable_args data d \<Longrightarrow> request_packet (wire (write_frame i a data))"
  using decoded_iff [of "wire (read_frame i a n)" "read_frame i a n"]
    decoded_iff [of "wire (write_frame i a data)" "write_frame i a data"]
  by (simp_all add: request_packet_def valid_write_frame writable_args_def)

definition traffic_inv :: "LoopbackTransport Client \<Rightarrow> bool" where
  "traffic_inv c \<longleftrightarrow> answered (loop_trace (client_transport c)) \<and>
     list_all request_packet (sent_requests (client_transport c))"

lemma traffic_call:
  assumes "sys_inv policy c" and "traffic_inv c" and "client_step loopback c x = Some (r, c')"
  shows "traffic_inv c'"
proof -
  have inv: "loop_inv (client_transport c) \<and> answered (loop_trace (client_transport c))"
    "1 \<le> maximum_read_attempts (client_options c)" "next_request_id c \<noteq> 0"
    using assms(1,2) by (simp_all add: sys_inv_def traffic_inv_def)
  show ?thesis
  proof (cases x)
    case (Read a n d)
    show ?thesis
      by (rule typed.client_read_outcome [OF inv(1,2), of a n d])
        (use assms(2,3) inv(3) Read in \<open>auto simp: traffic_inv_def list_all_iff request_packet_frames\<close>)
  next
    case (Write a data d)
    show ?thesis
      by (rule typed.client_write_outcome [OF inv(1), of a data d])
        (use assms(2,3) inv(3) Write in \<open>auto simp: traffic_inv_def request_packet_frames\<close>)
  qed
qed

lemma traffic_step: "sys_inv policy c \<Longrightarrow> traffic_inv c \<Longrightarrow> sys_step c c' \<Longrightarrow> traffic_inv c'"
  by (erule sys_stepE)
    (auto simp: traffic_inv_def push_fault_def clear_trace_def loopback_connect_def loopback_close_def sent_requests_def
      dest: traffic_call)

lemma reachable_traffic: "reachable policy options c \<Longrightarrow> traffic_inv c"
proof (induction rule: reachable.induct)
  case (initial s)
  then show ?case by (simp add: traffic_inv_def Client_new_def LoopbackTransport_new_def sent_requests_def)
next
  case (step c c')
  then show ?case using traffic_step reachable_inv by blast
qed

lemma length_answer: "valid_frame f \<Longrightarrow> length (answer fault f) \<le> maximum_frame_size"
  by (cases fault; cases "the fault")
    (auto simp: answer_def valid_frame_def maximum_frame_size_def maximum_payload_size_def)

lemma typed_packet_length: "typed_trace rs \<Longrightarrow> r \<in> set rs \<Longrightarrow> length (trace_bytes r) \<le> maximum_frame_size"
proof (induction rs rule: typed_trace.induct)
  case (3 q r' rs)
  have "length b \<le> maximum_frame_size" if "request_packet b" for b
    using that length_answer [of _ None]
    by (auto simp: request_packet_def decoded_iff answer_def simp del: length_wire split: option.splits)
  moreover have "length b \<le> maximum_frame_size" if "reply_packet q b" for q b
    using that length_answer by (fastforce simp: reply_packet_def responds_to_def)
  ultimately show ?case using 3 by auto
qed simp_all

section \<open>Properties\<close>

text \<open>
  C13. Everything on the wire is typed. In every reachable state the packet trace consists of pairs: a request
  that decodes to a read or write request with a non-zero ID, and a reply that is empty (the exchange
  was lost) or a valid response frame with the ID and address of that request, unchanged or damaged by
  one response fault. No packet exceeds the frame size limit.
\<close>

theorem reachable_traffic_is_typed:
  assumes "reachable policy options c"
  shows "typed_trace (trace (client_transport c)) \<and>
    (\<forall>r \<in> set (trace (client_transport c)). length (trace_bytes r) \<le> maximum_frame_size)"
proof -
  have "paired (loop_trace (client_transport c))"
    using reachable_inv [OF assms] by (simp add: sys_inv_def loop_inv_def trace_wf_def)
  with reachable_traffic [OF assms] have "typed_trace (loop_trace (client_transport c))"
    by (simp add: typed_trace_iff traffic_inv_def sent_requests_def)
  then show ?thesis using typed_packet_length unfolding trace_def by blast
qed

theorem reachable_traffic_is_typed_witness:
  "\<exists>r c'. client_step loopback (fresh_client ServerPolicy_default) (Read 0 16 10) = Some (r, c') \<and>
     typed_trace (trace (client_transport c')) \<and> trace (client_transport c') \<noteq> []"
proof -
  let ?c = "fresh_client ServerPolicy_default"
  have reach: "reachable ServerPolicy_default ClientOptions_default ?c"
    unfolding fresh_client_def by (rule reachable.initial [OF MemoryServer_new_eq])
  obtain r c' k where r: "client_read loopback 0 16 10 ?c = Some (r, c')"
    "op_error r = ClientError_invalid_argument \<longleftrightarrow> \<not> readable_args 16 10"
    "sent_requests (client_transport c') = sent_requests (client_transport ?c) @ replicate k (wire (read_frame 1 0 16))"
    "unat (op_attempts r) = (if op_error r = ClientError_connect_failed then k + 1 else k)"
    by (rule loop.client_read_outcome [of ?c 0 16 10]) auto
  have args: "loop_inv (client_transport ?c)" "readable_args 16 10" "1 \<le> maximum_read_attempts (client_options ?c)"
    "read_script (unat (maximum_read_attempts (client_options ?c))) (client_faults ?c) = (1, None, [])"
    by (simp_all add: readable_args_def)
  have "unat (op_attempts r) = 1" "op_error r = ClientError_none"
    by (rule client_read_script [OF args, of 0]; use r(1) in simp)+
  then have "sent_requests (client_transport c') \<noteq> []" using r(3,4) by simp
  then have "trace (client_transport c') \<noteq> []" by (auto simp: sent_requests_def trace_def)
  moreover have "reachable ServerPolicy_default ClientOptions_default c'"
    using r(1) by (intro reachable.step [OF reach] sys_step.call [of _ "Read 0 16 10" r]) simp
  from reachable_traffic_is_typed [OF this] have "typed_trace (trace (client_transport c'))" ..
  ultimately show ?thesis using r(1) by simp
qed

end
