(* ===== verification/Process.thy ===== *)
theory Process
  imports Hex
begin

text \<open>
  What the programs of \<open>apps/\<close> share: the observable result of a process, and the insertion of an
  unsigned integer into a stream in some base.
\<close>

definition newline :: string where
  "newline = [CHR 0x0A]"

definition quoted :: "string \<Rightarrow> string" where
  "quoted str = CHR 0x22 # str @ [CHR 0x22]"

text \<open>The two output streams and the exit code.\<close>

record ProcessResult =
  process_out :: string
  process_err :: string
  process_exit :: int

text \<open>The digits of a number, most significant first, as an \<open>std::ostream\<close> prints it.\<close>

function (sequential) digits_in :: "nat \<Rightarrow> nat \<Rightarrow> string" where
  "digits_in base n =
     (if base < 2 \<or> n < base then [hex_digits ! n] else digits_in base (n div base) @ [hex_digits ! (n mod base)])"
  by pat_completeness auto
termination
  by (relation "measure snd") auto

declare digits_in.simps [simp del]

end
