(* ===== verification/Cli.thy ===== *)
theory Cli
  imports System Process
begin

text \<open>
  The command-line tool of \<open>apps/cli_main.cpp\<close>. A run of the process is a function from its arguments
  to what it writes to the two output streams and its exit code. The parts of the standard library it
  uses are modelled as documented: \<open>std::from_chars\<close> on unsigned 32-bit values and the insertion of
  unsigned integers into a stream in decimal and hexadecimal.
\<close>

section \<open>Standard library\<close>

datatype errc = errc_ok | errc_invalid_argument | errc_result_out_of_range

definition digit_value :: "nat \<Rightarrow> char \<Rightarrow> nat option" where
  "digit_value base c =
     (let v = (if CHR ''0'' \<le> c \<and> c \<le> CHR ''9'' then of_char c - 48
               else if CHR ''a'' \<le> c \<and> c \<le> CHR ''z'' then of_char c - 97 + 10
               else if CHR ''A'' \<le> c \<and> c \<le> CHR ''Z'' then of_char c - 65 + 10 else base)
      in if v < base then Some v else None)"

text \<open>The longest prefix of digits and its value.\<close>

fun scan_digits :: "nat \<Rightarrow> nat \<Rightarrow> string \<Rightarrow> nat \<times> string" where
  "scan_digits base n [] = (n, [])"
| "scan_digits base n (c # cs) =
     (case digit_value base c of None \<Rightarrow> (n, c # cs) | Some v \<Rightarrow> scan_digits base (n * base + v) cs)"

text \<open>
  \<open>std::from_chars\<close>: no digit leaves the value alone and reports \<open>invalid_argument\<close>, a value that does
  not fit leaves it alone and reports \<open>result_out_of_range\<close>; the rest of the text is returned.
\<close>

definition from_chars_u32 :: "nat \<Rightarrow> string \<Rightarrow> u32 \<Rightarrow> u32 \<times> errc \<times> string" where
  "from_chars_u32 base str value =
     (let (n, rest) = scan_digits base 0 str
      in if rest = str then (value, errc_invalid_argument, str)
         else if n < 2 ^ 32 then (word_of_nat n, errc_ok, rest)
         else (value, errc_result_out_of_range, rest))"

section \<open>Commands\<close>

definition print_usage :: string where
  "print_usage =
     ''Industrial Memory Protocol Workbench (synthetic simulator only)'' @ newline @
     ''usage:'' @ newline @
     ''  imlp-cli inspect <frame-hex>'' @ newline @
     ''  imlp-cli encode-read <address> <length>'' @ newline @
     ''  imlp-cli read <address> <length>'' @ newline @
     ''  imlp-cli write <address> <payload-hex> --allow-writes'' @ newline @
     ''  imlp-cli demo'' @ newline"

text \<open>The flag that is returned and the value of the reference argument afterwards.\<close>

definition parse_u32 :: "string \<Rightarrow> u32 \<Rightarrow> bool \<times> u32" where
  "parse_u32 str value =
     (let (str, base) = (if length str > 2 \<and> take 2 str = ''0x'' then (drop 2 str, 16) else (str, 10))
      in if str = [] then (False, value)
         else let (value, error, rest) = from_chars_u32 base str value
              in (error = errc_ok \<and> rest = [], value))"

definition status_name :: "Status \<Rightarrow> string" where
  "status_name status =
     (if status = Status_ok then ''ok''
      else if status = Status_bad_request then ''bad_request''
      else if status = Status_out_of_range then ''out_of_range''
      else if status = Status_write_disabled then ''write_disabled''
      else if status = Status_access_denied then ''access_denied''
      else if status = Status_internal_error then ''internal_error''
      else ''unknown'')"

definition print_result :: "OperationResult \<Rightarrow> string option" where
  "print_result result = do {
     let line = ''request_id='' @ digits_in 10 (unat (op_request_id result)) @
       '' client_error='' @ client_error_name (op_error result) @
       '' remote_status='' @ status_name (op_remote_status result) @
       '' attempts='' @ digits_in 10 (unat (op_attempts result)) @ '' detail='' @ op_detail result;
     if op_data result \<noteq> []
     then do { hex \<leftarrow> bytes_to_hex (op_data result); Some (line @ '' data='' @ hex @ newline) }
     else Some (line @ newline)
   }"

fun print_trace :: "TraceRecord list \<Rightarrow> string option" where
  "print_trace [] = Some []"
| "print_trace (packet # packets) = do {
     hex \<leftarrow> bytes_to_hex (trace_bytes packet);
     rest \<leftarrow> print_trace packets;
     Some (''trace='' @ digits_in 10 (unat (trace_sequence packet)) @ '' direction='' @ trace_direction packet @
       '' outcome='' @ trace_outcome packet @ '' bytes='' @ hex @ newline @ rest)
   }"

definition run_inspect :: "string \<Rightarrow> ProcessResult option" where
  "run_inspect str = do {
     parsed \<leftarrow> bytes_from_hex str;
     case parsed of
       None \<Rightarrow> Some \<lparr>process_out = [], process_err = ''error=invalid_hex'' @ newline, process_exit = 2\<rparr>
     | Some bytes \<Rightarrow> do {
         result \<leftarrow> decode bytes;
         if \<not> dec_ok result \<or> dec_frame result = None
         then Some \<lparr>process_out = [],
                process_err = ''error='' @ codec_error_name (dec_error result) @ newline, process_exit = 3\<rparr>
         else do {
           frame \<leftarrow> dec_frame result;
           payload \<leftarrow> bytes_to_hex (frame_payload frame);
           Some \<lparr>process_out =
               ''version='' @ digits_in 10 (unat (frame_version frame)) @
               '' opcode=0x'' @ digits_in 16 (unat (opcode_value (frame_opcode frame))) @
               '' flags='' @ digits_in 10 (unat (frame_flags frame)) @
               '' request_id='' @ digits_in 10 (unat (frame_request_id frame)) @
               '' address='' @ digits_in 10 (unat (frame_address frame)) @
               '' status='' @ status_name (frame_status frame) @
               '' payload='' @ payload @ newline,
             process_err = [], process_exit = 0\<rparr>
         }
       }
   }"

definition run_encode_read :: "string \<Rightarrow> string \<Rightarrow> ProcessResult option" where
  "run_encode_read address_text length_text =
     (let (address_ok, address) = parse_u32 address_text 0; (length_ok, len) = parse_u32 length_text 0
      in if \<not> address_ok \<or> \<not> length_ok \<or> len = 0 \<or> unat len > maximum_payload_size
         then Some \<lparr>process_out = [], process_err = ''error=invalid_address_or_length'' @ newline, process_exit = 2\<rparr>
         else
           let wire_length = (ucast len :: u16);
               request = Frame_default\<lparr>frame_opcode := Opcode_read_request, frame_request_id := 1,
                 frame_address := address,
                 frame_payload := [ucast (drop_bit 8 wire_length AND 0xFF), ucast (wire_length AND 0xFF)]\<rparr>;
               encoded = encode request
           in if \<not> enc_ok encoded
              then Some \<lparr>process_out = [],
                     process_err = ''error='' @ codec_error_name (enc_error encoded) @ newline, process_exit = 3\<rparr>
              else do {
                hex \<leftarrow> bytes_to_hex (enc_bytes encoded);
                Some \<lparr>process_out = hex @ newline, process_err = [], process_exit = 0\<rparr>
              })"

definition run_read :: "string \<Rightarrow> string \<Rightarrow> ProcessResult option" where
  "run_read address_text length_text =
     (let (address_ok, address) = parse_u32 address_text 0; (length_ok, len) = parse_u32 length_text 0
      in if \<not> address_ok \<or> \<not> length_ok
         then Some \<lparr>process_out = [], process_err = ''error=invalid_address_or_length'' @ newline, process_exit = 2\<rparr>
         else do {
           server \<leftarrow> MemoryServer_new ServerPolicy_default;
           let client = Client_new (LoopbackTransport_new server) ClientOptions_default;
           (result, client) \<leftarrow> client_read loopback address (ucast len) 100 client;
           line \<leftarrow> print_result result;
           packets \<leftarrow> print_trace (trace (client_transport client));
           Some \<lparr>process_out = line @ packets, process_err = [], process_exit = (if op_ok result then 0 else 4)\<rparr>
         })"

definition run_write :: "string \<Rightarrow> string \<Rightarrow> string \<Rightarrow> ProcessResult option" where
  "run_write address_text payload_text confirmation = do {
     payload \<leftarrow> bytes_from_hex payload_text;
     let (address_ok, address) = parse_u32 address_text 0;
     if \<not> address_ok \<or> payload = None \<or> payload = Some [] \<or> confirmation \<noteq> ''--allow-writes''
     then Some \<lparr>process_out = [], process_err = ''error=invalid_write_or_missing_explicit_opt_in'' @ newline, process_exit = 2\<rparr>
     else do {
       bytes \<leftarrow> payload;
       server \<leftarrow> MemoryServer_new (ServerPolicy_default\<lparr>writes_enabled := True\<rparr>);
       let client = Client_new (LoopbackTransport_new server) ClientOptions_default;
       (result, client) \<leftarrow> client_write loopback address bytes 100 client;
       line \<leftarrow> print_result result;
       packets \<leftarrow> print_trace (trace (client_transport client));
       Some \<lparr>process_out = line @ packets, process_err = [], process_exit = (if op_ok result then 0 else 4)\<rparr>
     }
   }"

definition run_demo :: "ProcessResult option" where
  "run_demo = do {
     read_only_server \<leftarrow> MemoryServer_new ServerPolicy_default;
     let client = Client_new (LoopbackTransport_new read_only_server) ClientOptions_default;
     (r1, client) \<leftarrow> client_read loopback 0x0000 12 100 client;
     line1 \<leftarrow> print_result r1;
     let sample = [0x12, 0x34];
     (r2, client) \<leftarrow> client_write loopback 0x0100 sample 100 client;
     line2 \<leftarrow> print_result r2;
     let client = client\<lparr>client_transport := push_fault TransportFault_timeout (client_transport client)\<rparr>;
     (r3, client) \<leftarrow> client_read loopback 0x0040 1 100 client;
     line3 \<leftarrow> print_result r3;
     let client = client\<lparr>client_transport := push_fault TransportFault_corrupt_response (client_transport client)\<rparr>;
     (r4, client) \<leftarrow> client_read loopback 0x0000 4 100 client;
     line4 \<leftarrow> print_result r4;
     packets \<leftarrow> print_trace (trace (client_transport client));
     writable_server \<leftarrow> MemoryServer_new (ServerPolicy_default\<lparr>writes_enabled := True\<rparr>);
     let writable_client = Client_new (LoopbackTransport_new writable_server) ClientOptions_default;
     (r5, writable_client) \<leftarrow> client_write loopback 0x0100 sample 100 writable_client;
     line5 \<leftarrow> print_result r5;
     (r6, writable_client) \<leftarrow> client_read loopback 0x0100 (size_of sample) 100 writable_client;
     line6 \<leftarrow> print_result r6;
     Some \<lparr>process_out =
         ''scenario=read_only_default'' @ newline @ line1 @ line2 @
         ''scenario=transient_read_timeout'' @ newline @ line3 @
         ''scenario=corrupted_response'' @ newline @ line4 @ packets @
         ''scenario=explicit_write_opt_in'' @ newline @ line5 @ line6,
       process_err = [], process_exit = 0\<rparr>
   }"

text \<open>\<open>argv\<close> includes the program name, so \<open>argc\<close> is its length.\<close>

definition cli_main :: "string list \<Rightarrow> ProcessResult option" where
  "cli_main argv =
     (let argc = length argv; usage = \<lparr>process_out = print_usage, process_err = [], process_exit = 1\<rparr> in
      if argc < 2 then Some usage
      else do {
        command \<leftarrow> at argv 1;
        if command = ''inspect'' \<and> argc = 3 then do { a \<leftarrow> at argv 2; run_inspect a }
        else if command = ''encode-read'' \<and> argc = 4
        then do { a \<leftarrow> at argv 2; b \<leftarrow> at argv 3; run_encode_read a b }
        else if command = ''read'' \<and> argc = 4 then do { a \<leftarrow> at argv 2; b \<leftarrow> at argv 3; run_read a b }
        else if command = ''write'' \<and> argc = 5
        then do { a \<leftarrow> at argv 2; b \<leftarrow> at argv 3; c \<leftarrow> at argv 4; run_write a b c }
        else if command = ''demo'' \<and> argc = 2 then run_demo
        else Some usage
      })"

section \<open>Numbers\<close>

text \<open>The value of a digit string.\<close>

definition digits_value :: "nat \<Rightarrow> nat \<Rightarrow> string \<Rightarrow> nat" where
  "digits_value base n cs = foldl (\<lambda>acc c. acc * base + the (digit_value base c)) n cs"

definition is_number :: "nat \<Rightarrow> string \<Rightarrow> bool" where
  "is_number base cs \<longleftrightarrow> cs \<noteq> [] \<and> list_all (\<lambda>c. digit_value base c \<noteq> None) cs"

lemma scan_digits_all:
  "scan_digits base n cs = (m, []) \<longleftrightarrow>
     list_all (\<lambda>c. digit_value base c \<noteq> None) cs \<and> m = digits_value base n cs"
  by (induction cs arbitrary: n) (auto simp: digits_value_def split: option.splits)

lemma from_chars_complete:
  assumes "str \<noteq> []"
  shows "from_chars_u32 base str v = (w, errc_ok, []) \<longleftrightarrow>
    is_number base str \<and> digits_value base 0 str = unat w"
proof -
  obtain n rest where scan: "scan_digits base 0 str = (n, rest)" by fastforce
  have w: "unat w < 4294967296" using unsigned_less [of w, where ?'a = nat] by simp
  show ?thesis
  proof (cases "rest = []")
    case True
    then have "is_number base str" and n: "n = digits_value base 0 str"
      using assms scan scan_digits_all [of base 0 str n] by (auto simp: is_number_def)
    moreover have "word_of_nat n = w \<longleftrightarrow> n = unat w" if "n < 4294967296"
      using that unat_of_nat_u32 [of n] by auto
    ultimately show ?thesis
      using True assms scan w by (auto simp: from_chars_u32_def)
  next
    case False
    then have "\<not> is_number base str"
      using scan scan_digits_all [of base 0 str "digits_value base 0 str"] by (auto simp: is_number_def)
    with False scan show ?thesis by (auto simp: from_chars_u32_def)
  qed
qed

lemma parse_u32_iff:
  "parse_u32 str v = (True, w) \<longleftrightarrow>
    is_number 10 str \<and> digits_value 10 0 str = unat w \<or>
    (\<exists>ds. str = ''0x'' @ ds \<and> is_number 16 ds \<and> digits_value 16 0 ds = unat w)"
proof (cases "length str > 2 \<and> take 2 str = ''0x''")
  case True
  then have str: "str = ''0x'' @ drop 2 str" "drop 2 str \<noteq> []"
    by (metis append_take_drop_id, auto)
  have "digit_value 10 (CHR ''x'') = None" by (simp add: digit_value_def less_eq_char_def)
  then have "\<not> is_number 10 str"
    by (subst str(1)) (simp add: is_number_def)
  moreover have "parse_u32 str v = (True, w) \<longleftrightarrow> from_chars_u32 16 (drop 2 str) v = (w, errc_ok, [])"
    using True str(2) by (auto simp: parse_u32_def split_beta Let_def prod_eq_iff)
  ultimately show ?thesis
    using str from_chars_complete [OF str(2), of 16 v w] by (metis append_same_eq same_append_eq)
next
  case False
  then have "\<not> (\<exists>ds. str = ''0x'' @ ds \<and> is_number 16 ds)"
    by (auto simp: is_number_def)
  moreover have "parse_u32 str v = (True, w) \<longleftrightarrow> str \<noteq> [] \<and> from_chars_u32 10 str v = (w, errc_ok, [])"
    using False by (auto simp: parse_u32_def split_beta Let_def prod_eq_iff)
  ultimately show ?thesis
    using from_chars_complete [of str 10 v w] by (auto simp: is_number_def)
qed

lemma digit_value_hex_digits:
  "list_all (\<lambda>k. digit_value 16 (hex_digits ! k) = Some k) [0..<16]"
  "list_all (\<lambda>k. digit_value 10 (hex_digits ! k) = Some k) [0..<10]"
  by (simp_all add: hex_digits_def digit_value_def less_eq_char_def upt_conv_Cons)

lemma scan_digits_in:
  assumes "\<forall>k < base. digit_value base (hex_digits ! k) = Some k" and "2 \<le> base"
  shows "scan_digits base 0 (digits_in base n @ cs) = scan_digits base n cs"
proof (induction n arbitrary: cs rule: less_induct)
  case (less n)
  show ?case
  proof (cases "n < base")
    case True
    then show ?thesis using assms by (subst digits_in.simps) simp
  next
    case False
    then have "n div base < n" using assms(2) by simp
    from less.IH [OF this, of "hex_digits ! (n mod base) # cs"] False assms show ?thesis
      by (subst digits_in.simps) simp
  qed
qed

text \<open>Numbers print and parse back.\<close>

lemma parse_u32_decimal: "parse_u32 (digits_in 10 (unat w)) v = (True, w)"
proof -
  have dec: "\<forall>k < 10. digit_value 10 (hex_digits ! k) = Some k"
    using digit_value_hex_digits(2) by (simp add: list_all_iff)
  have "scan_digits 10 0 (digits_in 10 (unat w)) = (unat w, [])"
    using scan_digits_in [OF dec, of "unat w" "[]"] by simp
  then have "list_all (\<lambda>c. digit_value 10 c \<noteq> None) (digits_in 10 (unat w))" "unat w = digits_value 10 0 (digits_in 10 (unat w))"
    by (simp_all only: scan_digits_all)
  moreover have "digits_in 10 (unat w) \<noteq> []" by (subst digits_in.simps) simp
  ultimately show ?thesis by (auto simp: parse_u32_iff is_number_def)
qed

section \<open>Commands are defined and report by their exit code\<close>

lemma yields_print_result [defined_intros]: "(\<And>line. P line) \<Longrightarrow> yields (print_result r) P"
  unfolding print_result_def Let_def yields_def by (cases "op_data r = []") (simp_all add: bytes_to_hex_eq)

lemma yields_bytes_to_hex [defined_intros]: "P (hex_text bytes) \<Longrightarrow> yields (bytes_to_hex bytes) P"
  by (simp add: bytes_to_hex_eq yields_def)

lemma yields_bytes_from_hex [defined_intros]: "(\<And>r. bytes_from_hex str = Some r \<Longrightarrow> P r) \<Longrightarrow> yields (bytes_from_hex str) P"
  by (simp add: bytes_from_hex_eq yields_def)

lemma yields_decode [defined_intros]: "(\<And>r. decode bytes = Some r \<Longrightarrow> P r) \<Longrightarrow> yields (decode bytes) P"
  by (cases bytes rule: decode_cases) (simp_all add: yields_def)

lemma yields_print_trace [defined_intros]: "(\<And>lines. P lines) \<Longrightarrow> yields (print_trace packets) P"
proof -
  have "\<exists>lines. print_trace packets = Some lines"
    by (induction packets) (auto simp: bytes_to_hex_eq)
  moreover assume "\<And>lines. P lines"
  ultimately show ?thesis by (auto simp: yields_def)
qed

lemma yields_server [defined_intros]: "P (fresh_server p) \<Longrightarrow> yields (MemoryServer_new p) P"
  by (simp add: yields_def MemoryServer_new_eq)

lemma yields_client_read [defined_intros]:
  "loop.client_inv c \<Longrightarrow> (\<And>r c'. loop.client_inv c' \<Longrightarrow> P (r, c')) \<Longrightarrow> yields (client_read loopback a n d c) P"
  by (rule loop.client_step_outcome [of c "Read a n d"]) (auto simp: yields_def)

lemma yields_client_write [defined_intros]:
  "loop.client_inv c \<Longrightarrow> (\<And>r c'. loop.client_inv c' \<Longrightarrow> P (r, c')) \<Longrightarrow> yields (client_write loopback a data d c) P"
  by (rule loop.client_step_outcome [of c "Write a data d"]) (auto simp: yields_def)

lemma client_inv_new [defined_intros]:
  "loop.client_inv (Client_new (LoopbackTransport_new (fresh_server p)) options)"
  by (simp add: loop.client_inv_def Client_new_def)

lemma client_inv_fault [defined_intros]:
  "loop.client_inv c \<Longrightarrow> loop.client_inv (c\<lparr>client_transport := push_fault f (client_transport c)\<rparr>)"
  by (simp add: loop.client_inv_def loop_inv_keep)

text \<open>
  The exit codes of the guide: 1 is the usage text, 2 and 3 are the failures reported on the error
  stream, 0 and 4 the runs that print their result.
\<close>

definition well_reported :: "ProcessResult \<Rightarrow> bool" where
  "well_reported p \<longleftrightarrow> process_exit p \<in> {0, 1, 2, 3, 4} \<and>
     (process_exit p = 1 \<longrightarrow> process_out p = print_usage) \<and>
     (process_exit p \<in> {2, 3} \<longleftrightarrow> process_err p \<noteq> []) \<and> (process_err p \<noteq> [] \<longrightarrow> process_out p = [])"

lemma run_inspect_reported: "yields (run_inspect str) well_reported"
  unfolding run_inspect_def
  by (intro defined_intros)
    (auto simp: well_reported_def intro!: defined_intros)

lemma run_encode_read_reported: "yields (run_encode_read a n) well_reported"
  unfolding run_encode_read_def
  by (intro defined_intros) (auto simp: well_reported_def intro: defined_intros)

lemma run_read_reported: "yields (run_read a n) well_reported"
  unfolding run_read_def
  by (intro defined_intros) (auto simp: well_reported_def intro: defined_intros)

lemma run_write_reported: "yields (run_write a data flag) well_reported"
  unfolding run_write_def
  by (intro defined_intros) (auto simp: well_reported_def intro!: defined_intros)

lemma run_demo_reported: "yields run_demo well_reported"
  unfolding run_demo_def
  by (intro defined_intros) (auto simp: well_reported_def intro: defined_intros)

lemmas commands_reported = run_inspect_reported run_encode_read_reported run_read_reported
  run_write_reported run_demo_reported

lemma cli_main_reported: "yields (cli_main argv) well_reported"
  unfolding cli_main_def
  by (intro defined_intros commands_reported) (auto simp: well_reported_def)

section \<open>What the commands print\<close>

lemma digits_in_small:
  "digits_in 10 0 = ''0''" "digits_in 10 (Suc 0) = ''1''" "digits_in 16 (Suc 0) = ''1''" "digits_in 10 2 = ''2''"
  "digits_in 10 3 = ''3''" "digits_in 10 4 = ''4''"
  by (subst digits_in.simps, simp add: hex_digits_def)+

lemma status_names:
  "status_name Status_ok = ''ok''" "status_name Status_bad_request = ''bad_request''"
  "status_name Status_out_of_range = ''out_of_range''" "status_name Status_write_disabled = ''write_disabled''"
  "status_name Status_access_denied = ''access_denied''" "status_name Status_internal_error = ''internal_error''"
  by (simp_all add: status_name_def status_defs)

lemma print_result_eq:
  "print_result r = Some (''request_id='' @ digits_in 10 (unat (op_request_id r)) @
     '' client_error='' @ client_error_name (op_error r) @ '' remote_status='' @ status_name (op_remote_status r) @
     '' attempts='' @ digits_in 10 (unat (op_attempts r)) @ '' detail='' @ op_detail r @
     (if op_data r = [] then [] else '' data='' @ hex_text (op_data r)) @ newline)"
  by (simp add: print_result_def bytes_to_hex_eq)

lemma print_trace_total:
  obtains lines where "print_trace packets = Some lines"
  using yields_print_trace [of "\<lambda>_. True" packets] by (auto simp: yields_def)

section \<open>Properties\<close>

text \<open>
  C36. Numeric arguments: \<open>parse_u32\<close> accepts exactly the non-empty strings of decimal digits, and of
  hexadecimal digits of either case after a lower-case \<open>0x\<close>, whose value fits into 32 bits, and
  yields that value; signs, white space, suffixes and overflow are rejected.
\<close>

theorem parse_u32_accepts_exactly:
  "parse_u32 str v = (True, w) \<longleftrightarrow>
    is_number 10 str \<and> digits_value 10 0 str = unat w \<or>
    (\<exists>ds. str = ''0x'' @ ds \<and> is_number 16 ds \<and> digits_value 16 0 ds = unat w)"
  by (rule parse_u32_iff)

text \<open>
  C30. The tool ends properly for every argument vector: no undefined behaviour in any command, an exit
  code from 0 to 4, the usage text with code 1, a diagnostic on the error stream exactly with the
  codes 2 and 3, and then nothing on the output stream.
\<close>

theorem cli_always_reports: "\<exists>p. cli_main argv = Some p \<and> well_reported p"
  using cli_main_reported [of argv] by (simp add: yields_def)

lemma hex_text_parses: "length bytes \<le> 278 \<Longrightarrow> bytes_from_hex (hex_text bytes) = Some (Some bytes)"
  by (simp add: bytes_from_hex_eq length_hex_text parse_hex_text)

text \<open>
  C35. The two inspection commands fit together: for every address and every length from 1 to 256 given
  in decimal, \<open>encode-read\<close> succeeds and prints a frame that \<open>inspect\<close> accepts and describes with the
  same address and length.
\<close>

theorem encode_read_output_inspects:
  fixes a n :: u32
  assumes "1 \<le> unat n" and "unat n \<le> 256"
  shows "\<exists>hex payload. run_encode_read (digits_in 10 (unat a)) (digits_in 10 (unat n)) =
      Some \<lparr>process_out = hex @ newline, process_err = [], process_exit = 0\<rparr> \<and>
    bytes_to_hex (be16 (ucast n)) = Some payload \<and>
    run_inspect hex = Some \<lparr>process_out =
      ''version=1 opcode=0x1 flags=0 request_id=1 address='' @ digits_in 10 (unat a) @
      '' status=ok payload='' @ payload @ newline, process_err = [], process_exit = 0\<rparr>"
proof -
  let ?q = "read_frame 1 a (ucast n)"
  have n: "n \<noteq> 0" using assms(1) by auto
  have "ucast (ucast n :: size_t) = (ucast n :: u16)"
    by (rule bit_word_eqI) (auto simp: bit_simps)
  then have frame: "Frame_default\<lparr>frame_opcode := Opcode_read_request, frame_request_id := 1, frame_address := a,
      frame_payload := [ucast (drop_bit 8 (ucast n :: u16) AND 0xFF), ucast ((ucast n :: u16) AND 0xFF)]\<rparr> = ?q"
    and payload: "frame_payload ?q = be16 (ucast n)"
    by (simp_all add: read_frame_def Frame_default_def protocol_version_def be16_def)
  have "run_encode_read (digits_in 10 (unat a)) (digits_in 10 (unat n)) =
      Some \<lparr>process_out = hex_text (wire ?q) @ newline, process_err = [], process_exit = 0\<rparr>"
    using assms n unfolding run_encode_read_def parse_u32_decimal Let_def
    by (simp only: frame split_conv) (simp add: encode_wire enc_ok_def bytes_to_hex_eq)
  moreover have "run_inspect (hex_text (wire ?q)) = Some \<lparr>process_out =
      ''version=1 opcode=0x1 flags=0 request_id=1 address='' @ digits_in 10 (unat a) @
      '' status=ok payload='' @ hex_text (be16 (ucast n)) @ newline, process_err = [], process_exit = 0\<rparr>"
    using payload by (simp add: run_inspect_def hex_text_parses decode_wire dec_ok_def bytes_to_hex_eq)
      (simp add: read_frame_def digits_in_small status_name_def Opcode_read_request_def)
  ultimately show ?thesis by (auto simp: bytes_to_hex_eq)
qed

theorem encode_read_output_inspects_witness:
  "\<exists>hex payload. run_encode_read ''256'' ''4'' = Some \<lparr>process_out = hex @ newline, process_err = [], process_exit = 0\<rparr> \<and>
    run_inspect hex = Some \<lparr>process_out =
      ''version=1 opcode=0x1 flags=0 request_id=1 address=256 status=ok payload='' @ payload @ newline,
      process_err = [], process_exit = 0\<rparr>"
proof -
  have "digits_in 10 256 = ''256''" and "digits_in 10 4 = ''4''"
    by (simp_all add: digits_in.simps hex_digits_def)
  then show ?thesis using encode_read_output_inspects [of 4 256] by auto
qed

lemma fresh_write_ok:
  assumes "client_write loopback a data 100 (fresh_client p) = Some (r, c')"
  shows "op_ok r \<longleftrightarrow> data \<noteq> [] \<and> length data \<le> 256 \<and> accepts_write (fresh_server p) a data"
proof (cases "writable_args data 100")
  case True
  have inv: "loop_inv (client_transport (fresh_client p))" by simp
  have "next_fault (LoopbackTransport_new s) = None" for s by (simp add: next_fault_def)
  then have "op_error r = (if accepts_write (fresh_server p) a data then ClientError_none else ClientError_remote_error)"
    by - (rule client_write_script [OF inv True, of a], use assms in simp)
  with True show ?thesis by (simp add: op_ok_def writable_args_def)
next
  case False
  with assms show ?thesis by (auto simp: client_write_eq op_ok_def OperationResult_default_def writable_args_def)
qed

text \<open>
  Writing from the command line: \<open>write\<close> ends with exit code 0 exactly when the third argument is
  the literal opt-in, the address parses, the payload is hexadecimal text of 1 to 256 bytes, and the
  range lies between \<open>0x100\<close> and \<open>0x7FF\<close>. The opt-in alone bypasses neither allowlist nor memory map.
\<close>

lemma cli_write_needs_opt_in:
  "(\<exists>p. run_write address payload flag = Some p \<and> process_exit p = 0) \<longleftrightarrow>
   flag = ''--allow-writes'' \<and> (\<exists>a data. parse_u32 address 0 = (True, a) \<and>
     bytes_from_hex payload = Some (Some data) \<and> data \<noteq> [] \<and> length data \<le> 256 \<and>
     0x100 \<le> unat a \<and> unat a + length data \<le> 0x800)"
proof -
  let ?p = "ServerPolicy_default\<lparr>writes_enabled := True\<rparr>"
  obtain ok a where parse: "parse_u32 address 0 = (ok, a)" by fastforce
  obtain hex where hex: "bytes_from_hex payload = Some hex" by (simp add: bytes_from_hex_eq)
  show ?thesis
  proof (cases "ok \<and> hex \<noteq> None \<and> hex \<noteq> Some [] \<and> flag = ''--allow-writes''")
    case True
    then obtain data where data: "hex = Some data" "data \<noteq> []" by auto
    obtain r c' where r: "client_write loopback a data 100 (fresh_client ?p) = Some (r, c')"
      by (rule loop.client_step_outcome [of "fresh_client ?p" "Write a data 100"])
        (auto simp: loop.client_inv_def)
    obtain line packets where "print_result r = Some line" "print_trace (trace (client_transport c')) = Some packets"
      using yields_print_result [of "\<lambda>_. True" r] yields_print_trace [of "\<lambda>_. True" "trace (client_transport c')"] by (auto simp: yields_def)
    then have "run_write address payload flag = Some \<lparr>process_out = line @ packets, process_err = [],
        process_exit = (if op_ok r then 0 else 4)\<rparr>"
      using True parse hex data r by (simp add: run_write_def MemoryServer_new_eq fresh_client_def)
    then show ?thesis
      using True parse hex data fresh_write_ok [OF r]
      by (auto simp: accepts_write_def in_allowlist_def ServerPolicy_default_def)
  next
    case False
    then have "run_write address payload flag = Some \<lparr>process_out = [],
        process_err = ''error=invalid_write_or_missing_explicit_opt_in'' @ newline, process_exit = 2\<rparr>"
      using parse hex by (auto simp: run_write_def)
    with False parse hex show ?thesis by auto
  qed
qed

text \<open>
  The guide lists a \<open>write\<close> without the opt-in argument under exit code 2; the dispatcher takes it for
  an unknown command, because it tests the number of arguments first.
\<close>

lemma write_without_flag_prints_usage:
  "cli_main [program, ''write'', address, payload] =
     Some \<lparr>process_out = print_usage, process_err = [], process_exit = 1\<rparr>"
  by (simp add: cli_main_def at_def)

end
