(* ===== verification/Cli_Output.thy ===== *)
theory Cli_Output
  imports Cli
begin

text \<open>
  What the commands \<open>read\<close>, \<open>write\<close> and \<open>demo\<close> of the tool print, to the last character: errors, result
  lines and the packet trace with its numbers, outcomes and bytes; and which texts \<open>inspect\<close> accepts.
\<close>

section \<open>Clients and their traces\<close>

text \<open>
  A client with the default options over the loopback, by its server, its next request ID, its fault
  script and its trace, which is numbered from 1 on: what the next operation returns and where it
  leaves the client.
\<close>

definition standing :: "MemoryServer \<Rightarrow> u32 \<Rightarrow> TransportFault list \<Rightarrow> TraceRecord list \<Rightarrow> LoopbackTransport Client \<Rightarrow> bool" where
  "standing s i faults tr c \<longleftrightarrow> loop_inv (client_transport c) \<and> client_options c = ClientOptions_default \<and>
     client_server c = s \<and> next_request_id c = i \<and> client_faults c = faults \<and> trace (client_transport c) = tr \<and>
     loop_next_sequence (client_transport c) = size_of tr + 1"

lemma standing_new:
  "standing (fresh_server p) 1 [] [] (Client_new (LoopbackTransport_new (fresh_server p)) ClientOptions_default)"
  by (simp add: standing_def Client_new_def ClientOptions_default_def max_def)
    (simp add: LoopbackTransport_new_def trace_def size_of_def)

lemma standing_fault:
  "standing s i faults tr c \<Longrightarrow>
   standing s i (faults @ [f]) tr (c\<lparr>client_transport := push_fault f (client_transport c)\<rparr>)"
  by (simp add: standing_def loop_inv_keep) (simp add: push_fault_def trace_def)

lemma length_packet_log: "length (packet_log s q seq faults) = 2 * length faults"
  by (induction faults arbitrary: seq) simp_all

lemma standing_read:
  assumes "standing s i faults tr c" and "readable_args n d" and "read_script 2 faults = (k, fault, rest)"
  obtains c' where "client_read loopback a n d c =
      Some (settled s (read_frame i a n) Opcode_data_response n [] fault (word_of_nat k), c')"
    "standing s (next_id i) rest (tr @ packet_log s (read_frame i a n) (size_of tr + 1) (met k faults)) c'"
proof -
  have c: "loop_inv (client_transport c)" "1 \<le> maximum_read_attempts (client_options c)"
    "read_script (unat (maximum_read_attempts (client_options c))) (client_faults c) = (k, fault, rest)"
    using assms(1,3) by (simp_all add: standing_def ClientOptions_default_def)
  obtain c' where c': "client_read loopback a n d c =
      Some (settled s (read_frame i a n) Opcode_data_response n [] fault (word_of_nat k), c')" "follows c c'"
      "client_server c' = client_server c" "client_faults c' = rest"
    using client_read_settled [OF c(1) assms(2) c(2,3), of a] assms(1) by (auto simp: standing_def)
  note log = client_read_log(1) [OF c(1) assms(2) c(2,3) c'(1)] client_read_sequence [OF c(1) assms(2) c(2,3) c'(1)]
  have "length (met k faults) = k" using read_script_met [OF assms(3), THEN conjunct1] by (simp add: met_def)
  with c' log assms(1) show thesis
    by (intro that [of c'])
      (auto simp: standing_def follows_def trace_def size_of_def length_packet_log algebra_simps)
qed

lemma standing_write:
  assumes "standing s i [] tr c" and "writable_args data d"
  obtains c' where "client_write loopback a data d c =
      Some (settled s (write_frame i a data) Opcode_write_acknowledgement 0 ''write not retried: '' None 1, c')"
    "standing (if accepts_write s a data then with_memory s (patched a data (mm_bytes (server_memory s))) else s) (next_id i) []
      (tr @ packet_log s (write_frame i a data) (size_of tr + 1) [None]) c'"
proof -
  have c: "loop_inv (client_transport c)" and fault: "client_fault c = None"
    using assms(1) by (simp_all add: standing_def next_fault_def)
  obtain c' where c': "client_write loopback a data d c =
      Some (settled s (write_frame i a data) Opcode_write_acknowledgement 0 ''write not retried: '' None 1, c')"
    "follows c c'" "client_faults c' = tl (client_faults c)"
    "client_server c' = (if accepts_write s a data then with_memory s (patched a data (mm_bytes (server_memory s))) else s)"
    using client_write_settled [OF c assms(2), of a] assms(1) fault by (auto simp: standing_def)
  note log = client_write_log(1) [OF c assms(2) c'(1)] client_write_sequence [OF c assms(2) c'(1)]
  with c' assms(1) fault show thesis
    by (intro that [of c']) (auto simp: standing_def follows_def trace_def size_of_def algebra_simps)
qed

section \<open>Text\<close>

text \<open>The two trace lines of an exchange, numbered from \<open>k\<close> on.\<close>

definition exchange_text :: "nat \<Rightarrow> Frame \<Rightarrow> string \<Rightarrow> byte list \<Rightarrow> string" where
  "exchange_text k q outcome reply =
     ''trace='' @ digits_in 10 k @ '' direction=client_to_server outcome=sent bytes='' @ hex_text (wire q) @ newline @
     ''trace='' @ digits_in 10 (k + 1) @ '' direction=server_to_client outcome='' @ outcome @
     '' bytes='' @ hex_text reply @ newline"

fun packet_text :: "MemoryServer \<Rightarrow> Frame \<Rightarrow> nat \<Rightarrow> TransportFault option list \<Rightarrow> string" where
  "packet_text s q k [] = []"
| "packet_text s q k (fault # faults) =
     exchange_text k q (exchange_detail fault s q) (exchange_bytes fault s q) @ packet_text s q (k + 2) faults"

lemma print_trace_append:
  "print_trace xs = Some u \<Longrightarrow> print_trace ys = Some v \<Longrightarrow> print_trace (xs @ ys) = Some (u @ v)"
  by (induction xs arbitrary: u) (auto simp: bytes_to_hex_eq split: bind_splits)

lemma print_packet_log:
  "k + 2 * length faults < 2 ^ 64 \<Longrightarrow>
   print_trace (packet_log s q (word_of_nat k) faults) = Some (packet_text s q k faults)"
proof (induction faults arbitrary: k)
  case (Cons fault faults)
  have "print_trace (packet_log s q (word_of_nat (k + 2)) faults) = Some (packet_text s q (k + 2) faults)"
    using Cons.prems by (intro Cons.IH) simp
  moreover have "word_of_nat k + 2 = (word_of_nat (k + 2) :: u64)" "word_of_nat k + 1 = (word_of_nat (k + 1) :: u64)" by simp_all
  moreover have "unat (word_of_nat k :: u64) = k" "unat (word_of_nat (k + 1) :: u64) = k + 1"
    using Cons.prems by (simp_all only: unsigned_of_nat, simp_all add: take_bit_nat_eq_self)
  ultimately show ?case
    by (simp add: bytes_to_hex_eq exchange_text_def del: of_nat_add of_nat_Suc)
qed simp

text \<open>The server's part of the exchanges that meet no fault.\<close>

lemma read_exchange:
  fixes i a :: u32
  assumes "0 < unat n" and "unat n \<le> 256"
  defines "q \<equiv> read_frame i a n"
  shows "unat a + unat n \<le> 0x800 \<Longrightarrow> exchange_detail None s q = ''read_ok'' \<and> exchange_bytes None s q =
      wire (response_frame q Opcode_data_response Status_ok (take (unat n) (drop (unat a) (mm_bytes (server_memory s)))))"
    and "0x800 < unat a + unat n \<Longrightarrow> exchange_detail None s q = ''read_rejected'' \<and> exchange_bytes None s q =
      wire (response_frame q Opcode_error_response
        (if 4096 < unat a + unat n then Status_out_of_range else Status_access_denied) (map of_char ''read_rejected''))"
  using assms(1,2)
  by (simp_all add: exchange_detail_def exchange_bytes_def answer_def served_def serve_def q_def reject_def
      requested_length_read_frame Let_def)

lemma write_exchange:
  fixes i a :: u32 and data :: "byte list"
  defines "q \<equiv> write_frame i a data"
  shows "accepts_write s a data \<Longrightarrow> exchange_detail None s q = ''write_ok'' \<and> exchange_bytes None s q =
      wire (response_frame q Opcode_write_acknowledgement Status_ok [])"
    and "\<not> writes_enabled (server_policy s) \<Longrightarrow> exchange_detail None s q = ''write_disabled'' \<and> exchange_bytes None s q =
      wire (response_frame q Opcode_error_response Status_write_disabled (map of_char ''write_disabled''))"
    and "writes_enabled (server_policy s) \<Longrightarrow> \<not> in_allowlist (server_policy s) (unat a) (length data) \<Longrightarrow>
      exchange_detail None s q = ''outside_write_allowlist'' \<and> exchange_bytes None s q =
      wire (response_frame q Opcode_error_response Status_access_denied (map of_char ''outside_write_allowlist''))"
  by (simp_all add: exchange_detail_def exchange_bytes_def answer_def served_def serve_def q_def reject_def
      accepts_write_def Let_def)

lemma settled_write_outside:
  assumes "server_inv s" and "writes_enabled (server_policy s)" and "\<not> in_allowlist (server_policy s) (unat a) (length data)"
  shows "settled s (write_frame i a data) Opcode_write_acknowledgement 0 words None k =
    \<lparr>op_error = ClientError_remote_error, op_remote_status = Status_access_denied, op_request_id = i, op_attempts = k,
     op_data = map of_char ''outside_write_allowlist'', op_detail = ''remote request rejected''\<rparr>"
proof -
  have "served s (write_frame i a data) = fst (reject (write_frame i a data) Status_access_denied ''outside_write_allowlist'')"
    using assms(2,3) by (simp add: served_def serve_def Let_def)
  then show ?thesis
    using assms(3) served_write(1) [OF assms(1), of i a data] served_decoded [OF assms(1), of "write_frame i a data"]
    by (simp add: settled_def lost_def answer_def validated_def OperationResult_default_def reject_def response_frame_def
        accepts_write_def)
qed

section \<open>The demonstration\<close>

text \<open>The operations of the demonstration and the lines they print.\<close>

lemma take_one_drop: "i < length xs \<Longrightarrow> take (Suc 0) (drop i xs) = [xs ! i]"
  by (simp add: take_Suc hd_drop_conv_nth)

lemma demo_lines:
  defines "ro \<equiv> fresh_server ServerPolicy_default" and "rw \<equiv> fresh_server (ServerPolicy_default\<lparr>writes_enabled := True\<rparr>)"
  shows "print_result (settled ro (read_frame 1 0 12) Opcode_data_response 12 [] None 1) =
      Some (''request_id=1 client_error=none remote_status=ok attempts=1 detail=ok data=494d4c502f312073796e7468'' @ newline)"
    and "print_result (settled ro (write_frame 2 0x100 [0x12, 0x34]) Opcode_write_acknowledgement 0 ''write not retried: '' None 1) =
      Some (''request_id=2 client_error=remote_error remote_status=write_disabled attempts=1 detail=remote request rejected data=77726974655f64697361626c6564'' @ newline)"
    and "print_result (settled ro (read_frame 3 0x40 1) Opcode_data_response 1 [] None 2) =
      Some (''request_id=3 client_error=none remote_status=ok attempts=2 detail=ok data=01'' @ newline)"
    and "print_result (settled ro (read_frame 4 0 4) Opcode_data_response 4 [] (Some TransportFault_corrupt_response) 1) =
      Some (''request_id=4 client_error=malformed_response remote_status=ok attempts=1 detail=checksum_mismatch'' @ newline)"
    and "print_result (settled rw (write_frame 1 0x100 [0x12, 0x34]) Opcode_write_acknowledgement 0 ''write not retried: '' None 1) =
      Some (''request_id=1 client_error=none remote_status=ok attempts=1 detail=ok'' @ newline)"
    and "print_result (settled (with_memory rw (patched 0x100 [0x12, 0x34] initial_bytes)) (read_frame 2 0x100 2) Opcode_data_response 2 [] None 1) =
      Some (''request_id=2 client_error=none remote_status=ok attempts=1 detail=ok data=1234'' @ newline)"
proof -
  have ro: "server_inv ro" "\<not> writes_enabled (server_policy ro)" and rw: "server_inv rw" "accepts_write rw 0x100 [0x12, 0x34]"
    by (simp_all add: ro_def rw_def accepts_write_def in_allowlist_def ServerPolicy_default_def)
  have mem: "mm_bytes (server_memory ro) = initial_bytes" by (simp add: ro_def)
  have bytes: "take 12 initial_bytes = map of_char ''IMLP/1 synth''" "take 1 (drop 64 initial_bytes) = [1]"
    by (simp_all add: initial_bytes_prefix) (simp_all add: identity_def take_one_drop initial_bytes_nth)
  show "print_result (settled ro (read_frame 1 0 12) Opcode_data_response 12 [] None 1) =
      Some (''request_id=1 client_error=none remote_status=ok attempts=1 detail=ok data=494d4c502f312073796e7468'' @ newline)"
    using settled_read_ok [OF ro(1), of 12 0 1 "[]" 1]
    by (simp add: mem bytes print_result_eq digits_in_small status_names hex_text_def hex_digits_def)
  show "print_result (settled ro (read_frame 3 0x40 1) Opcode_data_response 1 [] None 2) =
      Some (''request_id=3 client_error=none remote_status=ok attempts=2 detail=ok data=01'' @ newline)"
    using settled_read_ok [OF ro(1), of 1 "0x40" 3 "[]" 2] bytes(2)
    by (simp add: mem print_result_eq digits_in_small status_names hex_text_def hex_digits_def)
  show "print_result (settled ro (write_frame 2 0x100 [0x12, 0x34]) Opcode_write_acknowledgement 0 ''write not retried: '' None 1) =
      Some (''request_id=2 client_error=remote_error remote_status=write_disabled attempts=1 detail=remote request rejected data=77726974655f64697361626c6564'' @ newline)"
    using settled_write_disabled [OF ro]
    by (simp add: print_result_eq digits_in_small status_names hex_text_def hex_digits_def)
  show "print_result (settled ro (read_frame 4 0 4) Opcode_data_response 4 [] (Some TransportFault_corrupt_response) 1) =
      Some (''request_id=4 client_error=malformed_response remote_status=ok attempts=1 detail=checksum_mismatch'' @ newline)"
    using settled_corrupted [OF ro(1)] by (simp add: print_result_eq digits_in_small status_names)
  show "print_result (settled rw (write_frame 1 0x100 [0x12, 0x34]) Opcode_write_acknowledgement 0 ''write not retried: '' None 1) =
      Some (''request_id=1 client_error=none remote_status=ok attempts=1 detail=ok'' @ newline)"
    using settled_write_ok [OF rw] by (simp add: print_result_eq digits_in_small status_names)
  have after: "server_inv (with_memory rw (patched 0x100 [0x12, 0x34] initial_bytes))"
    by (simp add: server_inv_def memory_inv_def patched_def)
  have data: "take 2 (drop 256 (patched 0x100 [0x12, 0x34] initial_bytes)) = [0x12, 0x34]"
    by (simp add: patched_def)
  show "print_result (settled (with_memory rw (patched 0x100 [0x12, 0x34] initial_bytes)) (read_frame 2 0x100 2) Opcode_data_response 2 [] None 1) =
      Some (''request_id=2 client_error=none remote_status=ok attempts=1 detail=ok data=1234'' @ newline)"
    using settled_read_ok [OF after, of 2 "0x100" 2 "[]" 1]
    by (simp add: data print_result_eq digits_in_small status_names hex_text_def hex_digits_def)
qed

text \<open>The packets of the demonstration in hexadecimal.\<close>

lemma demo_packets:
  "hex_text (wire (read_frame 1 0 12)) =
     ''494d01010000000000010000000000020000000c62be1751''"
  "hex_text (wire (response_frame (read_frame 1 0 12) Opcode_data_response Status_ok ([0x49, 0x4D, 0x4C, 0x50, 0x2F, 0x31, 0x20, 0x73, 0x79, 0x6E, 0x74, 0x68]))) =
     ''494d018101000000000100000000000c0000494d4c502f312073796e7468b1f02def''"
  "hex_text (wire (write_frame 2 0x100 [0x12, 0x34])) =
     ''494d010200000000000200000100000200001234349ae207''"
  "hex_text (wire (response_frame (write_frame 2 0x100 [0x12, 0x34]) Opcode_error_response Status_write_disabled ([0x77, 0x72, 0x69, 0x74, 0x65, 0x5F, 0x64, 0x69, 0x73, 0x61, 0x62, 0x6C, 0x65, 0x64]))) =
     ''494d01ff01000000000200000100000e000377726974655f64697361626c65649431c7ee''"
  "hex_text (wire (read_frame 3 0x40 1)) =
     ''494d0101000000000003000000400002000000010068a754''"
  "hex_text (wire (response_frame (read_frame 3 0x40 1) Opcode_data_response Status_ok ([0x01]))) =
     ''494d0181010000000003000000400001000001e7798d43''"
  "hex_text (wire (read_frame 4 0 4)) =
     ''494d0101000000000004000000000002000000041d323321''"
  "hex_text (wire (response_frame (read_frame 4 0 4) Opcode_data_response Status_ok ([0x49, 0x4D, 0x4C, 0x50]))) =
     ''494d01810100000000040000000000040000494d4c50caf5d0b6''"
  "hex_text (altered TransportFault_corrupt_response (response_frame (read_frame 4 0 4) Opcode_data_response Status_ok ([0x49, 0x4D, 0x4C, 0x50]))) =
     ''494d01810100000000040000000000040000494d4c50caf5d0b7''"
  by (simp_all add: wire_def wire_body_def wire_header_def be16_def be32_def read_frame_def write_frame_def
      response_frame_def enum_defs crc32_def crc_eval hex_text_def hex_digits_def)

text \<open>The four operations of the first client, and the two of the second.\<close>

lemma demo_first_client:
  defines "ro \<equiv> fresh_server ServerPolicy_default"
    and "inject \<equiv> \<lambda>f c. c\<lparr>client_transport := push_fault f (client_transport c)\<rparr>"
  obtains c1 c2 c3 c4 where
    "client_read loopback 0 12 100 (Client_new (LoopbackTransport_new ro) ClientOptions_default) =
      Some (settled ro (read_frame 1 0 12) Opcode_data_response 12 [] None 1, c1)"
    "client_write loopback 0x100 [0x12, 0x34] 100 c1 = Some (settled ro (write_frame 2 0x100 [0x12, 0x34])
      Opcode_write_acknowledgement 0 ''write not retried: '' None 1, c2)"
    "client_read loopback 0x40 1 100 (inject TransportFault_timeout c2) =
      Some (settled ro (read_frame 3 0x40 1) Opcode_data_response 1 [] None 2, c3)"
    "client_read loopback 0 4 100 (inject TransportFault_corrupt_response c3) =
      Some (settled ro (read_frame 4 0 4) Opcode_data_response 4 [] (Some TransportFault_corrupt_response) 1, c4)"
    "trace (client_transport c4) = packet_log ro (read_frame 1 0 12) 1 [None] @
      packet_log ro (write_frame 2 0x100 [0x12, 0x34]) 3 [None] @
      packet_log ro (read_frame 3 0x40 1) 5 [Some TransportFault_timeout, None] @
      packet_log ro (read_frame 4 0 4) 9 [Some TransportFault_corrupt_response]"
proof -
  have args: "readable_args 12 100" "readable_args 1 100" "readable_args 4 100" "writable_args [0x12, 0x34] 100"
    by (simp_all add: readable_args_def writable_args_def)
  have ids: "next_id 1 = 2" "next_id 2 = 3" "next_id 3 = 4" by (simp_all add: next_id_def)
  have no: "\<not> accepts_write ro 0x100 [0x12, 0x34]"
    by (simp add: ro_def accepts_write_def ServerPolicy_default_def)
  define t1 where "t1 = packet_log ro (read_frame 1 0 12) 1 [None]"
  define t2 where "t2 = t1 @ packet_log ro (write_frame 2 0x100 [0x12, 0x34]) 3 [None]"
  define t3 where "t3 = t2 @ packet_log ro (read_frame 3 0x40 1) 5 [Some TransportFault_timeout, None]"
  have sizes: "size_of t1 = 2" "size_of t2 = 4" "size_of t3 = 8"
    by (simp_all add: t1_def t2_def t3_def size_of_def)
  have s0: "standing ro 1 [] [] (Client_new (LoopbackTransport_new ro) ClientOptions_default)"
    unfolding ro_def by (rule standing_new)
  obtain c1 where c1: "client_read loopback 0 12 100 (Client_new (LoopbackTransport_new ro) ClientOptions_default) =
      Some (settled ro (read_frame 1 0 12) Opcode_data_response 12 [] None 1, c1)" and s1: "standing ro 2 [] t1 c1"
    by (rule standing_read [OF s0 args(1), of 1 None "[]" 0]) (auto simp: ids t1_def size_of_def)
  obtain c2 where c2: "client_write loopback 0x100 [0x12, 0x34] 100 c1 = Some (settled ro (write_frame 2 0x100 [0x12, 0x34])
      Opcode_write_acknowledgement 0 ''write not retried: '' None 1, c2)" and s2: "standing ro 3 [] t2 c2"
    by (rule standing_write [OF s1 args(4), of "0x100"]) (auto simp: ids no sizes t2_def)
  obtain c3 where c3: "client_read loopback 0x40 1 100 (inject TransportFault_timeout c2) =
      Some (settled ro (read_frame 3 0x40 1) Opcode_data_response 1 [] None 2, c3)" and s3: "standing ro 4 [] t3 c3"
    by (rule standing_read [OF standing_fault [OF s2, of TransportFault_timeout] args(2), of 2 None "[]" "0x40"])
      (auto simp: ids sizes t3_def inject_def numeral_2_eq_2)
  obtain c4 where c4: "client_read loopback 0 4 100 (inject TransportFault_corrupt_response c3) =
      Some (settled ro (read_frame 4 0 4) Opcode_data_response 4 [] (Some TransportFault_corrupt_response) 1, c4)"
    and s4: "standing ro (next_id 4) [] (t3 @ packet_log ro (read_frame 4 0 4) 9 [Some TransportFault_corrupt_response]) c4"
    by (rule standing_read [OF standing_fault [OF s3, of TransportFault_corrupt_response] args(3),
          of 1 "Some TransportFault_corrupt_response" "[]" 0]) (auto simp: sizes inject_def)
  show thesis
    using that [OF c1 c2 c3 c4] s4 by (simp add: standing_def t1_def t2_def t3_def)
qed

lemma demo_second_client:
  defines "rw \<equiv> fresh_server (ServerPolicy_default\<lparr>writes_enabled := True\<rparr>)"
  obtains c5 c6 where
    "client_write loopback 0x100 [0x12, 0x34] 100 (Client_new (LoopbackTransport_new rw) ClientOptions_default) =
      Some (settled rw (write_frame 1 0x100 [0x12, 0x34]) Opcode_write_acknowledgement 0 ''write not retried: '' None 1, c5)"
    "client_read loopback 0x100 2 100 c5 =
      Some (settled (with_memory rw (patched 0x100 [0x12, 0x34] initial_bytes)) (read_frame 2 0x100 2)
        Opcode_data_response 2 [] None 1, c6)"
proof -
  have args: "readable_args 2 100" "writable_args [0x12, 0x34] 100"
    by (simp_all add: readable_args_def writable_args_def)
  have yes: "accepts_write rw 0x100 [0x12, 0x34]" and mem: "mm_bytes (server_memory rw) = initial_bytes"
    by (simp_all add: rw_def accepts_write_def in_allowlist_def ServerPolicy_default_def)
  have s0: "standing rw 1 [] [] (Client_new (LoopbackTransport_new rw) ClientOptions_default)"
    unfolding rw_def by (rule standing_new)
  obtain c5 tr where c5: "client_write loopback 0x100 [0x12, 0x34] 100 (Client_new (LoopbackTransport_new rw) ClientOptions_default) =
      Some (settled rw (write_frame 1 0x100 [0x12, 0x34]) Opcode_write_acknowledgement 0 ''write not retried: '' None 1, c5)"
    and s5: "standing (with_memory rw (patched 0x100 [0x12, 0x34] initial_bytes)) 2 [] tr c5"
    by (rule standing_write [OF s0 args(2), of "0x100"]) (auto simp: next_id_def yes mem)
  show thesis
    by (rule standing_read [OF s5 args(1), of 1 None "[]" "0x100"]) (use that [OF c5] in auto)
qed

lemma demo_exchanges:
  defines "ro \<equiv> fresh_server ServerPolicy_default"
  shows "packet_text ro (read_frame 1 0 12) 1 [None] =
     ''trace=1 direction=client_to_server outcome=sent bytes=494d01010000000000010000000000020000000c62be1751'' @ newline @
     ''trace=2 direction=server_to_client outcome=read_ok bytes=494d018101000000000100000000000c0000494d4c502f312073796e7468b1f02def'' @ newline"
    and "packet_text ro (write_frame 2 0x100 [0x12, 0x34]) 3 [None] =
     ''trace=3 direction=client_to_server outcome=sent bytes=494d010200000000000200000100000200001234349ae207'' @ newline @
     ''trace=4 direction=server_to_client outcome=write_disabled bytes=494d01ff01000000000200000100000e000377726974655f64697361626c65649431c7ee'' @ newline"
    and "packet_text ro (read_frame 3 0x40 1) 5 [Some TransportFault_timeout, None] =
     ''trace=5 direction=client_to_server outcome=sent bytes=494d0101000000000003000000400002000000010068a754'' @ newline @
     ''trace=6 direction=server_to_client outcome=timeout bytes='' @ newline @
     ''trace=7 direction=client_to_server outcome=sent bytes=494d0101000000000003000000400002000000010068a754'' @ newline @
     ''trace=8 direction=server_to_client outcome=read_ok bytes=494d0181010000000003000000400001000001e7798d43'' @ newline"
    and "packet_text ro (read_frame 4 0 4) 9 [Some TransportFault_corrupt_response] =
     ''trace=9 direction=client_to_server outcome=sent bytes=494d0101000000000004000000000002000000041d323321'' @ newline @
     ''trace=10 direction=server_to_client outcome=read_ok bytes=494d01810100000000040000000000040000494d4c50caf5d0b7'' @ newline"
proof -
  have ro: "mm_bytes (server_memory ro) = initial_bytes" "\<not> writes_enabled (server_policy ro)"
    by (simp_all add: ro_def ServerPolicy_default_def)
  have digits: "digits_in 10 5 = ''5''" "digits_in 10 6 = ''6''" "digits_in 10 7 = ''7''" "digits_in 10 8 = ''8''"
    "digits_in 10 9 = ''9''" "digits_in 10 10 = ''10''" "digits_in 10 (Suc (Suc 0)) = ''2''"
    by (simp_all add: digits_in.simps hex_digits_def)
  have nil: "hex_text [] = []" by (simp add: hex_text_def)
  have bytes: "take 12 initial_bytes = [0x49, 0x4D, 0x4C, 0x50, 0x2F, 0x31, 0x20, 0x73, 0x79, 0x6E, 0x74, 0x68]"
    "take 1 (drop 64 initial_bytes) = [1]" "take 4 initial_bytes = [0x49, 0x4D, 0x4C, 0x50]"
    by (simp_all add: initial_bytes_prefix) (simp_all add: identity_def take_one_drop initial_bytes_nth)
  have served: "served ro (read_frame 1 0 12) = response_frame (read_frame 1 0 12) Opcode_data_response Status_ok
      [0x49, 0x4D, 0x4C, 0x50, 0x2F, 0x31, 0x20, 0x73, 0x79, 0x6E, 0x74, 0x68]"
    "served ro (write_frame 2 0x100 [0x12, 0x34]) = response_frame (write_frame 2 0x100 [0x12, 0x34]) Opcode_error_response
      Status_write_disabled [0x77, 0x72, 0x69, 0x74, 0x65, 0x5F, 0x64, 0x69, 0x73, 0x61, 0x62, 0x6C, 0x65, 0x64]"
    "served ro (read_frame 3 0x40 1) = response_frame (read_frame 3 0x40 1) Opcode_data_response Status_ok [0x01]"
    "served ro (read_frame 4 0 4) = response_frame (read_frame 4 0 4) Opcode_data_response Status_ok [0x49, 0x4D, 0x4C, 0x50]"
    using bytes(2) by (simp_all add: served_def serve_def requested_length_read_frame ro reject_def bytes)
  have detail: "snd (fst (serve (server_policy ro) initial_bytes (read_frame 1 0 12))) = ''read_ok''"
    "snd (fst (serve (server_policy ro) initial_bytes (write_frame 2 0x100 [0x12, 0x34]))) = ''write_disabled''"
    "snd (fst (serve (server_policy ro) initial_bytes (read_frame 3 0x40 1))) = ''read_ok''"
    "snd (fst (serve (server_policy ro) initial_bytes (read_frame 4 0 4))) = ''read_ok''"
    by (simp_all add: serve_def requested_length_read_frame ro reject_def)
  note text_simps = exchange_text_def exchange_detail_def exchange_bytes_def answer_def ro(1) served detail digits digits_in_small
    nil demo_packets
  show "packet_text ro (read_frame 1 0 12) 1 [None] =
     ''trace=1 direction=client_to_server outcome=sent bytes=494d01010000000000010000000000020000000c62be1751'' @ newline @
     ''trace=2 direction=server_to_client outcome=read_ok bytes=494d018101000000000100000000000c0000494d4c502f312073796e7468b1f02def'' @ newline"
    by (simp add: text_simps)
  show "packet_text ro (write_frame 2 0x100 [0x12, 0x34]) 3 [None] =
     ''trace=3 direction=client_to_server outcome=sent bytes=494d010200000000000200000100000200001234349ae207'' @ newline @
     ''trace=4 direction=server_to_client outcome=write_disabled bytes=494d01ff01000000000200000100000e000377726974655f64697361626c65649431c7ee'' @ newline"
    by (simp add: text_simps)
  show "packet_text ro (read_frame 3 0x40 1) 5 [Some TransportFault_timeout, None] =
     ''trace=5 direction=client_to_server outcome=sent bytes=494d0101000000000003000000400002000000010068a754'' @ newline @
     ''trace=6 direction=server_to_client outcome=timeout bytes='' @ newline @
     ''trace=7 direction=client_to_server outcome=sent bytes=494d0101000000000003000000400002000000010068a754'' @ newline @
     ''trace=8 direction=server_to_client outcome=read_ok bytes=494d0181010000000003000000400001000001e7798d43'' @ newline"
    by (simp add: text_simps)
  show "packet_text ro (read_frame 4 0 4) 9 [Some TransportFault_corrupt_response] =
     ''trace=9 direction=client_to_server outcome=sent bytes=494d0101000000000004000000000002000000041d323321'' @ newline @
     ''trace=10 direction=server_to_client outcome=read_ok bytes=494d01810100000000040000000000040000494d4c50caf5d0b7'' @ newline"
    by (simp add: text_simps del: altered.simps)
qed

lemma demo_trace:
  defines "ro \<equiv> fresh_server ServerPolicy_default"
  shows "print_trace (packet_log ro (read_frame 1 0 12) 1 [None] @
      packet_log ro (write_frame 2 0x100 [0x12, 0x34]) 3 [None] @
      packet_log ro (read_frame 3 0x40 1) 5 [Some TransportFault_timeout, None] @
      packet_log ro (read_frame 4 0 4) 9 [Some TransportFault_corrupt_response]) = Some (
     ''trace=1 direction=client_to_server outcome=sent bytes=494d01010000000000010000000000020000000c62be1751'' @ newline @
     ''trace=2 direction=server_to_client outcome=read_ok bytes=494d018101000000000100000000000c0000494d4c502f312073796e7468b1f02def'' @ newline @
     ''trace=3 direction=client_to_server outcome=sent bytes=494d010200000000000200000100000200001234349ae207'' @ newline @
     ''trace=4 direction=server_to_client outcome=write_disabled bytes=494d01ff01000000000200000100000e000377726974655f64697361626c65649431c7ee'' @ newline @
     ''trace=5 direction=client_to_server outcome=sent bytes=494d0101000000000003000000400002000000010068a754'' @ newline @
     ''trace=6 direction=server_to_client outcome=timeout bytes='' @ newline @
     ''trace=7 direction=client_to_server outcome=sent bytes=494d0101000000000003000000400002000000010068a754'' @ newline @
     ''trace=8 direction=server_to_client outcome=read_ok bytes=494d0181010000000003000000400001000001e7798d43'' @ newline @
     ''trace=9 direction=client_to_server outcome=sent bytes=494d0101000000000004000000000002000000041d323321'' @ newline @
     ''trace=10 direction=server_to_client outcome=read_ok bytes=494d01810100000000040000000000040000494d4c50caf5d0b7'' @ newline)"
proof -
  have "print_trace (packet_log ro (read_frame 1 0 12) 1 [None] @ packet_log ro (write_frame 2 0x100 [0x12, 0x34]) 3 [None] @
      packet_log ro (read_frame 3 0x40 1) 5 [Some TransportFault_timeout, None] @
      packet_log ro (read_frame 4 0 4) 9 [Some TransportFault_corrupt_response]) =
    Some (packet_text ro (read_frame 1 0 12) 1 [None] @ packet_text ro (write_frame 2 0x100 [0x12, 0x34]) 3 [None] @
      packet_text ro (read_frame 3 0x40 1) 5 [Some TransportFault_timeout, None] @
      packet_text ro (read_frame 4 0 4) 9 [Some TransportFault_corrupt_response])"
    using print_packet_log [of 1] print_packet_log [of 3] print_packet_log [of 5] print_packet_log [of 9]
    by (intro print_trace_append) (simp_all del: packet_log.simps packet_text.simps)
  then show ?thesis unfolding ro_def by (simp only: demo_exchanges append_assoc)
qed

section \<open>Properties\<close>

text \<open>A length of 0 or of more than 256 bytes does not reach the transport.\<close>

lemma run_read_refused:
  assumes "parse_u32 address_text 0 = (True, a)" and "parse_u32 length_text 0 = (True, n)" and "unat n = 0 \<or> 256 < unat n"
  shows "run_read address_text length_text = Some \<lparr>process_out = ''request_id=1 client_error=invalid_argument remote_status=ok attempts=0 detail=read length and deadline must be positive and bounded'' @ newline,
    process_err = [], process_exit = 4\<rparr>"
proof -
  let ?c = "Client_new (LoopbackTransport_new (fresh_server ServerPolicy_default)) ClientOptions_default"
  have "\<not> readable_args (ucast n) 100" using assms(3) by (auto simp: readable_args_def)
  then have "client_read loopback a (ucast n) 100 ?c = Some (OperationResult_default\<lparr>op_error := ClientError_invalid_argument,
      op_request_id := 1, op_detail := ''read length and deadline must be positive and bounded''\<rparr>, started ?c)"
    by (simp add: client_read_eq Client_new_def)
  with assms(1,2) show ?thesis
    by (simp add: run_read_def MemoryServer_new_eq print_result_eq)
      (simp add: Client_new_def LoopbackTransport_new_def trace_def OperationResult_default_def op_ok_def digits_in_small status_names)
qed

text \<open>A read of a length the protocol can carry, within the readable region and outside it.\<close>

lemma run_read_carried:
  assumes "parse_u32 address_text 0 = (True, a)" and "parse_u32 length_text 0 = (True, n)"
    and "0 < unat n" and "unat n \<le> 256"
  shows "run_read address_text length_text = Some
    (let q = read_frame 1 a (ucast n); data = take (unat n) (drop (unat a) initial_bytes) in
     if unat a + unat n \<le> 0x800
     then \<lparr>process_out = ''request_id=1 client_error=none remote_status=ok attempts=1 detail=ok data='' @
         hex_text data @ newline @
         exchange_text 1 q ''read_ok'' (wire (response_frame q Opcode_data_response Status_ok data)),
       process_err = [], process_exit = 0\<rparr>
     else let status = (if 4096 < unat a + unat n then Status_out_of_range else Status_access_denied) in
       \<lparr>process_out = ''request_id=1 client_error=remote_error remote_status='' @ status_name status @
         '' attempts=1 detail=remote request rejected data='' @ hex_text (map of_char ''read_rejected'') @ newline @
         exchange_text 1 q ''read_rejected''
           (wire (response_frame q Opcode_error_response status (map of_char ''read_rejected''))),
       process_err = [], process_exit = 4\<rparr>)"
proof -
  let ?s = "fresh_server ServerPolicy_default" and ?q = "read_frame 1 a (ucast n)"
  have args: "readable_args (ucast n) 100" "0 < unat (ucast n :: size_t)" "unat (ucast n :: size_t) \<le> 256"
    using assms(3,4) by (simp_all add: readable_args_def)
  obtain c where c: "client_read loopback a (ucast n) 100 (Client_new (LoopbackTransport_new ?s) ClientOptions_default) =
      Some (settled ?s ?q Opcode_data_response (ucast n) [] None (word_of_nat 1), c)"
    "standing ?s (next_id 1) [] (packet_log ?s ?q 1 [None]) c"
    by (rule standing_read [OF standing_new args(1)]) (auto simp: size_of_def)
  define r where "r = settled ?s ?q Opcode_data_response (ucast n) [] None 1"
  define t where "t = packet_text ?s ?q 1 [None]"
  have "print_trace (trace (client_transport c)) = Some t"
    using c(2) print_packet_log [of 1 "[None]" ?s ?q] by (simp add: standing_def t_def del: packet_log.simps packet_text.simps)
  moreover obtain line where line: "print_result r = Some line" by (simp add: print_result_eq)
  ultimately have run: "run_read address_text length_text =
      Some \<lparr>process_out = line @ t, process_err = [], process_exit = if op_ok r then 0 else 4\<rparr>"
    using assms(1,2) c(1) by (simp add: run_read_def MemoryServer_new_eq r_def [symmetric])
  show ?thesis
  proof (cases "unat a + unat n \<le> 0x800")
    case True
    then have "take (unat n) (drop (unat a) initial_bytes) \<noteq> []" using assms(3) by simp
    with True line run show ?thesis
      using settled_read_ok [OF server_inv_fresh args(2,3), of a] read_exchange(1) [OF args(2,3), where a = a and i = 1 and s = ?s]
      by (auto simp: r_def t_def print_result_eq op_ok_def digits_in_small status_names Let_def)
  next
    case False
    with line run show ?thesis
      using settled_read_rejected [OF server_inv_fresh args(2,3), of a] read_exchange(2) [OF args(2,3), where a = a and i = 1 and s = ?s]
      by (auto simp: r_def t_def print_result_eq op_ok_def digits_in_small Let_def)
  qed
qed

text \<open>
  C31. What \<open>imlp-cli read\<close> prints, for every pair of texts. Arguments that are not numbers of 32 bits are
  reported on standard error with exit code 2. A length of 0 or of more than 256 is refused by the
  client before anything is sent. Otherwise there is one result line with request ID 1 and one attempt,
  then the two packets of the exchange: within the readable region the line has the memory contents in
  hexadecimal and the exit code is 0; outside it the line has the status the server rejected the
  request with, and the exit code is 4.
\<close>

theorem cli_read_output:
  "run_read address_text length_text = Some
    (let (address_ok, a) = parse_u32 address_text 0; (length_ok, n) = parse_u32 length_text 0;
         q = read_frame 1 a (ucast n); data = take (unat n) (drop (unat a) initial_bytes);
         status = (if 4096 < unat a + unat n then Status_out_of_range else Status_access_denied) in
     if \<not> (address_ok \<and> length_ok)
     then \<lparr>process_out = [], process_err = ''error=invalid_address_or_length'' @ newline, process_exit = 2\<rparr>
     else if unat n = 0 \<or> 256 < unat n
     then \<lparr>process_out = ''request_id=1 client_error=invalid_argument remote_status=ok attempts=0 detail=read length and deadline must be positive and bounded'' @ newline,
       process_err = [], process_exit = 4\<rparr>
     else if unat a + unat n \<le> 0x800
     then \<lparr>process_out = ''request_id=1 client_error=none remote_status=ok attempts=1 detail=ok data='' @
         hex_text data @ newline @
         exchange_text 1 q ''read_ok'' (wire (response_frame q Opcode_data_response Status_ok data)),
       process_err = [], process_exit = 0\<rparr>
     else \<lparr>process_out = ''request_id=1 client_error=remote_error remote_status='' @ status_name status @
         '' attempts=1 detail=remote request rejected data='' @ hex_text (map of_char ''read_rejected'') @ newline @
         exchange_text 1 q ''read_rejected''
           (wire (response_frame q Opcode_error_response status (map of_char ''read_rejected''))),
       process_err = [], process_exit = 4\<rparr>)"
proof -
  obtain address_ok a length_ok n where parse: "parse_u32 address_text 0 = (address_ok, a)" "parse_u32 length_text 0 = (length_ok, n)"
    by fastforce
  consider "\<not> address_ok \<or> \<not> length_ok" | "address_ok" "length_ok" "unat n = 0 \<or> 256 < unat n"
    | "address_ok" "length_ok" "0 < unat n" "unat n \<le> 256" by linarith
  then show ?thesis
  proof cases
    case 1
    then show ?thesis by (simp add: run_read_def parse)
  next
    case 2
    then have "run_read address_text length_text = Some \<lparr>process_out = ''request_id=1 client_error=invalid_argument remote_status=ok attempts=0 detail=read length and deadline must be positive and bounded'' @ newline,
        process_err = [], process_exit = 4\<rparr>"
      using parse by (intro run_read_refused [of _ a _ n]) simp_all
    with 2 show ?thesis by (simp add: parse)
  next
    case 3
    with run_read_carried [of address_text a length_text n] parse show ?thesis by (simp add: Let_def)
  qed
qed

text \<open>
  The opted-in \<open>write\<close> with well-formed arguments prints the result and the trace of its client, which
  for a payload the protocol can carry are those of one exchange.
\<close>

lemma run_write_prints:
  assumes "parse_u32 address_text 0 = (True, a)" and "bytes_from_hex payload_text = Some (Some data)" and "data \<noteq> []"
    and "client_write loopback a data 100 (Client_new (LoopbackTransport_new
      (fresh_server (ServerPolicy_default\<lparr>writes_enabled := True\<rparr>))) ClientOptions_default) = Some (r, c)"
    and "print_result r = Some line" and "print_trace (trace (client_transport c)) = Some t"
  shows "run_write address_text payload_text ''--allow-writes'' =
    Some \<lparr>process_out = line @ t, process_err = [], process_exit = if op_ok r then 0 else 4\<rparr>"
  using assms by (simp add: run_write_def MemoryServer_new_eq)

lemma fresh_write_trace:
  fixes a :: u32
  assumes "writable_args data 100"
  defines "s \<equiv> fresh_server (ServerPolicy_default\<lparr>writes_enabled := True\<rparr>)"
  obtains c where "client_write loopback a data 100 (Client_new (LoopbackTransport_new s) ClientOptions_default) =
      Some (settled s (write_frame 1 a data) Opcode_write_acknowledgement 0 ''write not retried: '' None 1, c)"
    "print_trace (trace (client_transport c)) = Some (packet_text s (write_frame 1 a data) 1 [None])"
proof -
  obtain c where c: "client_write loopback a data 100 (Client_new (LoopbackTransport_new s) ClientOptions_default) =
      Some (settled s (write_frame 1 a data) Opcode_write_acknowledgement 0 ''write not retried: '' None 1, c)"
    and "trace (client_transport c) = packet_log s (write_frame 1 a data) 1 [None]"
    unfolding s_def by (rule standing_write [OF standing_new assms(1), where a = a]) (auto simp: standing_def size_of_def)
  then have "print_trace (trace (client_transport c)) = Some (packet_text s (write_frame 1 a data) 1 [None])"
    using print_packet_log [of 1 "[None]" s "write_frame 1 a data"] by (simp del: packet_log.simps packet_text.simps)
  with c show thesis by (rule that)
qed

text \<open>The opted-in \<open>write\<close> of at least one byte.\<close>

lemma run_write_opted_in:
  assumes "parse_u32 address_text 0 = (True, a)" and "bytes_from_hex payload_text = Some (Some data)" and "data \<noteq> []"
  shows "run_write address_text payload_text ''--allow-writes'' = Some
    (let q = write_frame 1 a data in
     if 256 < length data
     then \<lparr>process_out = ''request_id=1 client_error=invalid_argument remote_status=ok attempts=0 detail=write payload and deadline must be positive and bounded'' @ newline,
       process_err = [], process_exit = 4\<rparr>
     else if 0x100 \<le> unat a \<and> unat a + length data \<le> 0x800
     then \<lparr>process_out = ''request_id=1 client_error=none remote_status=ok attempts=1 detail=ok'' @ newline @
         exchange_text 1 q ''write_ok'' (wire (response_frame q Opcode_write_acknowledgement Status_ok [])),
       process_err = [], process_exit = 0\<rparr>
     else \<lparr>process_out = ''request_id=1 client_error=remote_error remote_status=access_denied attempts=1 detail=remote request rejected data='' @
         hex_text (map of_char ''outside_write_allowlist'') @ newline @
         exchange_text 1 q ''outside_write_allowlist''
           (wire (response_frame q Opcode_error_response Status_access_denied (map of_char ''outside_write_allowlist''))),
       process_err = [], process_exit = 4\<rparr>)"
proof -
  let ?s = "fresh_server (ServerPolicy_default\<lparr>writes_enabled := True\<rparr>)" and ?q = "write_frame 1 a data"
  let ?c = "Client_new (LoopbackTransport_new ?s) ClientOptions_default"
  note command = run_write_prints [OF assms]
  show ?thesis
  proof (cases "256 < length data")
    case True
    then have "client_write loopback a data 100 ?c = Some (OperationResult_default\<lparr>op_error := ClientError_invalid_argument,
        op_request_id := 1, op_detail := ''write payload and deadline must be positive and bounded''\<rparr>, started ?c)"
      by (simp add: client_write_eq writable_args_def Client_new_def)
    from command [OF this print_result_eq] True show ?thesis
      by (simp add: Client_new_def LoopbackTransport_new_def trace_def OperationResult_default_def op_ok_def
          digits_in_small status_names)
  next
    case False
    then have args: "writable_args data 100" using assms(3) by (simp add: writable_args_def)
    define r where "r = settled ?s ?q Opcode_write_acknowledgement 0 ''write not retried: '' None 1"
    obtain c where "client_write loopback a data 100 ?c = Some (r, c)"
        "print_trace (trace (client_transport c)) = Some (packet_text ?s ?q 1 [None])"
      unfolding r_def by (rule fresh_write_trace [OF args])
    note run = command [OF this(1) print_result_eq this(2)]
    show ?thesis
    proof (cases "0x100 \<le> unat a \<and> unat a + length data \<le> 0x800")
      case True
      then have "accepts_write ?s a data" by (simp add: accepts_write_def in_allowlist_def ServerPolicy_default_def)
      with True False run settled_write_ok [OF server_inv_fresh this] write_exchange(1) [OF this] show ?thesis
        by (simp add: r_def op_ok_def digits_in_small status_names Let_def)
    next
      case outside: False
      then have "writes_enabled (server_policy ?s)" "\<not> in_allowlist (server_policy ?s) (unat a) (length data)"
        by (auto simp: in_allowlist_def ServerPolicy_default_def)
      with outside False run settled_write_outside [OF server_inv_fresh this] write_exchange(3) [OF this] show ?thesis
        by (auto simp: r_def op_ok_def digits_in_small status_names Let_def)
    qed
  qed
qed

text \<open>
  C32. What \<open>imlp-cli write\<close> prints, for every triple of texts. Without the literal opt-in, a 32-bit address
  and at least one byte in hexadecimal, it reports an error with exit code 2 and sends nothing. A
  payload of more than 256 bytes is refused by the client before anything is sent; otherwise the
  result line is followed by the two packets, with exit code 0 exactly when the range lies in the
  writable region: the opt-in bypasses neither allowlist nor memory map.
\<close>

theorem cli_write_output:
  "run_write address_text payload_text flag = Some
    (let (address_ok, a) = parse_u32 address_text 0;
         invalid = \<lparr>process_out = [], process_err = ''error=invalid_write_or_missing_explicit_opt_in'' @ newline, process_exit = 2\<rparr> in
     case bytes_from_hex payload_text of
       Some (Some data) \<Rightarrow>
         (if \<not> (address_ok \<and> data \<noteq> [] \<and> flag = ''--allow-writes'') then invalid
          else (let q = write_frame 1 a data in
             if 256 < length data
             then \<lparr>process_out = ''request_id=1 client_error=invalid_argument remote_status=ok attempts=0 detail=write payload and deadline must be positive and bounded'' @ newline,
               process_err = [], process_exit = 4\<rparr>
             else if 0x100 \<le> unat a \<and> unat a + length data \<le> 0x800
             then \<lparr>process_out = ''request_id=1 client_error=none remote_status=ok attempts=1 detail=ok'' @ newline @
                 exchange_text 1 q ''write_ok'' (wire (response_frame q Opcode_write_acknowledgement Status_ok [])),
               process_err = [], process_exit = 0\<rparr>
             else \<lparr>process_out = ''request_id=1 client_error=remote_error remote_status=access_denied attempts=1 detail=remote request rejected data='' @
                 hex_text (map of_char ''outside_write_allowlist'') @ newline @
                 exchange_text 1 q ''outside_write_allowlist''
                   (wire (response_frame q Opcode_error_response Status_access_denied (map of_char ''outside_write_allowlist''))),
               process_err = [], process_exit = 4\<rparr>))
     | _ \<Rightarrow> invalid)"
proof -
  obtain address_ok a where parse: "parse_u32 address_text 0 = (address_ok, a)" by fastforce
  obtain payload where payload: "bytes_from_hex payload_text = Some payload" by (simp add: bytes_from_hex_eq)
  show ?thesis
  proof (cases "payload = None \<or> payload = Some [] \<or> \<not> address_ok \<or> flag \<noteq> ''--allow-writes''")
    case True
    then have "run_write address_text payload_text flag = Some \<lparr>process_out = [],
        process_err = ''error=invalid_write_or_missing_explicit_opt_in'' @ newline, process_exit = 2\<rparr>"
      by (auto simp: run_write_def parse payload)
    with True show ?thesis by (cases payload) (auto simp: parse payload)
  next
    case False
    then obtain data where "payload = Some data" "data \<noteq> []" by auto
    with False show ?thesis
      using run_write_opted_in [of address_text a payload_text data] by (simp add: parse payload)
  qed
qed

text \<open>The line \<open>inspect\<close> prints for a frame.\<close>

definition frame_text :: "Frame \<Rightarrow> string" where
  "frame_text f = ''version=1 opcode=0x'' @ digits_in 16 (unat (opcode_value (frame_opcode f))) @
     '' flags='' @ digits_in 10 (unat (frame_flags f)) @ '' request_id='' @ digits_in 10 (unat (frame_request_id f)) @
     '' address='' @ digits_in 10 (unat (frame_address f)) @ '' status='' @ status_name (frame_status f) @
     '' payload='' @ hex_text (frame_payload f) @ newline"

text \<open>
  C33. \<open>imlp-cli inspect\<close> accepts exactly the texts that are, in either case of the letters, the hexadecimal
  form of the wire form of a valid frame, and prints the fields of that frame with exit code 0. For
  every other text it prints nothing on standard output and an error with exit code 2 or 3.
\<close>

theorem cli_inspect_output:
  "if \<exists>f. valid_frame f \<and> map lower str = hex_text (wire f)
   then \<exists>f. valid_frame f \<and> map lower str = hex_text (wire f) \<and>
     run_inspect str = Some \<lparr>process_out = frame_text f, process_err = [], process_exit = 0\<rparr>
   else \<exists>e code. run_inspect str = Some \<lparr>process_out = [], process_err = ''error='' @ e @ newline, process_exit = code\<rparr> \<and>
     code \<in> {2, 3}"
proof (cases "\<exists>f. valid_frame f \<and> map lower str = hex_text (wire f)")
  case True
  then obtain f where f: "valid_frame f" "map lower str = hex_text (wire f)" by blast
  then have "length (wire f) \<le> 278" by (simp add: valid_frame_def)
  with f(2) have "bytes_from_hex str = Some (Some (wire f))" by (simp add: bytes_from_hex_iff)
  with f(1) have "run_inspect str = Some \<lparr>process_out = frame_text f, process_err = [], process_exit = 0\<rparr>"
    by (simp add: run_inspect_def decode_wire dec_ok_def bytes_to_hex_eq frame_text_def valid_frame_def digits_in_small)
  with f True show ?thesis by auto
next
  case False
  obtain parsed where parsed: "bytes_from_hex str = Some parsed" by (simp add: bytes_from_hex_eq)
  show ?thesis
  proof (cases parsed)
    case None
    with False parsed show ?thesis by (simp add: run_inspect_def)
  next
    case (Some bytes)
    with parsed have "map lower str = hex_text bytes" by (simp add: bytes_from_hex_iff)
    with False have "bytes \<noteq> wire f" if "valid_frame f" for f using that by auto
    then obtain e n where "decode bytes = Some \<lparr>dec_frame = None, dec_error = e, dec_consumed = n\<rparr>" "e \<noteq> CodecError_none"
      by (cases bytes rule: decode_cases) auto
    with Some False parsed show ?thesis by (auto simp: run_inspect_def dec_ok_def)
  qed
qed

text \<open>
  C34. The demonstration prints exactly this: the identity text is read, the write to the default server is
  refused, the read after a timeout succeeds on its second attempt, the corrupted response is detected
  and not retried, the ten packets of the first client follow with their checksums, and on the opted-in
  server the sample is written and read back.
\<close>

theorem demo_output:
  "run_demo = Some \<lparr>process_out =
     ''scenario=read_only_default'' @ newline @
     ''request_id=1 client_error=none remote_status=ok attempts=1 detail=ok data=494d4c502f312073796e7468'' @ newline @
     ''request_id=2 client_error=remote_error remote_status=write_disabled attempts=1 detail=remote request rejected data=77726974655f64697361626c6564'' @ newline @
     ''scenario=transient_read_timeout'' @ newline @
     ''request_id=3 client_error=none remote_status=ok attempts=2 detail=ok data=01'' @ newline @
     ''scenario=corrupted_response'' @ newline @
     ''request_id=4 client_error=malformed_response remote_status=ok attempts=1 detail=checksum_mismatch'' @ newline @
     ''trace=1 direction=client_to_server outcome=sent bytes=494d01010000000000010000000000020000000c62be1751'' @ newline @
     ''trace=2 direction=server_to_client outcome=read_ok bytes=494d018101000000000100000000000c0000494d4c502f312073796e7468b1f02def'' @ newline @
     ''trace=3 direction=client_to_server outcome=sent bytes=494d010200000000000200000100000200001234349ae207'' @ newline @
     ''trace=4 direction=server_to_client outcome=write_disabled bytes=494d01ff01000000000200000100000e000377726974655f64697361626c65649431c7ee'' @ newline @
     ''trace=5 direction=client_to_server outcome=sent bytes=494d0101000000000003000000400002000000010068a754'' @ newline @
     ''trace=6 direction=server_to_client outcome=timeout bytes='' @ newline @
     ''trace=7 direction=client_to_server outcome=sent bytes=494d0101000000000003000000400002000000010068a754'' @ newline @
     ''trace=8 direction=server_to_client outcome=read_ok bytes=494d0181010000000003000000400001000001e7798d43'' @ newline @
     ''trace=9 direction=client_to_server outcome=sent bytes=494d0101000000000004000000000002000000041d323321'' @ newline @
     ''trace=10 direction=server_to_client outcome=read_ok bytes=494d01810100000000040000000000040000494d4c50caf5d0b7'' @ newline @
     ''scenario=explicit_write_opt_in'' @ newline @
     ''request_id=1 client_error=none remote_status=ok attempts=1 detail=ok'' @ newline @
     ''request_id=2 client_error=none remote_status=ok attempts=1 detail=ok data=1234'' @ newline,
     process_err = [], process_exit = 0\<rparr>"
proof -
  obtain c1 c2 c3 c4 where first:
    "client_read loopback 0 12 100 (Client_new (LoopbackTransport_new (fresh_server ServerPolicy_default)) ClientOptions_default) =
      Some (settled (fresh_server ServerPolicy_default) (read_frame 1 0 12) Opcode_data_response 12 [] None 1, c1)"
    "client_write loopback 0x100 [0x12, 0x34] 100 c1 = Some (settled (fresh_server ServerPolicy_default)
      (write_frame 2 0x100 [0x12, 0x34]) Opcode_write_acknowledgement 0 ''write not retried: '' None 1, c2)"
    "client_read loopback 0x40 1 100 (c2\<lparr>client_transport := push_fault TransportFault_timeout (client_transport c2)\<rparr>) =
      Some (settled (fresh_server ServerPolicy_default) (read_frame 3 0x40 1) Opcode_data_response 1 [] None 2, c3)"
    "client_read loopback 0 4 100 (c3\<lparr>client_transport := push_fault TransportFault_corrupt_response (client_transport c3)\<rparr>) =
      Some (settled (fresh_server ServerPolicy_default) (read_frame 4 0 4) Opcode_data_response 4 []
        (Some TransportFault_corrupt_response) 1, c4)"
    "trace (client_transport c4) = packet_log (fresh_server ServerPolicy_default) (read_frame 1 0 12) 1 [None] @
      packet_log (fresh_server ServerPolicy_default) (write_frame 2 0x100 [0x12, 0x34]) 3 [None] @
      packet_log (fresh_server ServerPolicy_default) (read_frame 3 0x40 1) 5 [Some TransportFault_timeout, None] @
      packet_log (fresh_server ServerPolicy_default) (read_frame 4 0 4) 9 [Some TransportFault_corrupt_response]"
    by (rule demo_first_client)
  note packets = demo_trace [folded first(5)]
  obtain c5 c6 where "client_write loopback 0x100 [0x12, 0x34] 100 (Client_new (LoopbackTransport_new
      (fresh_server (ServerPolicy_default\<lparr>writes_enabled := True\<rparr>))) ClientOptions_default) =
      Some (settled (fresh_server (ServerPolicy_default\<lparr>writes_enabled := True\<rparr>)) (write_frame 1 0x100 [0x12, 0x34])
        Opcode_write_acknowledgement 0 ''write not retried: '' None 1, c5)"
    "client_read loopback 0x100 2 100 c5 =
      Some (settled (with_memory (fresh_server (ServerPolicy_default\<lparr>writes_enabled := True\<rparr>))
        (patched 0x100 [0x12, 0x34] initial_bytes)) (read_frame 2 0x100 2) Opcode_data_response 2 [] None 1, c6)"
    by (rule demo_second_client)
  then show ?thesis
    by (simp add: run_demo_def MemoryServer_new_eq size_of_def first(1-4) packets demo_lines)
qed

end
