(* ===== verification/Fuzz.thy ===== *)
theory Fuzz
  imports Server
begin

text \<open>
  The fuzz target of \<open>fuzz/codec_fuzzer.cpp\<close>, which aborts if an accepted frame does not survive a
  round trip. \<open>std::abort\<close> is one of its outcomes.
\<close>

section \<open>Definitions\<close>

datatype fuzz_outcome = fuzz_abort | fuzz_return int

definition LLVMFuzzerTestOneInput :: "byte list \<Rightarrow> fuzz_outcome option" where
  "LLVMFuzzerTestOneInput data =
     (if length data > maximum_frame_size * 2 then Some (fuzz_return 0)
      else do {
        first \<leftarrow> decode data;
        failed \<leftarrow>
          (if dec_ok first \<and> dec_frame first \<noteq> None
           then do {
             frame \<leftarrow> dec_frame first;
             let encoded = encode frame;
             if \<not> enc_ok encoded then Some True
             else do {
               round_trip \<leftarrow> decode (enc_bytes encoded);
               Some (\<not> dec_ok round_trip \<or> dec_frame round_trip = None \<or> dec_frame round_trip \<noteq> Some frame)
             }
           }
           else Some False);
        if failed then Some fuzz_abort
        else do {
          server \<leftarrow> MemoryServer_new ServerPolicy_default;
          (_, _) \<leftarrow> handle server data;
          Some (fuzz_return 0)
        }
      })"

section \<open>Properties\<close>

text \<open>
  C38. The fuzz target's oracle never fires: for every input it returns 0, without undefined behaviour
  and without reaching \<open>std::abort\<close>.
\<close>

theorem fuzz_target_never_aborts: "LLVMFuzzerTestOneInput data = Some (fuzz_return 0)"
proof -
  obtain h s' where "handle (fresh_server ServerPolicy_default) data = Some (h, s')"
    using srv.handler_total [OF server_inv_fresh] by blast
  then show ?thesis
    by (cases data rule: decode_cases)
      (simp_all add: LLVMFuzzerTestOneInput_def dec_ok_def encode_wire enc_ok_def decode_wire MemoryServer_new_eq)
qed

end
