(* ===== verification/Benchmark.thy ===== *)
theory Benchmark
  imports Server Process
begin

text \<open>
  The benchmark of \<open>apps/benchmark_main.cpp\<close>: batches of encoding, handling and decoding with a
  self-check, and a report of the times. Time and floating point come from the platform and are
  arguments of the model: \<open>now k\<close> is the \<open>k\<close>-th reading of the steady clock in ticks, and a record
  holds the operations on \<open>double\<close> the program uses. The order of the values is that of the type, so
  there is no NaN among them; the program computes none.
\<close>

section \<open>Definitions\<close>

text \<open>
  Conversion of an integer (a cast or a literal), multiplication, division, the number of milliseconds
  in a duration of so many ticks, and the text in fixed notation with a number of decimals.
\<close>

record 'd Platform =
  double_of :: "int \<Rightarrow> 'd"
  double_mult :: "'d \<Rightarrow> 'd \<Rightarrow> 'd"
  double_div :: "'d \<Rightarrow> 'd \<Rightarrow> 'd"
  double_milliseconds :: "int \<Rightarrow> 'd"
  double_fixed :: "nat \<Rightarrow> 'd \<Rightarrow> string"

type_synonym steady_clock = "nat \<Rightarrow> int"

definition operations_per_sample :: size_t where
  "operations_per_sample = 50000"

definition samples :: nat where
  "samples = 5"

text \<open>
  The loop of \<open>run_sample\<close> from \<open>index\<close> on, with the server and the checksum it updates; the result
  \<open>False\<close> is the early return of \<open>-1.0\<close>.
\<close>

function (sequential) sample_loop :: "size_t \<Rightarrow> MemoryServer \<Rightarrow> u64 \<Rightarrow> (bool \<times> MemoryServer \<times> u64) option" where
  "sample_loop index server checksum =
     (if index < operations_per_sample then
        let request = Frame_default\<lparr>frame_opcode := Opcode_read_request,
              frame_request_id := ucast (index + 1), frame_address := ucast (index mod 128),
              frame_payload := [0, 16]\<rparr>;
            encoded = encode request
        in if \<not> enc_ok encoded then Some (False, server, checksum)
           else case handle server (enc_bytes encoded) of
             None \<Rightarrow> None
           | Some (handled, server) \<Rightarrow>
               (case decode (handle_response handled) of
                  None \<Rightarrow> None
                | Some result \<Rightarrow>
                    (case dec_frame result of
                       None \<Rightarrow> Some (False, server, checksum)
                     | Some frame \<Rightarrow>
                         if \<not> dec_ok result then Some (False, server, checksum)
                         else sample_loop (index + 1) server
                           (checksum + ucast (frame_request_id frame) + size_of (frame_payload frame))))
      else Some (True, server, checksum))"
  by pat_completeness auto
termination
  by (relation "measure (\<lambda>(index, server, checksum). unat operations_per_sample - unat index)")
    (auto intro: loop_measure)

declare sample_loop.simps [simp del]

text \<open>
  \<open>run_sample\<close> reads the clock before the loop, and after it unless a request failed; \<open>k\<close> counts the
  readings so far.
\<close>

definition run_sample :: "'d Platform \<Rightarrow> steady_clock \<Rightarrow> MemoryServer \<Rightarrow> u64 \<Rightarrow> nat \<Rightarrow>
    ('d \<times> MemoryServer \<times> u64 \<times> nat) option" where
  "run_sample D now server checksum k = do {
     let started = now k;
     (ok, server, checksum) \<leftarrow> sample_loop 0 server checksum;
     if \<not> ok then Some (double_of D (- 1), server, checksum, k + 1)
     else let elapsed = now (k + 1) - started
          in Some (double_milliseconds D elapsed, server, checksum, k + 2)
   }"

text \<open>
  The loop of \<open>main\<close> over the elements of \<open>milliseconds\<close>; no result is the return with exit code 1.
\<close>

fun run_samples :: "'d::linorder Platform \<Rightarrow> steady_clock \<Rightarrow> nat list \<Rightarrow> 'd list \<Rightarrow> MemoryServer \<Rightarrow> u64 \<Rightarrow> nat \<Rightarrow>
    ('d list \<times> u64) option option" where
  "run_samples D now [] milliseconds server checksum k = Some (Some (milliseconds, checksum))"
| "run_samples D now (i # is) milliseconds server checksum k = do {
     (sample, server, checksum, k) \<leftarrow> run_sample D now server checksum k;
     milliseconds \<leftarrow> store milliseconds i sample;
     if sample < double_of D 0 then Some None
     else run_samples D now is milliseconds server checksum k
   }"

fun print_samples :: "'d Platform \<Rightarrow> nat list \<Rightarrow> 'd list \<Rightarrow> string option" where
  "print_samples D [] milliseconds = Some []"
| "print_samples D (index # is) milliseconds = do {
     sample \<leftarrow> at milliseconds index;
     rest \<leftarrow> print_samples D is milliseconds;
     Some ((if index \<noteq> 0 then '', '' else []) @ double_fixed D 3 sample @ rest)
   }"

definition benchmark_main :: "'d::linorder Platform \<Rightarrow> steady_clock \<Rightarrow> ProcessResult option" where
  "benchmark_main D now = do {
     server \<leftarrow> MemoryServer_new ServerPolicy_default;
     result \<leftarrow> run_samples D now [0..<samples] (replicate samples (double_of D 0)) server 0 0;
     case result of
       None \<Rightarrow> Some \<lparr>process_out = [], process_err = ''benchmark protocol validation failed'' @ newline,
                  process_exit = 1\<rparr>
     | Some (milliseconds, checksum) \<Rightarrow> do {
         let sorted = sort milliseconds;
         median_ms \<leftarrow> at sorted (samples div 2);
         let operations_per_second =
           double_div D (double_mult D (double_of D (uint operations_per_sample)) (double_of D 1000)) median_ms;
         list \<leftarrow> print_samples D [0..<length milliseconds] milliseconds;
         Some \<lparr>process_out = ''{'' @ newline @
             ''  '' @ quoted ''operations_per_sample'' @ '': '' @ digits_in 10 (unat operations_per_sample) @ '','' @ newline @
             ''  '' @ quoted ''samples_ms'' @ '': ['' @ list @ ''],'' @ newline @
             ''  '' @ quoted ''median_ms'' @ '': '' @ double_fixed D 3 median_ms @ '','' @ newline @
             ''  '' @ quoted ''median_operations_per_second'' @ '': '' @ double_fixed D 3 operations_per_second @ '','' @ newline @
             ''  '' @ quoted ''checksum'' @ '': '' @ digits_in 10 (unat checksum) @ newline @ ''}'' @ newline,
           process_err = [], process_exit = 0\<rparr>
       }
   }"

section \<open>The benchmark loop\<close>

definition sample_request :: "nat \<Rightarrow> Frame" where
  "sample_request k = \<lparr>frame_version = 1, frame_opcode = Opcode_read_request, frame_flags = 0,
     frame_request_id = word_of_nat (k + 1), frame_address = word_of_nat (k mod 128), frame_status = Status_ok,
     frame_payload = [0, 16]\<rparr>"

lemma valid_sample_request: "valid_frame (sample_request k)"
  by (simp add: sample_request_def valid_frame_def valid_semantics_def)

lemma serve_sample_request:
  assumes "length mem = 4096"
  shows "serve p mem (sample_request k) =
    ((response_frame (sample_request k) Opcode_data_response Status_ok (take 16 (drop (k mod 128) mem)), ''read_ok''), mem)"
proof -
  have a: "unat (frame_address (sample_request k)) = k mod 128"
    using unat_of_nat_u32 [of "k mod 128"] by (simp add: sample_request_def)
  have "k mod 128 + 16 \<le> 0x800" by (simp add: less_imp_le [of _ 128, THEN le_trans])
  then show ?thesis
    unfolding serve_def Let_def a by (simp add: sample_request_def requested_length_def)
qed

lemma ucast_word_of_nat:
  "m < 2 ^ 32 \<Longrightarrow> ucast (word_of_nat m :: size_t) = (word_of_nat m :: u32)"
  "m < 2 ^ 32 \<Longrightarrow> ucast (word_of_nat m :: u32) = (word_of_nat m :: u64)"
  by (simp_all add: unsigned_of_nat take_bit_nat_eq_self)

lemma index_word:
  assumes "k < 50000"
  shows "ucast (word_of_nat k + 1 :: size_t) = (word_of_nat (k + 1) :: u32)"
    and "ucast (word_of_nat k mod 128 :: size_t) = (word_of_nat (k mod 128) :: u32)"
proof -
  have succ: "word_of_nat k + 1 = (word_of_nat (k + 1) :: size_t)" by simp
  have "k + 1 < 2 ^ 32" using assms by simp
  then show "ucast (word_of_nat k + 1 :: size_t) = (word_of_nat (k + 1) :: u32)"
    unfolding succ by (rule ucast_word_of_nat)
  have "unat (word_of_nat k mod 128 :: size_t) = unat (word_of_nat (k mod 128) :: size_t)"
    using assms by (simp add: unat_mod unsigned_of_nat take_bit_nat_eq_self)
  then have "word_of_nat k mod 128 = (word_of_nat (k mod 128) :: size_t)"
    by (simp only: word_eq_iff_unsigned [where ?'a = nat])
  then show "ucast (word_of_nat k mod 128 :: size_t) = (word_of_nat (k mod 128) :: u32)"
    using ucast_word_of_nat(1) [of "k mod 128"] by (simp add: less_trans [of _ 128])
qed

lemma sample_step:
  assumes "server_inv s" and "k < 50000"
  shows "sample_loop (word_of_nat k) s c = sample_loop (word_of_nat (k + 1)) s (c + word_of_nat (k + 17))"
proof -
  let ?q = "sample_request k"
  let ?f = "response_frame ?q Opcode_data_response Status_ok (take 16 (drop (k mod 128) (mm_bytes (server_memory s))))"
  have mem: "length (mm_bytes (server_memory s)) = 4096" using assms(1) by (simp add: server_inv_def memory_inv_def)
  have h: "handle s (wire ?q) = Some (success_event ?q (?f, ''read_ok''), s)"
    using handle_serve [OF assms(1) valid_sample_request] by (simp add: serve_sample_request [OF mem])
  have "valid_frame ?f" by (simp add: response_frame_def valid_frame_def valid_semantics_def)
  then have d: "decode (handle_response (success_event ?q (?f, ''read_ok''))) =
      Some \<lparr>dec_frame = Some ?f, dec_error = CodecError_none, dec_consumed = length (wire ?f)\<rparr>"
    by (simp add: success_event_def decode_wire)
  have "word_of_nat k < operations_per_sample"
    using assms(2) by (simp add: operations_per_sample_def word_less_nat_alt unsigned_of_nat take_bit_nat_eq_self)
  moreover have "Frame_default\<lparr>frame_opcode := Opcode_read_request, frame_request_id := ucast (word_of_nat k + 1 :: size_t),
      frame_address := ucast (word_of_nat k mod 128 :: size_t), frame_payload := [0, 16]\<rparr> = ?q"
    unfolding index_word [OF assms(2)] by (simp add: sample_request_def Frame_default_def protocol_version_def)
  moreover have "ucast (frame_request_id ?f) + size_of (frame_payload ?f) = (word_of_nat (k + 17) :: u64)"
    using mem ucast_word_of_nat(2) [of "k + 1"] assms(2)
    by (simp add: response_frame_def sample_request_def size_of_def min_absorb2 less_imp_le [of _ 128, THEN le_trans])
  moreover have "word_of_nat (k + 1) = (word_of_nat k + 1 :: size_t)" by simp
  ultimately show ?thesis
    using h d by (subst sample_loop.simps)
      (simp add: encode_wire valid_sample_request enc_ok_def dec_ok_def Let_def add.assoc del: of_nat_add of_nat_Suc)
qed

lemma sample_loop_eq:
  assumes "server_inv s" and "k \<le> 50000"
  shows "sample_loop (word_of_nat k) s c = Some (True, s, c + word_of_nat (\<Sum>i = k..<50000. i + 17))"
  using assms(2)
proof (induction arbitrary: c rule: inc_induct)
  case base
  show ?case by (subst sample_loop.simps) (simp add: operations_per_sample_def)
next
  case (step k)
  have "(\<Sum>i = k..<50000. i + 17) = (k + 17) + (\<Sum>i = Suc k..<50000. i + 17)"
    using step.hyps by (simp add: sum.atLeast_Suc_lessThan)
  then show ?case
    using step.IH [of "c + word_of_nat (k + 17)"] sample_step [OF assms(1) step.hyps(2), of c]
    by (simp add: add.assoc)
qed

lemma sample_sum: "(\<Sum>i = 0..<50000. i + 17) = (1250825000 :: nat)"
  by (simp add: sum.distrib Sum_Ico_nat)

text \<open>The time of sample \<open>i\<close>, when every loop runs to its end.\<close>

definition sample_time :: "'d Platform \<Rightarrow> steady_clock \<Rightarrow> nat \<Rightarrow> 'd" where
  "sample_time D now i = double_milliseconds D (now (2 * i + 1) - now (2 * i))"

lemma run_sample_eq:
  "server_inv s \<Longrightarrow> run_sample D now s c (2 * i) = Some (sample_time D now i, s, c + 1250825000, 2 * Suc i)"
  using sample_loop_eq [of s 0] by (simp add: run_sample_def sample_sum sample_time_def)

lemma run_samples_eq:
  assumes "server_inv s" and "i \<le> length ms"
  shows "run_samples D now [i..<length ms] ms s c (2 * i) =
    Some (if \<exists>j \<in> {i..<length ms}. sample_time D now j < double_of D 0 then None
      else Some (take i ms @ map (sample_time D now) [i..<length ms], c + word_of_nat (length ms - i) * 1250825000))"
  using assms(2)
proof (induction "length ms - i" arbitrary: i ms c)
  case 0
  then show ?case by simp
next
  case (Suc m)
  let ?ms = "ms[i := sample_time D now i]"
  have i: "i < length ms" using Suc.hyps(2) by simp
  then have range: "{i..<length ms} = insert i {Suc i..<length ms}" by auto
  have "take (Suc i) ?ms = take i ms @ [sample_time D now i]" using i by (simp add: take_Suc_conv_app_nth)
  moreover have "word_of_nat (length ms - i) = (1 + word_of_nat (length ms - Suc i) :: u64)"
    using i by (metis Suc_diff_Suc of_nat_Suc)
  moreover have "run_samples D now [Suc i..<length ?ms] ?ms s (c + 1250825000) (2 * Suc i) =
      Some (if \<exists>j \<in> {Suc i..<length ?ms}. sample_time D now j < double_of D 0 then None
        else Some (take (Suc i) ?ms @ map (sample_time D now) [Suc i..<length ?ms],
          c + 1250825000 + word_of_nat (length ?ms - Suc i) * 1250825000))"
    using Suc.hyps(2) i by (intro Suc.hyps(1)) simp_all
  ultimately show ?case
    using i run_sample_eq [OF assms(1), of D now c i]
    by (simp add: upt_conv_Cons store_in range algebra_simps)
qed

text \<open>The middle element of five sorted values.\<close>

lemma rank_bounds:
  fixes xs :: "'a::linorder list"
  assumes "i < length xs"
  shows "length (filter (\<lambda>x. x < sort xs ! i) xs) \<le> i" and "length (filter (\<lambda>x. sort xs ! i < x) xs) \<le> length xs - Suc i"
proof -
  let ?m = "sort xs ! i"
  have mset: "length (filter P xs) = length (filter P (sort xs))" for P
    by (simp add: filter_sort)
  have split: "sort xs = take i (sort xs) @ ?m # drop (Suc i) (sort xs)"
    using assms by (simp add: id_take_nth_drop)
  have mono: "sort xs ! j \<le> sort xs ! k" if "j \<le> k" "k < length xs" for j k
    using that sorted_nth_mono [OF sorted_sort [of xs], of j k] by simp
  have "x \<le> ?m" if "x \<in> set (take i (sort xs))" for x
    using that assms by (auto simp: in_set_conv_nth mono)
  then have upper: "filter (\<lambda>x. ?m < x) (take i (sort xs)) = []" by (simp add: filter_empty_conv not_less)
  have "?m \<le> x" if "x \<in> set (drop (Suc i) (sort xs))" for x
    using that assms by (auto simp: in_set_conv_nth mono)
  then have lower: "filter (\<lambda>x. x < ?m) (drop (Suc i) (sort xs)) = []" by (simp add: filter_empty_conv not_less)
  show "length (filter (\<lambda>x. x < ?m) xs) \<le> i"
    unfolding mset using lower assms
    by (subst split) (auto intro: le_trans [OF length_filter_le])
  show "length (filter (\<lambda>x. ?m < x) xs) \<le> length xs - Suc i"
    unfolding mset using upper assms
    by (subst split) (auto intro: le_trans [OF length_filter_le])
qed

section \<open>Properties\<close>

text \<open>
  C40. The benchmark, whatever the platform's clock and floating point: it never gives up on the protocol
  (all 250000 requests are answered), so it fails exactly when a measured time is negative, with exit
  code 1 and nothing on the output. Otherwise it exits with 0 and prints the five measured times in order, the
  throughput at their median, that is, the measured time with at most two below and at most two
  above it, and the checksum 6254125000 of the committed performance report.
\<close>

theorem benchmark_report:
  fixes D :: "'d::linorder Platform" and now :: steady_clock
  shows "\<exists>median ts. ts = map (\<lambda>i. double_milliseconds D (now (2 * i + 1) - now (2 * i))) [0, 1, 2, 3, 4] \<and>
    median \<in> set ts \<and> length (filter (\<lambda>t. t < median) ts) \<le> 2 \<and>
    length (filter (\<lambda>t. median < t) ts) \<le> 2 \<and>
    benchmark_main D now = Some
      (if list_ex (\<lambda>t. t < double_of D 0) ts
       then \<lparr>process_out = [], process_err = ''benchmark protocol validation failed'' @ newline, process_exit = 1\<rparr>
       else \<lparr>process_out = ''{'' @ newline @
           ''  '' @ quoted ''operations_per_sample'' @ '': 50000,'' @ newline @
           ''  '' @ quoted ''samples_ms'' @ '': ['' @ double_fixed D 3 (ts ! 0) @ '', '' @ double_fixed D 3 (ts ! 1) @
             '', '' @ double_fixed D 3 (ts ! 2) @ '', '' @ double_fixed D 3 (ts ! 3) @ '', '' @
             double_fixed D 3 (ts ! 4) @ ''],'' @ newline @
           ''  '' @ quoted ''median_ms'' @ '': '' @ double_fixed D 3 median @ '','' @ newline @
           ''  '' @ quoted ''median_operations_per_second'' @ '': '' @ double_fixed D 3
             (double_div D (double_mult D (double_of D 50000) (double_of D 1000)) median) @ '','' @ newline @
           ''  '' @ quoted ''checksum'' @ '': 6254125000'' @ newline @ ''}'' @ newline,
         process_err = [], process_exit = 0\<rparr>)"
proof -
  define ts where "ts = map (sample_time D now) [0..<5]"
  have ts: "ts = map (\<lambda>i. double_milliseconds D (now (2 * i + 1) - now (2 * i))) [0, 1, 2, 3, 4]"
    by (simp add: ts_def sample_time_def upt_rec)
  have len: "length ts = 5" by (simp add: ts_def)
  have neg: "(\<exists>j \<in> {0..<5}. sample_time D now j < double_of D 0) = list_ex (\<lambda>t. t < double_of D 0) ts"
    by (auto simp: ts_def list_ex_iff)
  have run: "run_samples D now [0..<5] (replicate 5 (double_of D 0)) (fresh_server ServerPolicy_default) 0 0 =
      Some (if list_ex (\<lambda>t. t < double_of D 0) ts then None else Some (ts, 6254125000))"
    using run_samples_eq [of "fresh_server ServerPolicy_default" 0 "replicate 5 (double_of D 0)" D now 0]
    by (simp only: length_replicate neg [symmetric] ts_def [symmetric]) simp
  have digits: "digits_in 10 50000 = ''50000''" "digits_in 10 6254125000 = ''6254125000''"
    by (simp_all add: digits_in.simps hex_digits_def)
  have list: "print_samples D [0..<5] ts = Some (double_fixed D 3 (ts ! 0) @ '', '' @ double_fixed D 3 (ts ! 1) @
      '', '' @ double_fixed D 3 (ts ! 2) @ '', '' @ double_fixed D 3 (ts ! 3) @ '', '' @ double_fixed D 3 (ts ! 4))"
    by (simp add: len at_def upt_rec) (simp add: eval_nat_numeral)
  have median: "sort ts ! 2 \<in> set ts" "length (filter (\<lambda>t. t < sort ts ! 2) ts) \<le> 2"
    "length (filter (\<lambda>t. sort ts ! 2 < t) ts) \<le> 2"
    using nth_mem [of 2 "sort ts"] rank_bounds [of 2 ts] len by simp_all
  show ?thesis
    by (intro exI [of _ "sort ts ! 2"] exI [of _ ts] conjI, rule ts, (rule median)+)
      (simp add: benchmark_main_def MemoryServer_new_eq run list len digits at_def samples_def operations_per_sample_def)
qed

end
