(* ===== verification/Test_Harness.thy ===== *)
theory Test_Harness
  imports Process
begin

text \<open>
  The test harness, \<open>tests/test_harness.hpp\<close>, and its entry point, \<open>tests/test_main.cpp\<close>.

  A computation inside a test has three outcomes: \<^term>\<open>None\<close> is undefined behaviour, \<^term>\<open>Some (Inl e)\<close>
  a thrown exception and \<^term>\<open>Some (Inr x)\<close> a normal return. \<open>following\<close> is the sequencing of statements: what
  follows runs only if nothing was thrown. The macros \<open>IMLP_EXPECT\<close> and \<open>IMLP_EXPECT_EQ\<close> take the rest of
  the function as their last argument. \<open>__FILE__\<close> is an argument of every test, because its spelling depends
  on the build; \<open>__LINE__\<close> is the line on which the macro's name stands.
\<close>

section \<open>Exceptions and sequencing\<close>

datatype Thrown =
    std_exception string
  | other_exception

type_synonym 'a checked = "(Thrown + 'a) option"

definition following :: "'a checked \<Rightarrow> ('a \<Rightarrow> 'b checked) \<Rightarrow> 'b checked" where
  "following computation rest = do {
     outcome \<leftarrow> computation;
     case outcome of Inl thrown \<Rightarrow> Some (Inl thrown) | Inr x \<Rightarrow> rest x
   }"

abbreviation finished :: "unit checked" where
  "finished \<equiv> Some (Inr ())"

text \<open>A loop over a list of indices whose body updates the state of the function.\<close>

fun for_each :: "('i \<Rightarrow> 's \<Rightarrow> 's checked) \<Rightarrow> 'i list \<Rightarrow> 's \<Rightarrow> 's checked" where
  "for_each body [] state = Some (Inr state)"
| "for_each body (i # is) state = following (body i state) (for_each body is)"

section \<open>Expectations\<close>

definition expect :: "bool \<Rightarrow> string \<Rightarrow> string \<Rightarrow> nat \<Rightarrow> unit checked" where
  "expect condition expression file line =
     (if \<not> condition
      then Some (Inl (std_exception (file @ '':'' @ digits_in 10 line @ '' expectation failed: '' @ expression)))
      else Some (Inr ()))"

definition expect_equal :: "'a \<Rightarrow> 'a \<Rightarrow> string \<Rightarrow> string \<Rightarrow> nat \<Rightarrow> unit checked" where
  "expect_equal left right expression file line = expect (left = right) expression file line"

definition IMLP_EXPECT :: "string \<Rightarrow> nat \<Rightarrow> string \<Rightarrow> bool \<Rightarrow> 'a checked \<Rightarrow> 'a checked" where
  "IMLP_EXPECT file line expression condition rest =
     following (expect condition expression file line) (\<lambda>_. rest)"

definition IMLP_EXPECT_EQ :: "string \<Rightarrow> nat \<Rightarrow> string \<Rightarrow> string \<Rightarrow> 'a \<Rightarrow> 'a \<Rightarrow> 'b checked \<Rightarrow> 'b checked" where
  "IMLP_EXPECT_EQ file line left_text right_text left right rest =
     following (expect_equal left right (left_text @ '' == '' @ right_text) file line) (\<lambda>_. rest)"

section \<open>Registry and runner\<close>

record TestCase =
  test_name :: string
  test_function :: "unit checked"

text \<open>The constructor of \<open>Registrar\<close>: one test is added at the end of the registry.\<close>

definition Registrar :: "TestCase list \<Rightarrow> string \<Rightarrow> unit checked \<Rightarrow> TestCase list" where
  "Registrar registry name function = registry @ [\<lparr>test_name = name, test_function = function\<rparr>]"

text \<open>\<open>IMLP_TEST (name)\<close> defines a static \<open>Registrar\<close>, which runs when the translation unit is initialised.\<close>

definition IMLP_TEST :: "string \<times> unit checked \<Rightarrow> TestCase list \<Rightarrow> TestCase list" where
  "IMLP_TEST test registry = (case test of (name, function) \<Rightarrow> Registrar registry name function)"

text \<open>The loop of \<open>main\<close>, with the counters and what was written to the two streams so far.\<close>

fun run_tests :: "TestCase list \<Rightarrow> size_t \<Rightarrow> size_t \<Rightarrow> string \<Rightarrow> string \<Rightarrow> (size_t \<times> size_t \<times> string \<times> string) option" where
  "run_tests [] passed failed out err = Some (passed, failed, out, err)"
| "run_tests (test # tests) passed failed out err = do {
     outcome \<leftarrow> test_function test;
     case outcome of
       Inr _ \<Rightarrow> run_tests tests (passed + 1) failed (out @ ''PASS '' @ test_name test @ newline) err
     | Inl (std_exception what) \<Rightarrow>
         run_tests tests passed (failed + 1) out (err @ ''FAIL '' @ test_name test @ '': '' @ what @ newline)
     | Inl other_exception \<Rightarrow>
         run_tests tests passed (failed + 1) out (err @ ''FAIL '' @ test_name test @ '': unknown exception'' @ newline)
   }"

definition test_main :: "TestCase list \<Rightarrow> ProcessResult option" where
  "test_main registry = do {
     (passed, failed, out, err) \<leftarrow> run_tests registry 0 0 [] [];
     Some \<lparr>process_out = out @ ''SUMMARY passed='' @ digits_in 10 (unat passed) @ '' failed='' @
             digits_in 10 (unat failed) @ newline,
           process_err = err, process_exit = (if failed = 0 then 0 else 1)\<rparr>
   }"

section \<open>Rules\<close>

lemma following_simps [simp]:
  "following (Some (Inr x)) rest = rest x" "following (Some (Inl e)) rest = Some (Inl e)" "following None rest = None"
  by (simp_all add: following_def)

lemma IMLP_EXPECT_holds [simp]: "condition \<Longrightarrow> IMLP_EXPECT file line expression condition rest = rest"
  by (simp add: IMLP_EXPECT_def expect_def)

lemma IMLP_EXPECT_EQ_holds [simp]:
  "left = right \<Longrightarrow> IMLP_EXPECT_EQ file line left_text right_text left right rest = rest"
  by (simp add: IMLP_EXPECT_EQ_def expect_equal_def expect_def)

text \<open>A loop completes when its body does, from every state it may meet.\<close>

lemma for_each_completes:
  assumes "\<And>i state. i \<in> set is \<Longrightarrow> \<exists>state'. body i state = Some (Inr state')"
  shows "\<exists>state'. for_each body is state = Some (Inr state')"
  using assms
proof (induction "is" arbitrary: state)
  case (Cons i "is")
  obtain state' where "body i state = Some (Inr state')" using Cons.prems by fastforce
  with Cons show ?case by simp
qed simp

text \<open>
  The runner reports each test once, in the order of the registry: the lines for tests that return go to
  standard output, those for tests that throw to standard error.
\<close>

definition passes :: "TestCase \<Rightarrow> bool" where
  "passes test \<longleftrightarrow> test_function test = Some (Inr ())"

definition pass_line :: "TestCase \<Rightarrow> string" where
  "pass_line test = ''PASS '' @ test_name test @ newline"

definition fail_line :: "TestCase \<Rightarrow> string" where
  "fail_line test = ''FAIL '' @ test_name test @ '': '' @
     (case test_function test of Some (Inl (std_exception what)) \<Rightarrow> what | _ \<Rightarrow> ''unknown exception'') @ newline"

lemma run_tests_eq:
  assumes "list_all (\<lambda>test. test_function test \<noteq> None) tests"
  shows "run_tests tests passed failed out err = Some
    (passed + word_of_nat (length (filter passes tests)),
     failed + word_of_nat (length (filter (\<lambda>test. \<not> passes test) tests)),
     out @ concat (map pass_line (filter passes tests)),
     err @ concat (map fail_line (filter (\<lambda>test. \<not> passes test) tests)))"
  using assms
proof (induction tests arbitrary: passed failed out err)
  case (Cons test tests)
  then obtain outcome where "test_function test = Some outcome" by auto
  then show ?case
    using Cons
    by (cases outcome rule: sum.exhaust)
      (auto simp: passes_def pass_line_def fail_line_def algebra_simps split: Thrown.splits)
qed simp

text \<open>
  The exit code is 0 exactly when every test returned. The number of tests is a premise because the
  counter of failures would wrap.
\<close>

lemma test_main_exit:
  assumes "list_all (\<lambda>test. test_function test \<noteq> None) registry" and "length registry < 2 ^ 64"
  shows "\<exists>p. test_main registry = Some p \<and> (process_exit p = 0 \<longleftrightarrow> list_all passes registry) \<and>
    process_err p = concat (map fail_line (filter (\<lambda>test. \<not> passes test) registry))"
proof -
  define n where "n = length (filter (\<lambda>test. \<not> passes test) registry)"
  have "n < 2 ^ 64" unfolding n_def using assms(2) by (rule le_less_trans [OF length_filter_le])
  then have "unat (word_of_nat n :: size_t) = n" by (simp only: unsigned_of_nat) (simp add: take_bit_nat_eq_self)
  then have "(word_of_nat n :: size_t) = 0 \<longleftrightarrow> n = 0"
    using unat_eq_zero [of "word_of_nat n :: size_t"] by simp
  also have "n = 0 \<longleftrightarrow> list_all passes registry" by (simp add: n_def filter_empty_conv list_all_iff)
  finally show ?thesis
    using run_tests_eq [OF assms(1), of 0 0 "[]" "[]"] by (simp add: test_main_def n_def)
qed

text \<open>The registrations of a translation unit add its tests at the end.\<close>

lemma registrations:
  "fold IMLP_TEST tests registry = registry @ map (\<lambda>(name, function). \<lparr>test_name = name, test_function = function\<rparr>) tests"
  by (induction tests arbitrary: registry) (auto simp: IMLP_TEST_def Registrar_def)

lemma test_main_all_pass:
  assumes "list_all passes registry"
  shows "test_main registry = Some \<lparr>process_out = concat (map pass_line registry) @ ''SUMMARY passed='' @
    digits_in 10 (unat (word_of_nat (length registry) :: size_t)) @ '' failed='' @ digits_in 10 0 @ newline,
    process_err = [], process_exit = 0\<rparr>"
proof -
  have "list_all (\<lambda>test. test_function test \<noteq> None) registry" "filter passes registry = registry"
    "filter (\<lambda>test. \<not> passes test) registry = []"
    using assms by (auto simp: list_all_iff passes_def filter_empty_conv filter_id_conv)
  then show ?thesis using run_tests_eq [of registry 0 0 "[]" "[]"] by (simp add: test_main_def)
qed

end
