(* ===== verification/Test_Codec.thy ===== *)
theory Test_Codec
  imports Test_Harness Transport
begin

text \<open>
  The tests of the codec, \<open>tests/test_codec.cpp\<close>, and the property tests, \<open>tests/test_properties.cpp\<close>, each
  with the lemma that it passes. The generated frames and byte strings come from the source's xorshift
  generator; that the property tests pass is shown for every state of the generator, not for the three
  seeds of the source only.
\<close>

section \<open>Tests of the codec\<close>

definition ascii_bytes :: "string \<Rightarrow> byte list" where
  "ascii_bytes str = map of_char str"

text \<open>\<open>pop_back ()\<close>, and \<open>back () ^= value\<close>.\<close>

definition pop_back :: "'a list \<Rightarrow> 'a list option" where
  "pop_back xs = (if xs = [] then None else Some (butlast xs))"

definition xor_back :: "byte list \<Rightarrow> byte \<Rightarrow> byte list option" where
  "xor_back xs v = (if xs = [] then None else Some (xs[length xs - 1 := last xs XOR v]))"

definition crc32_matches_published_check_value :: "string \<Rightarrow> unit checked" where
  "crc32_matches_published_check_value file =
     (let bytes = ascii_bytes ''123456789'' in
      IMLP_EXPECT_EQ file 31 ''imlp::crc32(bytes)'' ''0xCBF43926U'' (crc32 bytes) 0xCBF43926 finished)"

definition read_request_round_trips_with_big_endian_fields :: "string \<Rightarrow> unit checked" where
  "read_request_round_trips_with_big_endian_fields file =
     (let frame = Frame_default\<lparr>frame_opcode := Opcode_read_request, frame_request_id := 0x10203040,
            frame_address := 0x50607080, frame_payload := [0x00, 0x20]\<rparr>;
          encoded = encode frame in
      IMLP_EXPECT file 42 ''encoded'' (enc_ok encoded) (do {
      b6 \<leftarrow> at (enc_bytes encoded) 6;
      IMLP_EXPECT_EQ file 43 ''encoded.bytes[6]'' ''std::byte{0x10}'' b6 0x10 (do {
      b9 \<leftarrow> at (enc_bytes encoded) 9;
      IMLP_EXPECT_EQ file 44 ''encoded.bytes[9]'' ''std::byte{0x40}'' b9 0x40 (do {
      b10 \<leftarrow> at (enc_bytes encoded) 10;
      IMLP_EXPECT_EQ file 45 ''encoded.bytes[10]'' ''std::byte{0x50}'' b10 0x50 (do {
      b13 \<leftarrow> at (enc_bytes encoded) 13;
      IMLP_EXPECT_EQ file 46 ''encoded.bytes[13]'' ''std::byte{0x80}'' b13 0x80 (do {
      decoded \<leftarrow> decode (enc_bytes encoded);
      IMLP_EXPECT file 48 ''decoded'' (dec_ok decoded) (do {
      decoded_frame \<leftarrow> dec_frame decoded;
      IMLP_EXPECT_EQ file 49 ''*decoded.frame'' ''frame'' decoded_frame frame finished })})})})})}))"

definition codec_rejects_truncation_trailing_bytes_and_corruption :: "string \<Rightarrow> unit checked" where
  "codec_rejects_truncation_trailing_bytes_and_corruption file =
     (let frame = Frame_default\<lparr>frame_opcode := Opcode_write_request, frame_request_id := 7,
            frame_address := 0x0100, frame_payload := [0xAA, 0x55]\<rparr>;
          encoded = encode frame in
      IMLP_EXPECT file 60 ''encoded'' (enc_ok encoded) (do {
      truncated \<leftarrow> pop_back (enc_bytes encoded);
      r1 \<leftarrow> decode truncated;
      IMLP_EXPECT_EQ file 64 ''imlp::decode(truncated).error'' ''imlp::CodecError::truncated''
        (dec_error r1) CodecError_truncated (do {
      let trailing = enc_bytes encoded @ [0];
      r2 \<leftarrow> decode trailing;
      IMLP_EXPECT_EQ file 68 ''imlp::decode(trailing).error'' ''imlp::CodecError::length_mismatch''
        (dec_error r2) CodecError_length_mismatch (do {
      corrupted \<leftarrow> xor_back (enc_bytes encoded) 0x01;
      r3 \<leftarrow> decode corrupted;
      IMLP_EXPECT_EQ file 72 ''imlp::decode(corrupted).error'' ''imlp::CodecError::checksum_mismatch''
        (dec_error r3) CodecError_checksum_mismatch finished })})}))"

definition codec_rejects_untrusted_header_fields_before_indexing_payload :: "string \<Rightarrow> unit checked" where
  "codec_rejects_untrusted_header_fields_before_indexing_payload file =
     (let frame = Frame_default\<lparr>frame_opcode := Opcode_read_request, frame_request_id := 1, frame_payload := [0, 1]\<rparr>;
          encoded = encode frame in
      IMLP_EXPECT file 82 ''encoded'' (enc_ok encoded) (do {
      bad_magic \<leftarrow> store (enc_bytes encoded) 0 0;
      r1 \<leftarrow> decode bad_magic;
      IMLP_EXPECT_EQ file 86 ''imlp::decode(bad_magic).error'' ''imlp::CodecError::bad_magic''
        (dec_error r1) CodecError_bad_magic (do {
      bad_reserved \<leftarrow> store (enc_bytes encoded) 5 1;
      r2 \<leftarrow> decode bad_reserved;
      IMLP_EXPECT_EQ file 90 ''imlp::decode(bad_reserved).error'' ''imlp::CodecError::nonzero_reserved''
        (dec_error r2) CodecError_nonzero_reserved (do {
      oversized \<leftarrow> store (enc_bytes encoded) 14 0x01;
      oversized \<leftarrow> store oversized 15 0x01;
      r3 \<leftarrow> decode oversized;
      IMLP_EXPECT_EQ file 95 ''imlp::decode(oversized).error'' ''imlp::CodecError::payload_too_large''
        (dec_error r3) CodecError_payload_too_large finished })})}))"

definition encoder_rejects_semantically_invalid_frames :: "string \<Rightarrow> unit checked" where
  "encoder_rejects_semantically_invalid_frames file =
     (let read = Frame_default\<lparr>frame_opcode := Opcode_read_request, frame_payload := [1]\<rparr> in
      IMLP_EXPECT_EQ file 103 ''imlp::encode(read).error'' ''imlp::CodecError::invalid_semantics''
        (enc_error (encode read)) CodecError_invalid_semantics
      (let response = Frame_default\<lparr>frame_opcode := Opcode_data_response, frame_flags := 0, frame_payload := [1]\<rparr> in
       IMLP_EXPECT_EQ file 110 ''imlp::encode(response).error'' ''imlp::CodecError::invalid_semantics''
         (enc_error (encode response)) CodecError_invalid_semantics
       (let oversized = Frame_default\<lparr>frame_opcode := Opcode_write_request,
              frame_payload := replicate (maximum_payload_size + 1) 0\<rparr> in
        IMLP_EXPECT_EQ file 116 ''imlp::encode(oversized).error'' ''imlp::CodecError::payload_too_large''
          (enc_error (encode oversized)) CodecError_payload_too_large finished)))"

definition hex_conversion_is_exact_and_bounded :: "string \<Rightarrow> unit checked" where
  "hex_conversion_is_exact_and_bounded file = do {
     let expected = [0x00, 0xA5, 0xFF];
     hex \<leftarrow> bytes_to_hex expected;
     IMLP_EXPECT_EQ file 121 ''imlp::bytes_to_hex(expected)'' (''std::string('' @ quoted ''00a5ff'' @ '')'')
       hex ''00a5ff'' (do {
     parsed \<leftarrow> bytes_from_hex ''00A5ff'';
     bytes \<leftarrow> parsed;
     IMLP_EXPECT_EQ file 122 (''*imlp::bytes_from_hex('' @ quoted ''00A5ff'' @ '')'') ''expected'' bytes expected (do {
     parsed \<leftarrow> bytes_from_hex ''0'';
     IMLP_EXPECT file 123 (''!imlp::bytes_from_hex('' @ quoted ''0'' @ '').has_value()'') (parsed = None) (do {
     parsed \<leftarrow> bytes_from_hex ''zz'';
     IMLP_EXPECT file 124 (''!imlp::bytes_from_hex('' @ quoted ''zz'' @ '').has_value()'') (parsed = None) (do {
     parsed \<leftarrow> bytes_from_hex (replicate (maximum_frame_size * 2 + 2) CHR 0x30);
     IMLP_EXPECT file 125
       ''!imlp::bytes_from_hex(std::string(imlp::maximum_frame_size * 2U + 2U, '0')).has_value()''
       (parsed = None) finished })})})}) }"

section \<open>Property tests\<close>

definition next_random :: "u64 \<Rightarrow> u64" where
  "next_random state =
     (let state = state XOR push_bit 13 state;
          state = state XOR drop_bit 7 state
      in state XOR push_bit 17 state)"

text \<open>\<open>for (std::byte& byte : bytes) byte = next_random (state) & 0xFF\<close>, for \<open>n\<close> bytes, with the final state.\<close>

fun random_bytes :: "nat \<Rightarrow> u64 \<Rightarrow> byte list \<times> u64" where
  "random_bytes 0 state = ([], state)"
| "random_bytes (Suc n) state =
     (let state = next_random state; (bytes, final) = random_bytes n state
      in (ucast (state AND 0xFF) # bytes, final))"

definition generated_frame :: "u64 \<Rightarrow> nat \<Rightarrow> Frame \<times> u64" where
  "generated_frame state index =
     (let state = next_random state; request_id = ucast state;
          state = next_random state; address = ucast state;
          frame = Frame_default\<lparr>frame_request_id := request_id, frame_address := address\<rparr>;
          kind = index mod 5
      in if kind = 0 then
           let frame = frame\<lparr>frame_opcode := Opcode_read_request\<rparr>;
               state = next_random state; len = (ucast (state mod 256 + 1) :: u16)
           in (frame\<lparr>frame_payload := [ucast (drop_bit 8 len AND 0xFF), ucast (len AND 0xFF)]\<rparr>, state)
         else
           let (frame, state, n) =
             (if kind = 1 then
                let state = next_random state
                in (frame\<lparr>frame_opcode := Opcode_write_request\<rparr>, state, unat (state mod 256 + 1))
              else if kind = 2 then
                let state = next_random state
                in (frame\<lparr>frame_opcode := Opcode_data_response, frame_flags := response_flag\<rparr>, state, unat (state mod 257))
              else if kind = 3 then
                (frame\<lparr>frame_opcode := Opcode_write_acknowledgement, frame_flags := response_flag\<rparr>, state, 0)
              else
                let state = next_random state; status = Status (ucast (state mod 5 + 1)); state = next_random state
                in (frame\<lparr>frame_opcode := Opcode_error_response, frame_flags := response_flag, frame_status := status\<rparr>,
                    state, unat (state mod 64)));
             (payload, state) = random_bytes n state
           in (frame\<lparr>frame_payload := payload\<rparr>, state))"

definition round_trip_body :: "string \<Rightarrow> nat \<Rightarrow> u64 \<Rightarrow> u64 checked" where
  "round_trip_body file index state =
     (let (frame, state) = generated_frame state index; encoded = encode frame in
      IMLP_EXPECT file 70 ''encoded'' (enc_ok encoded) (do {
      decoded \<leftarrow> decode (enc_bytes encoded);
      IMLP_EXPECT file 72 ''decoded'' (dec_ok decoded) (do {
      decoded_frame \<leftarrow> dec_frame decoded;
      IMLP_EXPECT_EQ file 73 ''*decoded.frame'' ''frame'' decoded_frame frame (Some (Inr state)) })}))"

definition generated_valid_frames_round_trip_exactly :: "string \<Rightarrow> unit checked" where
  "generated_valid_frames_round_trip_exactly file =
     following (for_each (round_trip_body file) [0..<10000] 0xC0FFEE1234567890) (\<lambda>_. finished)"

definition mutation_body :: "string \<Rightarrow> nat \<Rightarrow> u64 \<Rightarrow> u64 checked" where
  "mutation_body file index state =
     (let (frame, state) = generated_frame state index; encoded = encode frame in
      IMLP_EXPECT file 82 ''encoded'' (enc_ok encoded) (do {
      bytes \<leftarrow> xor_back (enc_bytes encoded) 0x01;
      decoded \<leftarrow> decode bytes;
      IMLP_EXPECT_EQ file 84 ''imlp::decode(encoded.bytes).error'' ''imlp::CodecError::checksum_mismatch''
        (dec_error decoded) CodecError_checksum_mismatch (Some (Inr state)) }))"

definition checksum_mutation_is_always_detected :: "string \<Rightarrow> unit checked" where
  "checksum_mutation_is_always_detected file =
     following (for_each (mutation_body file) [0..<2000] 0x1234ABCD9876EF01) (\<lambda>_. finished)"

definition arbitrary_body :: "string \<Rightarrow> nat \<Rightarrow> u64 \<Rightarrow> u64 checked" where
  "arbitrary_body file iteration state =
     (let state = next_random state; len = unat (state mod word_of_nat (maximum_frame_size * 2));
          (bytes, state) = random_bytes len state
      in do {
        decoded \<leftarrow> decode bytes;
        if dec_ok decoded \<and> dec_frame decoded \<noteq> None then do {
          frame \<leftarrow> dec_frame decoded;
          let encoded = encode frame;
          IMLP_EXPECT file 98 ''encoded'' (enc_ok encoded)
          (IMLP_EXPECT_EQ file 99 ''encoded.bytes'' ''bytes'' (enc_bytes encoded) bytes (Some (Inr state)))
        } else Some (Inr state)
      })"

definition arbitrary_bounded_input_never_produces_an_unstable_frame :: "string \<Rightarrow> unit checked" where
  "arbitrary_bounded_input_never_produces_an_unstable_frame file =
     following (for_each (arbitrary_body file) [0..<10000] 0x0BADF00D5EEDFACE) (\<lambda>_. finished)"

section \<open>The tests of the codec pass\<close>

lemma crc32_matches_published_check_value_passes: "crc32_matches_published_check_value file = finished"
  using crc32_check_value by (simp add: crc32_matches_published_check_value_def ascii_bytes_def of_char_def)

lemma read_request_round_trips_with_big_endian_fields_passes:
  "read_request_round_trips_with_big_endian_fields file = finished"
proof -
  define frame where "frame = Frame_default\<lparr>frame_opcode := Opcode_read_request, frame_request_id := 0x10203040,
            frame_address := 0x50607080, frame_payload := [0x00, 0x20]\<rparr>"
  have valid: "valid_frame frame"
    by (simp add: frame_def valid_frame_def valid_semantics_def Frame_default_def protocol_version_def)
  have "at (wire frame) 6 = Some 0x10" "at (wire frame) 9 = Some 0x40"
      "at (wire frame) 10 = Some 0x50" "at (wire frame) 13 = Some 0x80"
    by (simp_all add: at_def wire_def wire_body_def wire_header_def frame_def Frame_default_def be32_def)
  then show ?thesis
    unfolding read_request_round_trips_with_big_endian_fields_def frame_def [symmetric] Let_def
    by (simp add: encode_wire valid enc_ok_def decode_wire dec_ok_def)
qed

lemma decode_xor_back:
  assumes "valid_frame f"
  obtains bytes where "xor_back (wire f) 1 = Some bytes"
    "decode bytes = Some (dec_fail CodecError_checksum_mismatch (length (wire f)))"
  using that decode_altered(2) [OF assms] by (simp add: xor_back_def)

lemma codec_rejects_truncation_trailing_bytes_and_corruption_passes:
  "codec_rejects_truncation_trailing_bytes_and_corruption file = finished"
proof -
  define frame where "frame = Frame_default\<lparr>frame_opcode := Opcode_write_request, frame_request_id := 7,
            frame_address := 0x0100, frame_payload := [0xAA, 0x55]\<rparr>"
  have valid: "valid_frame frame"
    by (simp add: frame_def valid_frame_def valid_semantics_def Frame_default_def protocol_version_def)
  obtain bytes where bytes: "xor_back (wire frame) 1 = Some bytes"
    "decode bytes = Some (dec_fail CodecError_checksum_mismatch (length (wire frame)))"
    by (rule decode_xor_back [OF valid])
  have "decode (butlast (wire frame)) = Some (dec_fail CodecError_truncated 0)"
    using decode_truncated [OF valid, of "length (wire frame) - 1"] by (simp add: butlast_conv_take)
  then show ?thesis
    unfolding codec_rejects_truncation_trailing_bytes_and_corruption_def frame_def [symmetric] Let_def
    by (simp add: encode_wire valid enc_ok_def pop_back_def decode_trailing dec_fail_def bytes)
qed

lemma codec_rejects_untrusted_header_fields_before_indexing_payload_passes:
  "codec_rejects_untrusted_header_fields_before_indexing_payload file = finished"
proof -
  define frame where "frame = Frame_default\<lparr>frame_opcode := Opcode_read_request, frame_request_id := 1,
    frame_payload := [0, 1]\<rparr>"
  have valid: "valid_frame frame"
    by (simp add: frame_def valid_frame_def valid_semantics_def Frame_default_def protocol_version_def)
  obtain a b c d where wire: "wire frame = [0x49, 0x4D, 1, 1, 0, 0, 0, 0, 0, 1, 0, 0, 0, 0, 0, 2, 0, 0, 0, 1, a, b, c, d]"
    by (simp add: wire_def wire_body_def wire_header_def frame_def Frame_default_def be32_def be16_def
        Opcode_read_request_def protocol_version_def Status_ok_def)
  show ?thesis
    unfolding codec_rejects_untrusted_header_fields_before_indexing_payload_def frame_def [symmetric] Let_def
    by (simp add: encode_wire valid enc_ok_def wire store_def decode_eq_spec decode_spec_def decode_checks_def
        field_u16_def u16_of_def is_supported_opcode_def opcode_defs)
qed

lemma encoder_rejects_semantically_invalid_frames_passes: "encoder_rejects_semantically_invalid_frames file = finished"
  by (simp add: encoder_rejects_semantically_invalid_frames_def encode_def Frame_default_def protocol_consts Let_def
      has_valid_semantics_def is_supported_opcode_def enc_fail_def)

lemma hex_conversion_is_exact_and_bounded_passes: "hex_conversion_is_exact_and_bounded file = finished"
proof -
  have "hex_text [0x00, 0xA5, 0xFF] = ''00a5ff''" by (simp add: hex_text_def hex_digits_def)
  moreover have "parse_hex ''00A5ff'' = Some [0x00, 0xA5, 0xFF]" "parse_hex ''zz'' = None" by code_simp+
  ultimately show ?thesis
    by (simp add: hex_conversion_is_exact_and_bounded_def bytes_to_hex_eq bytes_from_hex_eq protocol_consts Let_def)
qed

section \<open>The property tests pass\<close>

lemma length_random_bytes [simp]: "length (fst (random_bytes n state)) = n"
  by (induction n arbitrary: state) (simp_all add: Let_def split_beta)

lemma random_bytes_Nil [simp]: "fst (random_bytes n state) = [] \<longleftrightarrow> n = 0"
  by (metis length_random_bytes length_0_conv)

lemma valid_generated_frame: "valid_frame (fst (generated_frame state index))"
proof -
  have bounds: "unat (w mod 256 + 1) \<le> 256" "0 < unat (w mod 256 + 1)" "unat (w mod 257) \<le> 256" "unat (w mod 64) \<le> 256"
      "(ucast (w mod 5 + 1) :: u16) \<noteq> 0" for w :: u64
  proof -
    have "unat (w mod 256) < 256" "unat (w mod 257) < 257" "unat (w mod 64) < 64" and five: "unat (w mod 5) < 5"
      by (simp_all add: unat_mod_distrib)
    then show "unat (w mod 256 + 1) \<le> 256" "0 < unat (w mod 256 + 1)" "unat (w mod 257) \<le> 256" "unat (w mod 64) \<le> 256"
      by (simp_all add: unat_word_ariths(1))
    show "(ucast (w mod 5 + 1) :: u16) \<noteq> 0"
    proof -
      have "unat (ucast (w mod 5 + 1) :: u16) = unat (w mod 5) + 1"
        using five by (simp add: unat_word_ariths(1) unsigned_ucast_eq take_bit_eq_mod)
      then show ?thesis by (metis unsigned_0 add_is_0 one_neq_zero)
    qed
  qed
  show ?thesis
    by (auto simp: generated_frame_def Let_def split_beta valid_frame_def valid_semantics_def Frame_default_def
        protocol_consts Status_ok_def bounds)
qed

lemma round_trip_body_passes: "round_trip_body file index state = Some (Inr (snd (generated_frame state index)))"
  using valid_generated_frame [of state index]
  by (simp add: round_trip_body_def split_beta Let_def encode_wire enc_ok_def decode_wire dec_ok_def)

lemma mutation_body_passes: "mutation_body file index state = Some (Inr (snd (generated_frame state index)))"
  using valid_generated_frame [of state index]
  by (auto simp: mutation_body_def split_beta Let_def encode_wire enc_ok_def dec_fail_def
      elim: decode_xor_back [of "fst (generated_frame state index)"])

lemma arbitrary_body_passes: "\<exists>state'. arbitrary_body file iteration state = Some (Inr state')"
proof -
  let ?s = "next_random state"
  obtain bytes s' where bytes: "random_bytes (unat (?s mod 556)) ?s = (bytes, s')"
    by fastforce
  show ?thesis
    by (cases bytes rule: decode_cases)
      (simp_all add: arbitrary_body_def bytes Let_def encode_wire enc_ok_def dec_ok_def)
qed

lemma property_tests_pass:
  "generated_valid_frames_round_trip_exactly file = finished"
  "checksum_mutation_is_always_detected file = finished"
  "arbitrary_bounded_input_never_produces_an_unstable_frame file = finished"
proof -
  obtain s1 where "for_each (round_trip_body file) [0..<10000] 0xC0FFEE1234567890 = Some (Inr s1)"
    using for_each_completes [of _ "round_trip_body file"] round_trip_body_passes by blast
  then show "generated_valid_frames_round_trip_exactly file = finished"
    by (simp add: generated_valid_frames_round_trip_exactly_def)
  obtain s2 where "for_each (mutation_body file) [0..<2000] 0x1234ABCD9876EF01 = Some (Inr s2)"
    using for_each_completes [of _ "mutation_body file"] mutation_body_passes by blast
  then show "checksum_mutation_is_always_detected file = finished"
    by (simp add: checksum_mutation_is_always_detected_def)
  obtain s3 where "for_each (arbitrary_body file) [0..<10000] 0x0BADF00D5EEDFACE = Some (Inr s3)"
    using for_each_completes [of _ "arbitrary_body file"] arbitrary_body_passes by blast
  then show "arbitrary_bounded_input_never_produces_an_unstable_frame file = finished"
    by (simp add: arbitrary_bounded_input_never_produces_an_unstable_frame_def)
qed

end
