(* ===== verification/Test_System.thy ===== *)
theory Test_System
  imports Test_Harness Fault_Scripts
begin

text \<open>
  The tests of memory map and server, \<open>tests/test_memory.cpp\<close>, and of the client over the loopback,
  \<open>tests/test_client.cpp\<close>, each with the lemma that it passes.
\<close>

section \<open>Tests of memory map and server\<close>

definition encoded_bytes :: "string \<Rightarrow> Frame \<Rightarrow> byte list checked" where
  "encoded_bytes file frame =
     (let encoded = encode frame in
      IMLP_EXPECT file 22 ''encoded'' (enc_ok encoded) (Some (Inr (enc_bytes encoded))))"

definition test_response_frame :: "string \<Rightarrow> HandleResult \<Rightarrow> Frame checked" where
  "test_response_frame file result = do {
     decoded \<leftarrow> decode (handle_response result);
     IMLP_EXPECT file 29 ''decoded'' (dec_ok decoded) (do {
     frame \<leftarrow> dec_frame decoded;
     Some (Inr frame) }) }"

definition memory_map_enforces_regions_and_range_boundaries :: "string \<Rightarrow> unit checked" where
  "memory_map_enforces_regions_and_range_boundaries file = do {
     memory \<leftarrow> MemoryMap_new;
     IMLP_EXPECT_EQ file 35 ''imlp::MemoryMap::access_for(0x0000U)'' ''imlp::Access::read_only''
       (access_for 0x0000) Access_read_only (
     IMLP_EXPECT_EQ file 36 ''imlp::MemoryMap::access_for(0x0100U)'' ''imlp::Access::read_write''
       (access_for 0x0100) Access_read_write (
     IMLP_EXPECT_EQ file 37 ''imlp::MemoryMap::access_for(0x0800U)'' ''imlp::Access::denied''
       (access_for 0x0800) Access_denied (do {
     r1 \<leftarrow> memory_read memory 0 8;
     IMLP_EXPECT file 38 ''memory.read(0U, 8U)'' (mem_ok r1) (do {
     r2 \<leftarrow> memory_read memory 0x0800 1;
     IMLP_EXPECT_EQ file 39 ''memory.read(0x0800U, 1U).status'' ''imlp::Status::access_denied''
       (mem_status r2) Status_access_denied (do {
     r3 \<leftarrow> memory_read memory 0xFFFFFFFF 2;
     IMLP_EXPECT_EQ file 40 ''memory.read(0xFFFFFFFFU, 2U).status'' ''imlp::Status::out_of_range''
       (mem_status r3) Status_out_of_range (do {
     r4 \<leftarrow> memory_read memory 0 0;
     IMLP_EXPECT_EQ file 41 ''memory.read(0U, 0U).status'' ''imlp::Status::out_of_range''
       (mem_status r4) Status_out_of_range finished })})})}))) }"

definition memory_map_rejects_read_only_and_cross_region_writes :: "string \<Rightarrow> unit checked" where
  "memory_map_rejects_read_only_and_cross_region_writes file = do {
     memory \<leftarrow> MemoryMap_new;
     let bytes = [0x11, 0x22];
     (s1, memory) \<leftarrow> memory_write memory 0x0000 bytes;
     IMLP_EXPECT_EQ file 47 ''memory.write(0x0000U, bytes)'' ''imlp::Status::access_denied''
       s1 Status_access_denied (do {
     (s2, memory) \<leftarrow> memory_write memory 0x0100 bytes;
     IMLP_EXPECT_EQ file 48 ''memory.write(0x0100U, bytes)'' ''imlp::Status::ok'' s2 Status_ok (do {
     r \<leftarrow> memory_read memory 0x0100 (size_of bytes);
     IMLP_EXPECT_EQ file 49 ''memory.read(0x0100U, bytes.size()).data'' ''bytes'' (mem_data r) bytes (do {
     (s3, memory) \<leftarrow> memory_write memory 0x07FF bytes;
     IMLP_EXPECT_EQ file 50 ''memory.write(0x07FFU, bytes)'' ''imlp::Status::access_denied''
       s3 Status_access_denied finished })})}) }"

definition server_defaults_to_read_only_and_returns_correlated_error :: "string \<Rightarrow> unit checked" where
  "server_defaults_to_read_only_and_returns_correlated_error file = do {
     server \<leftarrow> MemoryServer_new ServerPolicy_default;
     let request = Frame_default\<lparr>frame_opcode := Opcode_write_request, frame_request_id := 42,
       frame_address := 0x0100, frame_payload := [0xAB]\<rparr>;
     following (encoded_bytes file request) (\<lambda>request_bytes. do {
     (handled, server) \<leftarrow> handle server request_bytes;
     following (test_response_frame file handled) (\<lambda>response.
     IMLP_EXPECT_EQ file 63 ''response.opcode'' ''imlp::Opcode::error_response''
       (frame_opcode response) Opcode_error_response (
     IMLP_EXPECT_EQ file 64 ''response.status'' ''imlp::Status::write_disabled''
       (frame_status response) Status_write_disabled (
     IMLP_EXPECT_EQ file 65 ''response.request_id'' ''request.request_id''
       (frame_request_id response) (frame_request_id request) finished))) }) }"

text \<open>The status of \<open>response_frame (server.handle (encoded_bytes (frame)))\<close>, with the new state of the server.\<close>

definition handled_status :: "string \<Rightarrow> MemoryServer \<Rightarrow> Frame \<Rightarrow> (Status \<times> MemoryServer) checked" where
  "handled_status file server frame =
     following (encoded_bytes file frame) (\<lambda>request_bytes. do {
     (handled, server) \<leftarrow> handle server request_bytes;
     following (test_response_frame file handled) (\<lambda>response. Some (Inr (frame_status response, server))) })"

definition server_allows_only_explicitly_enabled_allowlisted_writes :: "string \<Rightarrow> unit checked" where
  "server_allows_only_explicitly_enabled_allowlisted_writes file = do {
     server \<leftarrow> MemoryServer_new \<lparr>writes_enabled = True, write_allow_begin = 0x0120, write_allow_end = 0x012F\<rparr>;
     let allowed = Frame_default\<lparr>frame_opcode := Opcode_write_request, frame_request_id := 1,
       frame_address := 0x0120, frame_payload := [0xAB, 0xCD]\<rparr>;
     following (handled_status file server allowed) (\<lambda>(status, server).
     IMLP_EXPECT_EQ file 77 ''response_frame(server.handle(encoded_bytes(allowed))).status'' ''imlp::Status::ok''
       status Status_ok
     (let denied = allowed\<lparr>frame_request_id := 2, frame_address := 0x011F\<rparr> in
     following (handled_status file server denied) (\<lambda>(status, server).
     IMLP_EXPECT_EQ file 82 ''response_frame(server.handle(encoded_bytes(denied))).status''
       ''imlp::Status::access_denied'' status Status_access_denied
     (let denied = denied\<lparr>frame_request_id := 3, frame_address := 0x012F\<rparr> in
     following (handled_status file server denied) (\<lambda>(status, server).
     IMLP_EXPECT_EQ file 87 ''response_frame(server.handle(encoded_bytes(denied))).status''
       ''imlp::Status::access_denied'' status Status_access_denied finished))))) }"

definition server_returns_no_frame_for_undecodable_input :: "string \<Rightarrow> unit checked" where
  "server_returns_no_frame_for_undecodable_input file = do {
     server \<leftarrow> MemoryServer_new ServerPolicy_default;
     let malformed = [0x49, 0x4D, 1];
     (result, server) \<leftarrow> handle server malformed;
     IMLP_EXPECT file 95 ''result.response.empty()'' (handle_response result = []) (
     IMLP_EXPECT file 96 ''!result.event.request_decoded'' (\<not> event_request_decoded (handle_event result)) (
     IMLP_EXPECT_EQ file 97 ''result.event.status'' ''imlp::Status::bad_request''
       (event_status (handle_event result)) Status_bad_request finished)) }"

section \<open>Tests of the client\<close>

definition client_reads_identity_and_reports_metrics :: "string \<Rightarrow> unit checked" where
  "client_reads_identity_and_reports_metrics file = do {
     server \<leftarrow> MemoryServer_new ServerPolicy_default;
     let client = Client_new (LoopbackTransport_new server) ClientOptions_default;
     (result, client) \<leftarrow> client_read loopback 0 4 100 client;
     IMLP_EXPECT file 26 ''result'' (op_ok result) (do {
     hex \<leftarrow> bytes_to_hex (op_data result);
     IMLP_EXPECT_EQ file 27 ''imlp::bytes_to_hex(result.data)'' (''std::string('' @ quoted ''494d4c50'' @ '')'')
       hex ''494d4c50'' (
     IMLP_EXPECT_EQ file 28 ''result.attempts'' ''1U'' (op_attempts result) 1 (
     IMLP_EXPECT_EQ file 29 ''client.metrics().operations'' ''1U'' (operations (metrics client)) 1 (
     IMLP_EXPECT_EQ file 30 ''client.metrics().transport_attempts'' ''1U''
       (transport_attempts (metrics client)) 1 finished))) }) }"

definition client_retries_idempotent_read_with_same_correlation_id :: "string \<Rightarrow> unit checked" where
  "client_retries_idempotent_read_with_same_correlation_id file = do {
     server \<leftarrow> MemoryServer_new ServerPolicy_default;
     let transport = push_fault TransportFault_timeout (LoopbackTransport_new server);
     let client = Client_new transport (ClientOptions_default\<lparr>maximum_read_attempts := 2\<rparr>);
     (result, client) \<leftarrow> client_read loopback 0x0040 1 100 client;
     IMLP_EXPECT file 39 ''result'' (op_ok result) (
     IMLP_EXPECT_EQ file 40 ''result.attempts'' ''2U'' (op_attempts result) 2 (
     IMLP_EXPECT_EQ file 41 ''client.metrics().timeouts'' ''1U'' (timeouts (metrics client)) 1 (
     IMLP_EXPECT_EQ file 42 ''client.metrics().retries'' ''1U'' (retries (metrics client)) 1 (
     IMLP_EXPECT_EQ file 43 ''transport.trace().size()'' ''4U'' (length (trace (client_transport client))) 4 (do {
     packet0 \<leftarrow> at (trace (client_transport client)) 0;
     first \<leftarrow> decode (trace_bytes packet0);
     packet2 \<leftarrow> at (trace (client_transport client)) 2;
     second \<leftarrow> decode (trace_bytes packet2);
     IMLP_EXPECT file 46 ''first'' (dec_ok first) (
     IMLP_EXPECT file 47 ''second'' (dec_ok second) (do {
     first_frame \<leftarrow> dec_frame first;
     second_frame \<leftarrow> dec_frame second;
     IMLP_EXPECT_EQ file 48 ''first.frame->request_id'' ''second.frame->request_id''
       (frame_request_id first_frame) (frame_request_id second_frame) finished })) }))))) }"

definition client_never_retries_an_ambiguous_write_timeout :: "string \<Rightarrow> unit checked" where
  "client_never_retries_an_ambiguous_write_timeout file = do {
     server \<leftarrow> MemoryServer_new (ServerPolicy_default\<lparr>writes_enabled := True\<rparr>);
     let transport = push_fault TransportFault_timeout (LoopbackTransport_new server);
     let client = Client_new transport (ClientOptions_default\<lparr>maximum_read_attempts := 5\<rparr>);
     let data = [0x7A];
     (result, client) \<leftarrow> client_write loopback 0x0100 data 100 client;
     IMLP_EXPECT file 58 ''!result'' (\<not> op_ok result) (
     IMLP_EXPECT_EQ file 59 ''result.error'' ''imlp::ClientError::timeout'' (op_error result) ClientError_timeout (
     IMLP_EXPECT_EQ file 60 ''result.attempts'' ''1U'' (op_attempts result) 1 (
     IMLP_EXPECT_EQ file 61 ''client.metrics().transport_attempts'' ''1U'' (transport_attempts (metrics client)) 1 (
     IMLP_EXPECT_EQ file 62 ''client.metrics().retries'' ''0U'' (retries (metrics client)) 0 finished)))) }"

definition client_rejects_wrong_correlation_and_corrupt_responses :: "string \<Rightarrow> unit checked" where
  "client_rejects_wrong_correlation_and_corrupt_responses file = do {
     server \<leftarrow> MemoryServer_new ServerPolicy_default;
     let client = Client_new (LoopbackTransport_new server) ClientOptions_default;
     let client = client\<lparr>client_transport := push_fault TransportFault_wrong_request_id (client_transport client)\<rparr>;
     (wrong_id, client) \<leftarrow> client_read loopback 0 4 100 client;
     IMLP_EXPECT_EQ file 72 ''wrong_id.error'' ''imlp::ClientError::correlation_mismatch''
       (op_error wrong_id) ClientError_correlation_mismatch (do {
     let client = client\<lparr>client_transport := push_fault TransportFault_corrupt_response (client_transport client)\<rparr>;
     (corrupt, client) \<leftarrow> client_read loopback 0 4 100 client;
     IMLP_EXPECT_EQ file 76 ''corrupt.error'' ''imlp::ClientError::malformed_response''
       (op_error corrupt) ClientError_malformed_response (
     IMLP_EXPECT_EQ file 77 ''client.metrics().protocol_errors'' ''2U''
       (protocol_errors (metrics client)) 2 finished) }) }"

definition client_preserves_remote_write_policy_status :: "string \<Rightarrow> unit checked" where
  "client_preserves_remote_write_policy_status file = do {
     server \<leftarrow> MemoryServer_new ServerPolicy_default;
     let client = Client_new (LoopbackTransport_new server) ClientOptions_default;
     let data = [0x01];
     (result, client) \<leftarrow> client_write loopback 0x0100 data 100 client;
     IMLP_EXPECT_EQ file 86 ''result.error'' ''imlp::ClientError::remote_error''
       (op_error result) ClientError_remote_error (
     IMLP_EXPECT_EQ file 87 ''result.remote_status'' ''imlp::Status::write_disabled''
       (op_remote_status result) Status_write_disabled finished) }"

definition client_validates_arguments_before_transport_use :: "string \<Rightarrow> unit checked" where
  "client_validates_arguments_before_transport_use file = do {
     server \<leftarrow> MemoryServer_new ServerPolicy_default;
     let client = Client_new (LoopbackTransport_new server) ClientOptions_default;
     (r1, client) \<leftarrow> client_read loopback 0 0 100 client;
     IMLP_EXPECT_EQ file 94 ''client.read(0U, 0U, 100ms).error'' ''imlp::ClientError::invalid_argument''
       (op_error r1) ClientError_invalid_argument (do {
     (r2, client) \<leftarrow> client_read loopback 0 (word_of_nat maximum_payload_size + 1) 100 client;
     IMLP_EXPECT_EQ file 95 ''client.read(0U, imlp::maximum_payload_size + 1U, 100ms).error''
       ''imlp::ClientError::invalid_argument'' (op_error r2) ClientError_invalid_argument (do {
     let data = [0x01];
     (r3, client) \<leftarrow> client_write loopback 0x0100 data 0 client;
     IMLP_EXPECT_EQ file 98 ''client.write(0x0100U, data, 0ms).error'' ''imlp::ClientError::invalid_argument''
       (op_error r3) ClientError_invalid_argument (
     IMLP_EXPECT file 99 ''transport.trace().empty()'' (trace (client_transport client) = []) finished) }) }) }"

section \<open>The tests of memory map and server pass\<close>

lemma memory_map_enforces_regions_and_range_boundaries_passes:
  "memory_map_enforces_regions_and_range_boundaries file = finished"
proof -
  have "access_for 0 = Access_read_only" "access_for 0x100 = Access_read_write" "access_for 0x800 = Access_denied"
    by (simp_all add: access_for_iff)
  then show ?thesis
    by (simp add: memory_map_enforces_regions_and_range_boundaries_def MemoryMap_new_eq mem_ok_def
        memory_read_eq [OF memory_inv_initial])
qed

lemma memory_map_rejects_read_only_and_cross_region_writes_passes:
  "memory_map_rejects_read_only_and_cross_region_writes file = finished"
proof -
  define m0 where "m0 = \<lparr>mm_bytes = initial_bytes\<rparr>"
  define m1 where "m1 = m0\<lparr>mm_bytes := take 0x100 initial_bytes @ [0x11, 0x22] @ drop 0x102 initial_bytes\<rparr>"
  have inv: "memory_inv m0" "memory_inv m1" by (simp_all add: m0_def m1_def memory_inv_def)
  have "memory_write m0 0 [0x11, 0x22] = Some (Status_access_denied, m0)"
    "memory_write m0 0x100 [0x11, 0x22] = Some (Status_ok, m1)"
    "memory_write m1 0x7FF [0x11, 0x22] = Some (Status_access_denied, m1)"
    using inv by (simp_all add: memory_write_eq m1_def) (simp add: m0_def)
  moreover have "memory_read m1 0x100 2 = Some \<lparr>mem_status = Status_ok, mem_data = [0x11, 0x22]\<rparr>"
    using inv by (simp add: memory_read_eq) (simp add: m1_def)
  ultimately show ?thesis
    by (simp add: memory_map_rejects_read_only_and_cross_region_writes_def MemoryMap_new_eq m0_def [symmetric] size_of_def)
qed

lemma encoded_bytes_passes: "valid_frame f \<Longrightarrow> encoded_bytes file f = Some (Inr (wire f))"
  by (simp add: encoded_bytes_def encode_wire enc_ok_def Let_def)

lemma test_response_frame_passes:
  "valid_frame (fst reply) \<Longrightarrow> test_response_frame file (success_event req reply) = Some (Inr (fst reply))"
  by (simp add: test_response_frame_def success_event_def decode_wire dec_ok_def)

lemma handled_status_passes:
  assumes "server_inv s" and "valid_frame req"
  defines "result \<equiv> serve (server_policy s) (mm_bytes (server_memory s)) req"
  shows "handled_status file s req = Some (Inr (frame_status (fst (fst result)), with_memory s (snd result)))"
  using assms(1) handle_serve [OF assms(1,2)]
  by (simp add: handled_status_def encoded_bytes_passes [OF assms(2)] result_def test_response_frame_passes
      valid_serve server_inv_def memory_inv_def)

lemma server_defaults_to_read_only_and_returns_correlated_error_passes:
  "server_defaults_to_read_only_and_returns_correlated_error file = finished"
proof -
  define req where "req = Frame_default\<lparr>frame_opcode := Opcode_write_request, frame_request_id := 42,
       frame_address := 0x0100, frame_payload := [0xAB]\<rparr>"
  have valid: "valid_frame req"
    by (simp add: req_def valid_frame_def valid_semantics_def Frame_default_def protocol_version_def)
  have "handle (fresh_server ServerPolicy_default) (wire req) =
      Some (success_event req (reject req Status_write_disabled ''write_disabled''), fresh_server ServerPolicy_default)"
    using valid by (simp add: handle_wire_frame ServerPolicy_default_def) (simp add: req_def)
  then show ?thesis
    unfolding server_defaults_to_read_only_and_returns_correlated_error_def req_def [symmetric] Let_def
    by (simp add: MemoryServer_new_eq encoded_bytes_passes valid test_response_frame_passes valid_reject)
      (simp add: reject_def response_frame_def)
qed

lemma server_allows_only_explicitly_enabled_allowlisted_writes_passes:
  "server_allows_only_explicitly_enabled_allowlisted_writes file = finished"
proof -
  define s0 where "s0 = fresh_server \<lparr>writes_enabled = True, write_allow_begin = 0x0120, write_allow_end = 0x012F\<rparr>"
  define q where "q = (\<lambda>i a. Frame_default\<lparr>frame_opcode := Opcode_write_request, frame_request_id := i,
       frame_address := a, frame_payload := [0xAB, 0xCD]\<rparr>)"
  have valid: "valid_frame (q i a)" for i a
    by (simp add: q_def valid_frame_def valid_semantics_def Frame_default_def protocol_version_def)
  have q1: "Frame_default\<lparr>frame_opcode := Opcode_write_request, frame_request_id := 1, frame_address := 0x0120,
      frame_payload := [0xAB, 0xCD]\<rparr> = q 1 0x120" by (simp add: q_def)
  have q: "(q i a)\<lparr>frame_request_id := j, frame_address := b\<rparr> = q j b" for i a j b by (simp add: q_def)
  define s1 where "s1 = with_memory s0 (snd (serve (server_policy s0) (mm_bytes (server_memory s0)) (q 1 0x120)))"
  have inv: "server_inv s0" "server_inv s1"
    by (simp_all add: s0_def s1_def server_inv_def memory_inv_def with_memory_def fresh_server_def length_serve)
  have "handled_status file s0 (q 1 0x120) = Some (Inr (Status_ok, s1))"
    unfolding handled_status_passes [OF inv(1) valid] s1_def
    by (simp add: s0_def serve_def q_def in_allowlist_def response_frame_def Let_def)
  moreover have "handled_status file s1 (q i a) = Some (Inr (Status_access_denied, s1))" if "a = 0x11F \<or> a = 0x12F" for i a
    unfolding handled_status_passes [OF inv(2) valid] using that
    by (auto simp: s1_def) (auto simp: s0_def serve_def q_def in_allowlist_def reject_def response_frame_def Let_def)
  ultimately show ?thesis
    unfolding server_allows_only_explicitly_enabled_allowlisted_writes_def q1
    by (simp add: MemoryServer_new_eq s0_def [symmetric] q Let_def)
qed

lemma server_returns_no_frame_for_undecodable_input_passes:
  "server_returns_no_frame_for_undecodable_input file = finished"
proof -
  have "decode [0x49, 0x4D, 1] = Some (dec_fail CodecError_truncated 0)" by (simp add: decode_def)
  then show ?thesis
    by (simp add: server_returns_no_frame_for_undecodable_input_def MemoryServer_new_eq handle_def dec_fail_def dec_ok_def)
qed

section \<open>The tests of the client pass\<close>

text \<open>A client that was just built, over a loopback with the given fault script.\<close>

definition new_client :: "ServerPolicy \<Rightarrow> TransportFault list \<Rightarrow> size_t \<Rightarrow> LoopbackTransport Client" where
  "new_client p faults n = Client_new ((LoopbackTransport_new (fresh_server p))\<lparr>loop_faults := faults\<rparr>)
     (ClientOptions_default\<lparr>maximum_read_attempts := n\<rparr>)"

lemma new_client_simps [simp]:
  "loop_inv (client_transport (new_client p faults n))" "client_server (new_client p faults n) = fresh_server p"
  "client_faults (new_client p faults n) = faults" "next_request_id (new_client p faults n) = 1"
  "client_metrics (new_client p faults n) = ClientMetrics_default" "loop_trace (client_transport (new_client p faults n)) = []"
  "1 \<le> n \<Longrightarrow> maximum_read_attempts (client_options (new_client p faults n)) = n"
  by (simp_all add: new_client_def Client_new_def max_def LoopbackTransport_new_def loop_inv_def trace_wf_def)

lemma new_client_fold:
  "Client_new (LoopbackTransport_new (fresh_server p)) ClientOptions_default = new_client p [] 2"
  "Client_new (push_fault f (LoopbackTransport_new (fresh_server p))) (ClientOptions_default\<lparr>maximum_read_attempts := n\<rparr>) =
    new_client p [f] n"
  "(new_client p [] n)\<lparr>client_transport := push_fault f (client_transport (new_client p [] n))\<rparr> = new_client p [f] n"
  by (simp_all add: new_client_def push_fault_def LoopbackTransport_new_def ClientOptions_default_def Client_new_def)

lemma client_reads_identity_and_reports_metrics_passes: "client_reads_identity_and_reports_metrics file = finished"
proof -
  let ?c = "new_client ServerPolicy_default [] 2"
  have c: "loop_inv (client_transport ?c)" "readable_args 4 100" "1 \<le> maximum_read_attempts (client_options ?c)"
    "read_script (unat (maximum_read_attempts (client_options ?c))) (client_faults ?c) = (1, None, [])"
    by (simp_all add: readable_args_def)
  have "take 4 initial_bytes = [0x49, 0x4D, 0x4C, 0x50]"
    by (simp add: initial_bytes_prefix identity_def of_char_def)
  then have "settled (client_server ?c) (read_frame (next_request_id ?c) 0 4) Opcode_data_response 4 [] None (word_of_nat 1) =
      \<lparr>op_error = ClientError_none, op_remote_status = Status_ok, op_request_id = 1, op_attempts = 1,
        op_data = [0x49, 0x4D, 0x4C, 0x50], op_detail = ''ok''\<rparr>"
    by (simp add: settled_read_ok)
  with client_read_loopback [OF c, of 0] obtain c' where
    r: "client_read loopback 0 4 100 ?c = Some (\<lparr>op_error = ClientError_none, op_remote_status = Status_ok,
      op_request_id = 1, op_attempts = 1, op_data = [0x49, 0x4D, 0x4C, 0x50], op_detail = ''ok''\<rparr>, c')"
    by simp
  have "hex_text [0x49, 0x4D, 0x4C, 0x50] = ''494d4c50''" by (simp add: hex_text_def hex_digits_def)
  then show ?thesis
    using client_read_log(2) [OF c r]
    by (simp add: client_reads_identity_and_reports_metrics_def MemoryServer_new_eq new_client_fold r op_ok_def
        bytes_to_hex_eq metrics_def ClientMetrics_default_def)
qed

lemma client_retries_idempotent_read_with_same_correlation_id_passes:
  "client_retries_idempotent_read_with_same_correlation_id file = finished"
proof -
  let ?c = "new_client ServerPolicy_default [TransportFault_timeout] 2"
  have c: "loop_inv (client_transport ?c)" "readable_args 1 100" "1 \<le> maximum_read_attempts (client_options ?c)"
    "read_script (unat (maximum_read_attempts (client_options ?c))) (client_faults ?c) = (2, None, [])"
    by (simp_all add: readable_args_def)
  obtain c' where r: "client_read loopback 0x40 1 100 ?c =
      Some (settled (client_server ?c) (read_frame (next_request_id ?c) 0x40 1) Opcode_data_response 1 [] None (word_of_nat 2), c')"
    using client_read_loopback [OF c, of "0x40"] by blast
  have ok: "op_ok (settled (client_server ?c) (read_frame (next_request_id ?c) 0x40 1) Opcode_data_response 1 [] None (word_of_nat 2))"
    by (simp add: settled_read_ok op_ok_def)
  have valid: "valid_frame (read_frame 1 0x40 1)" by (simp add: valid_read_frame)
  show ?thesis
    using client_read_log [OF c r] ok
    by (simp add: client_retries_idempotent_read_with_same_correlation_id_def MemoryServer_new_eq new_client_fold r
        metrics_def ClientMetrics_default_def trace_def numeral_2_eq_2 at_def decode_wire [OF valid] dec_ok_def)
qed

lemma client_never_retries_an_ambiguous_write_timeout_passes:
  "client_never_retries_an_ambiguous_write_timeout file = finished"
proof -
  let ?c = "new_client (ServerPolicy_default\<lparr>writes_enabled := True\<rparr>) [TransportFault_timeout] 5"
  have c: "loop_inv (client_transport ?c)" "writable_args [0x7A] 100" by (simp_all add: writable_args_def)
  obtain r c' where r: "client_write loopback 0x100 [0x7A] 100 ?c = Some (r, c')" "op_error r = ClientError_timeout" "op_attempts r = 1"
    using client_write_loopback [OF c, of "0x100"] by (simp add: settled_error next_fault_def)
  show ?thesis
    using client_write_log(2) [OF c r(1)]
    by (simp add: client_never_retries_an_ambiguous_write_timeout_def MemoryServer_new_eq new_client_fold r
        metrics_def ClientMetrics_default_def op_ok_def)
qed

lemma client_rejects_wrong_correlation_and_corrupt_responses_passes:
  "client_rejects_wrong_correlation_and_corrupt_responses file = finished"
proof -
  let ?inject = "\<lambda>c. c\<lparr>client_transport := push_fault TransportFault_corrupt_response (client_transport c)\<rparr>"
  let ?c = "new_client ServerPolicy_default [TransportFault_wrong_request_id] 2"
  have args: "readable_args 4 100" by (simp add: readable_args_def)
  have c: "loop_inv (client_transport ?c)" "1 \<le> maximum_read_attempts (client_options ?c)"
    "read_script (unat (maximum_read_attempts (client_options ?c))) (client_faults ?c) =
      (1, Some TransportFault_wrong_request_id, [])"
    by simp_all
  obtain r c' where r: "client_read loopback 0 4 100 ?c = Some (r, c')" "op_error r = ClientError_correlation_mismatch"
    and c': "follows ?c c'" "client_server c' = fresh_server ServerPolicy_default" "client_faults c' = []"
    by (rule client_read_settled [OF c(1) args c(2,3), of 0]) (simp add: settled_error)
  let ?c1 = "?inject c'"
  have c1: "loop_inv (client_transport ?c1)" "1 \<le> maximum_read_attempts (client_options ?c1)"
    "read_script (unat (maximum_read_attempts (client_options ?c1))) (client_faults ?c1) =
      (1, Some TransportFault_corrupt_response, [])"
    using c' loop_inv_push_fault [of "client_transport c'" TransportFault_corrupt_response]
    by (simp_all add: follows_def push_fault_def)
  obtain r1 c1' where r1: "client_read loopback 0 4 100 ?c1 = Some (r1, c1')" "op_error r1 = ClientError_malformed_response"
    by (rule client_read_settled [OF c1(1) args c1(2,3), of 0]) (simp add: settled_corrupted c'(2))
  show ?thesis
    using client_read_log(2) [OF c(1) args c(2,3) r(1)] client_read_log(2) [OF c1(1) args c1(2,3) r1(1)] r(2) r1(2)
    by (simp add: client_rejects_wrong_correlation_and_corrupt_responses_def MemoryServer_new_eq new_client_fold r(1) r1(1)
        metrics_def ClientMetrics_default_def counted_errors_def)
qed

lemma client_preserves_remote_write_policy_status_passes: "client_preserves_remote_write_policy_status file = finished"
proof -
  let ?c = "new_client ServerPolicy_default [] 2"
  have c: "loop_inv (client_transport ?c)" "writable_args [1] 100" by (simp_all add: writable_args_def)
  obtain r c' where "client_write loopback 0x100 [1] 100 ?c = Some (r, c')"
    "op_error r = ClientError_remote_error" "op_remote_status r = Status_write_disabled"
    using client_write_loopback [OF c, of "0x100"] by (simp add: settled_write_disabled next_fault_def ServerPolicy_default_def)
  then show ?thesis
    by (simp add: client_preserves_remote_write_policy_status_def MemoryServer_new_eq new_client_fold)
qed

lemma client_validates_arguments_before_transport_use_passes:
  "client_validates_arguments_before_transport_use file = finished"
  by (simp add: client_validates_arguments_before_transport_use_def MemoryServer_new_eq client_read_eq client_write_eq
      readable_args_def writable_args_def Client_new_def trace_def LoopbackTransport_new_def)

end
