(* ===== verification/Test_Suite.thy ===== *)
theory Test_Suite
  imports Test_Codec Test_System "HOL-Library.Multiset"
begin

text \<open>
  The test program: the four translation units register their tests, and \<open>main\<close> runs the registry. The order
  in which translation units are initialised is not specified by the language, so what the program prints is
  shown for every order of the twenty tests.
\<close>

section \<open>Translation units\<close>

text \<open>The registrations of each file of \<open>tests/\<close>, in the order of their definition.\<close>

definition test_client :: "string \<Rightarrow> TestCase list \<Rightarrow> TestCase list" where
  "test_client file = fold IMLP_TEST
     [(''client_reads_identity_and_reports_metrics'',
       client_reads_identity_and_reports_metrics file),
      (''client_retries_idempotent_read_with_same_correlation_id'',
       client_retries_idempotent_read_with_same_correlation_id file),
      (''client_never_retries_an_ambiguous_write_timeout'',
       client_never_retries_an_ambiguous_write_timeout file),
      (''client_rejects_wrong_correlation_and_corrupt_responses'',
       client_rejects_wrong_correlation_and_corrupt_responses file),
      (''client_preserves_remote_write_policy_status'',
       client_preserves_remote_write_policy_status file),
      (''client_validates_arguments_before_transport_use'',
       client_validates_arguments_before_transport_use file)]"

definition test_codec :: "string \<Rightarrow> TestCase list \<Rightarrow> TestCase list" where
  "test_codec file = fold IMLP_TEST
     [(''crc32_matches_published_check_value'',
       crc32_matches_published_check_value file),
      (''read_request_round_trips_with_big_endian_fields'',
       read_request_round_trips_with_big_endian_fields file),
      (''codec_rejects_truncation_trailing_bytes_and_corruption'',
       codec_rejects_truncation_trailing_bytes_and_corruption file),
      (''codec_rejects_untrusted_header_fields_before_indexing_payload'',
       codec_rejects_untrusted_header_fields_before_indexing_payload file),
      (''encoder_rejects_semantically_invalid_frames'',
       encoder_rejects_semantically_invalid_frames file),
      (''hex_conversion_is_exact_and_bounded'',
       hex_conversion_is_exact_and_bounded file)]"

definition test_memory :: "string \<Rightarrow> TestCase list \<Rightarrow> TestCase list" where
  "test_memory file = fold IMLP_TEST
     [(''memory_map_enforces_regions_and_range_boundaries'',
       memory_map_enforces_regions_and_range_boundaries file),
      (''memory_map_rejects_read_only_and_cross_region_writes'',
       memory_map_rejects_read_only_and_cross_region_writes file),
      (''server_defaults_to_read_only_and_returns_correlated_error'',
       server_defaults_to_read_only_and_returns_correlated_error file),
      (''server_allows_only_explicitly_enabled_allowlisted_writes'',
       server_allows_only_explicitly_enabled_allowlisted_writes file),
      (''server_returns_no_frame_for_undecodable_input'',
       server_returns_no_frame_for_undecodable_input file)]"

definition test_properties :: "string \<Rightarrow> TestCase list \<Rightarrow> TestCase list" where
  "test_properties file = fold IMLP_TEST
     [(''generated_valid_frames_round_trip_exactly'',
       generated_valid_frames_round_trip_exactly file),
      (''checksum_mutation_is_always_detected'',
       checksum_mutation_is_always_detected file),
      (''arbitrary_bounded_input_never_produces_an_unstable_frame'',
       arbitrary_bounded_input_never_produces_an_unstable_frame file)]"

text \<open>The registry after the initialisation of some translation units, one after the other.\<close>

definition static_initialisation :: "(TestCase list \<Rightarrow> TestCase list) list \<Rightarrow> TestCase list" where
  "static_initialisation units = foldl (\<lambda>registry u. u registry) [] units"

section \<open>Property\<close>

lemma static_initialisation_all:
  fixes fc fo fm fp :: string
  defines "registry \<equiv> static_initialisation [test_client fc, test_codec fo, test_memory fm, test_properties fp]"
  shows "list_all passes registry" and "length registry = 20"
  by (simp_all add: registry_def static_initialisation_def registrations passes_def
      test_client_def test_codec_def test_memory_def test_properties_def
      crc32_matches_published_check_value_passes
      read_request_round_trips_with_big_endian_fields_passes
      codec_rejects_truncation_trailing_bytes_and_corruption_passes
      codec_rejects_untrusted_header_fields_before_indexing_payload_passes
      encoder_rejects_semantically_invalid_frames_passes
      hex_conversion_is_exact_and_bounded_passes
      memory_map_enforces_regions_and_range_boundaries_passes
      memory_map_rejects_read_only_and_cross_region_writes_passes
      server_defaults_to_read_only_and_returns_correlated_error_passes
      server_allows_only_explicitly_enabled_allowlisted_writes_passes
      server_returns_no_frame_for_undecodable_input_passes
      client_reads_identity_and_reports_metrics_passes
      client_retries_idempotent_read_with_same_correlation_id_passes
      client_never_retries_an_ambiguous_write_timeout_passes
      client_rejects_wrong_correlation_and_corrupt_responses_passes
      client_preserves_remote_write_policy_status_passes
      client_validates_arguments_before_transport_use_passes property_tests_pass
      del: fold_simps fold.simps)

text \<open>
  C39. The repository's own tests pass: in whatever order the translation units register the twenty tests,
  and whatever \<open>__FILE__\<close> expands to, the test program prints one \<open>PASS\<close> line for each of them in that
  order and the summary, writes nothing to standard error, and exits with 0. The three property tests with
  their 22000 generated inputs are included.
\<close>

theorem test_suite_passes:
  assumes "mset registry =
    mset (static_initialisation [test_client fc, test_codec fo, test_memory fm, test_properties fp])"
  shows "test_main registry = Some
    \<lparr>process_out = concat (map (\<lambda>test. ''PASS '' @ test_name test @ newline) registry) @
       ''SUMMARY passed=20 failed=0'' @ newline,
     process_err = [], process_exit = 0\<rparr>"
proof -
  have "length registry = 20" using static_initialisation_all(2) [of fc fo fm fp] by (simp add: assms flip: size_mset)
  moreover have "list_all passes registry"
    using mset_eq_setD [OF assms] static_initialisation_all(1) [of fc fo fm fp] by (simp add: list_all_iff)
  moreover have "digits_in 10 20 = ''20''" "digits_in 10 0 = ''0''"
    by (simp_all add: digits_in.simps hex_digits_def)
  ultimately show ?thesis by (simp add: test_main_all_pass pass_line_def [abs_def])
qed

theorem test_suite_passes_witness:
  "\<exists>p. test_main (static_initialisation [test_properties ''test_properties.cpp'', test_memory ''test_memory.cpp'',
      test_codec ''test_codec.cpp'', test_client ''test_client.cpp'']) = Some p \<and> process_exit p = 0"
proof -
  have "mset (static_initialisation [test_properties ''test_properties.cpp'', test_memory ''test_memory.cpp'',
      test_codec ''test_codec.cpp'', test_client ''test_client.cpp'']) =
    mset (static_initialisation [test_client ''test_client.cpp'', test_codec ''test_codec.cpp'',
      test_memory ''test_memory.cpp'', test_properties ''test_properties.cpp''])"
    by (simp add: static_initialisation_def registrations test_client_def test_codec_def test_memory_def test_properties_def
        del: fold_simps fold.simps list.map mset.simps)
  from test_suite_passes [OF this] show ?thesis by simp
qed

end
