(* ===== verification/Spec2Isabelle.thy ===== *)
theory Spec2Isabelle
  imports Hex Hamming System Remote_Memory Shared Traffic Cli_Output Fuzz Benchmark Test_Suite
begin

text \<open>
  Verification of the Industrial Memory Protocol Workbench, a C++20 library and tool for a synthetic
  request/response protocol (IMLP/1) over a simulated 4 KiB memory.

  \<^bold>\<open>The program.\<close> A \<^emph>\<open>codec\<close> (\<open>src/codec.cpp\<close>) turns frames into bytes and back, with a CRC-32
  trailer, and converts bytes to and from hexadecimal text. A \<^emph>\<open>memory map\<close> (\<open>src/memory_map.cpp\<close>)
  holds 4096 bytes in a read-only, a read/write and a denied region. A \<^emph>\<open>server\<close> (\<open>src/server.cpp\<close>)
  decodes a request, applies its write policy and the memory map, and encodes one response. A
  \<^emph>\<open>transport\<close> (\<open>src/transport.cpp\<close>) is an abstract class with one implementation, an in-process
  loopback to a server that records every packet and injects scripted faults. A \<^emph>\<open>client\<close>
  (\<open>src/client.cpp\<close>) numbers requests, connects on demand, retries reads within a bound, sends writes
  once, checks that a response answers its request, and counts what happened. The \<^emph>\<open>programs\<close> under
  \<open>apps/\<close>, \<open>fuzz/\<close> and \<open>tests/\<close> are a command-line tool, a benchmark, a fuzz target and the tests.

  \<^bold>\<open>Theories.\<close>
  \<^item> \<open>Imlp_Prelude\<close>: word types; accesses with undefined behaviour as options (\<open>at\<close>, \<open>store\<close>,
    \<open>iter_range\<close>, \<open>std_copy\<close>, \<open>std_equal\<close>); \<open>yields\<close>, the rules for computations without undefined
    behaviour; runs of step functions and the locales \<open>machine\<close>, \<open>framed_machine\<close> and \<open>simulation\<close>,
    the last against a specification given as a labelled step relation.
  \<^item> \<open>Types\<close>: \<open>include/imlp/types.hpp\<close>. \<open>Opcode\<close> and \<open>Status\<close> have every value of their underlying
    integer, as in C++.
  \<^item> \<open>Crc32\<close>, \<open>Codec\<close>: the checksum loops, \<open>encode\<close> and \<open>decode\<close>, and their specifications: a
    bit-serial shift register, the wire format \<open>wire\<close>, the ordered list of checks \<open>decode_checks\<close>. Shown:
    both round trips, which frames are accepted, compared with the opcode table of the protocol
    specification (the codec leaves the requested length of a read to the server), which error is
    reported, and that bursts of up to 32 bits are detected. Locales \<open>framing\<close> and \<open>exact_framing\<close>.
  \<^item> \<open>Hamming\<close>: the 2224 powers that the checksum register runs through over the longest frame are
    computed and sifted by the simplifier; since no three of them cancel, up to three flipped bits
    anywhere in a frame are detected.
  \<^item> \<open>Hex\<close>: \<open>bytes_to_hex\<close> and \<open>bytes_from_hex\<close> against a table of digits.
  \<^item> \<open>Memory_Map\<close>: bounds check, permissions, reads and writes; exactness of the bounds check on
    64-bit words, results on every branch, protection of the regions over write sequences. Locale
    \<open>byte_store\<close>.
  \<^item> \<open>Server\<close>: \<open>handle\<close> on bytes implements \<open>serve\<close> on frames; every decodable request is answered;
    no input sequence changes bytes outside policy and region. Locale \<open>request_handler\<close>.
  \<^item> \<open>Transport\<close>: \<open>ITransport\<close> as a record of its virtual functions over a state type, the loopback, its
    faults and its trace. Locale \<open>transport_service\<close>, the contract the client relies on.
  \<^item> \<open>Client\<close>: all operations of the client over an arbitrary \<open>ITransport\<close>. Shown inside
    \<open>transport_service\<close>, so for every transport that keeps the contract: reads and writes always
    return, the bound on attempts, the single transmission of writes, the request IDs and the
    accuracy of the counters over sessions.
  \<^item> \<open>Fault_Scripts\<close>: what a read or write of the client does over the loopback under a fault script, as
    closed forms: the contacts of the retry loop, the packets they log, the counters, the final state.
  \<^item> \<open>System\<close>: client, loopback and server together. The outcome, trace and counters of reads and writes
    under any fault script, and the step relation \<open>sys_step\<close> of whole executions with its invariant.
  \<^item> \<open>Remote_Memory\<close>: the specification \<open>remote_step\<close> of what a user of the stack is promised, a byte
    memory behind a write policy with atomic calls and four outcomes, its consequences (frame, reading
    back), and that every call of the client over the loopback is one of its steps.
  \<^item> \<open>Shared\<close>: any number of clients whose transports refer to one server, with calls, faults and
    connection changes in any order. Interpretation of \<open>simulation\<close>: such sessions refine the
    specification, and written bytes persist across clients.
  \<^item> \<open>Traffic\<close>: the packets of every reachable state are typed.
  \<^item> \<open>Process\<close>, \<open>Cli\<close>: the command-line tool as a function from arguments to output, error output and exit
    code; which exit codes occur when.
  \<^item> \<open>Cli_Output\<close>: the text that \<open>read\<close> and \<open>write\<close> print for all arguments and \<open>demo\<close> prints, packet traces
    included, and which texts \<open>inspect\<close> accepts.
  \<^item> \<open>Fuzz\<close>, \<open>Benchmark\<close>: the fuzz target, and the benchmark with its report over an arbitrary clock
    and arbitrary floating-point operations.
  \<^item> \<open>Test_Harness\<close>, \<open>Test_Codec\<close>, \<open>Test_System\<close>, \<open>Test_Suite\<close>: the files of \<open>tests/\<close>, with thrown exceptions as
    values, and that the test program reports every test as passed. The tests were written against the C++
    code; that they pass on the model supports its fidelity.

  \<^bold>\<open>Correspondence.\<close> Structs are records and enumerations datatypes with the names of the source;
  a member function is a function of the same name that takes and returns the object (\<open>memory_read\<close>,
  \<open>client_read\<close>, \<open>loopback_exchange\<close> where the bare name is taken). An object that holds a reference
  to another one contains its state: the loopback its server, the client its transport; where several
  loopbacks refer to one server (\<open>Shared\<close>), its state is kept once and attached for each call. Integers on
  which the program computes keep their width and wrap; sizes of containers are natural numbers and
  enter such computations through \<open>size_of\<close>. Undefined behaviour is \<^term>\<open>None\<close>, and every operation is
  shown to return \<^term>\<open>Some\<close> under its invariant. Errors the program reports are values.

  \<^bold>\<open>Loops.\<close> No fuel is used. Loops over containers are structural; loops over counters are functions
  with a measure on words, and the loops of the property tests run over the list of their indices. The
  retry loop \<open>read_loop\<close> ends for every configured maximum, \<open>SIZE_MAX\<close> included, because the last
  permitted attempt returns from inside the loop.

  \<^bold>\<open>Not modelled.\<close> Memory allocation and its failure, the identity of objects and moves, and
  threads (the program has no locks and starts none). The \<open>unknown\<close> that the functions naming
  codec, transport and client errors return for values that are not enumerators: no such value is made. The steady clock and the arithmetic and formatting of
  \<open>double\<close> in the benchmark are arguments of the model. Of the programs, the operating system beyond the
  two output streams and the exit code; \<open>std::from_chars\<close>, \<open>std::sort\<close> and the insertion of integers into a
  stream are modelled as the language standard describes them. The scripts and the build files are not part of
  the program.
\<close>

end
